(* ===== verification/Prelude.thy ===== *)
theory Prelude
  imports Main "HOL-Library.AList" "HOL-Library.List_Lexorder" "HOL-Library.Char_ord"
begin

text \<open>
  What the components share: Go's 64-bit integers with the wrap-around written out, slices
  with their run-time checks, maps as association lists whose order stands for Go's
  unspecified iteration order, strings, and the collections of rules the component proofs
  use.

  Conventions. A Go \<open>string\<close> or \<open>[]byte\<close> is a \<open>char list\<close> (a \<open>char\<close> is one byte). A Go
  \<open>int\<close> or \<open>int64\<close> is an \<open>int\<close>; where the code adds or multiplies values a caller or
  the environment controls, the result goes through \<open>i64\<close>. A \<open>(T, error)\<close> pair is a sum,
  \<open>Inl\<close> the error; \<open>None\<close> of an \<open>option\<close> that models a computation is a run-time panic.
\<close>

named_theorems refine_rules \<open>laws of an implementation against its abstract view\<close>
named_theorems inv_rules \<open>preservation of a component's invariant\<close>

type_synonym bytes = "char list"

section \<open>64-bit integers\<close>

definition i64 :: "int \<Rightarrow> int" where
  "i64 x = (x + 2 ^ 63) mod 2 ^ 64 - 2 ^ 63"

definition in_i64 :: "int \<Rightarrow> bool" where
  "in_i64 x \<longleftrightarrow> - (2 ^ 63) \<le> x \<and> x < 2 ^ 63"

lemma i64_id [simp]: "in_i64 x \<Longrightarrow> i64 x = x"
  by (simp add: i64_def in_i64_def)

lemma i64_small: "0 \<le> x \<Longrightarrow> x < 2 ^ 63 \<Longrightarrow> i64 x = x"
  by (simp add: i64_def)

lemma in_i64_i64 [simp]: "in_i64 (i64 x)"
proof -
  have "0 \<le> (x + 2 ^ 63) mod 2 ^ 64" "(x + 2 ^ 63) mod 2 ^ 64 < (2 ^ 64 :: int)"
    by simp_all
  then show ?thesis unfolding i64_def in_i64_def by auto
qed

lemma i64_i64 [simp]: "i64 (i64 x) = i64 x"
  by simp

section \<open>Slices\<close>

text \<open>\<open>xs[low:]\<close> panics unless \<open>0 \<le> low \<le> len(xs)\<close>; \<open>xs[low:high]\<close> likewise.\<close>

definition slice_from :: "'a list \<Rightarrow> int \<Rightarrow> 'a list option" where
  "slice_from xs low =
     (if 0 \<le> low \<and> low \<le> int (length xs) then Some (drop (nat low) xs) else None)"

definition slice :: "'a list \<Rightarrow> int \<Rightarrow> int \<Rightarrow> 'a list option" where
  "slice xs low high =
     (if 0 \<le> low \<and> low \<le> high \<and> high \<le> int (length xs)
      then Some (take (nat (high - low)) (drop (nat low) xs)) else None)"

lemma slice_from_Some [simp]:
  "0 \<le> low \<Longrightarrow> low \<le> int (length xs) \<Longrightarrow> slice_from xs low = Some (drop (nat low) xs)"
  by (simp add: slice_from_def)

lemma slice_from_None [simp]: "int (length xs) < low \<Longrightarrow> slice_from xs low = None"
  by (simp add: slice_from_def)

lemma slice_Some [simp]:
  "0 \<le> low \<Longrightarrow> low \<le> high \<Longrightarrow> high \<le> int (length xs) \<Longrightarrow>
   slice xs low high = Some (take (nat (high - low)) (drop (nat low) xs))"
  by (simp add: slice_def)

section \<open>Maps\<close>

text \<open>
  A Go map is an association list with distinct keys. The order of the list is the order a
  \<open>range\<close> loop happens to visit the entries in, which the language leaves open: nothing
  below depends on it.
\<close>

type_synonym ('k, 'v) gomap = "('k \<times> 'v) list"

abbreviation gm_get :: "('k, 'v) gomap \<Rightarrow> 'k \<Rightarrow> 'v option" where
  "gm_get m k \<equiv> map_of m k"

definition gm_put :: "'k \<Rightarrow> 'v \<Rightarrow> ('k, 'v) gomap \<Rightarrow> ('k, 'v) gomap" where
  "gm_put k v m = AList.update k v m"

definition gm_del :: "'k \<Rightarrow> ('k, 'v) gomap \<Rightarrow> ('k, 'v) gomap" where
  "gm_del k m = AList.delete k m"

definition gm_ok :: "('k, 'v) gomap \<Rightarrow> bool" where
  "gm_ok m \<longleftrightarrow> distinct (map fst m)"

lemma gm_get_put [simp]: "gm_get (gm_put k v m) k' = (if k' = k then Some v else gm_get m k')"
  by (simp add: gm_put_def update_conv')

lemma gm_get_del [simp]: "gm_get (gm_del k m) k' = (if k' = k then None else gm_get m k')"
  by (simp add: gm_del_def delete_conv')

lemma gm_ok_Nil [simp]: "gm_ok []"
  by (simp add: gm_ok_def)

lemma gm_ok_put [simp, inv_rules]: "gm_ok m \<Longrightarrow> gm_ok (gm_put k v m)"
  by (simp add: gm_ok_def gm_put_def distinct_update)

lemma gm_ok_del [simp, inv_rules]: "gm_ok m \<Longrightarrow> gm_ok (gm_del k m)"
  by (simp add: gm_ok_def gm_del_def distinct_delete)

lemma gm_ok_filter [simp, inv_rules]: "gm_ok m \<Longrightarrow> gm_ok (filter P m)"
  unfolding gm_ok_def by (induction m) auto

lemma gm_get_filter:
  "gm_ok m \<Longrightarrow>
   gm_get (filter (\<lambda>(k, v). P k v) m) k =
     (case gm_get m k of None \<Rightarrow> None | Some v \<Rightarrow> if P k v then Some v else None)"
  unfolding gm_ok_def
  by (induction m) (auto simp: map_of_eq_None_iff rev_image_eqI split: option.splits)

lemma gm_in_set: "gm_ok m \<Longrightarrow> (k, v) \<in> set m \<longleftrightarrow> gm_get m k = Some v"
  by (auto simp: gm_ok_def map_of_eq_Some_iff)

text \<open>
  The contract every registry of this program relies on: what a lookup sees after an
  insertion and after a removal, and that both keep the table well formed.
\<close>

locale keyed_table =
  fixes lookup :: "'t \<Rightarrow> 'k \<Rightarrow> 'v option"
    and insert_entry :: "'k \<Rightarrow> 'v \<Rightarrow> 't \<Rightarrow> 't"
    and remove_entry :: "'k \<Rightarrow> 't \<Rightarrow> 't"
    and table_ok :: "'t \<Rightarrow> bool"
  assumes lookup_insert:
      "table_ok t \<Longrightarrow> lookup (insert_entry k v t) k' = (if k' = k then Some v else lookup t k')"
    and lookup_remove:
      "table_ok t \<Longrightarrow> lookup (remove_entry k t) k' = (if k' = k then None else lookup t k')"
    and ok_insert: "table_ok t \<Longrightarrow> table_ok (insert_entry k v t)"
    and ok_remove: "table_ok t \<Longrightarrow> table_ok (remove_entry k t)"
begin

lemma ok_insert_many: "table_ok t \<Longrightarrow> table_ok (fold (\<lambda>(k, v). insert_entry k v) kvs t)"
  by (induction kvs arbitrary: t) (auto intro: ok_insert)

lemma lookup_insert_many:
  "table_ok t \<Longrightarrow>
   lookup (fold (\<lambda>(k, v). insert_entry k v) kvs t) k =
     (case map_of (rev kvs) k of Some v \<Rightarrow> Some v | None \<Rightarrow> lookup t k)"
proof (induction kvs arbitrary: t)
  case Nil
  then show ?case by simp
next
  case (Cons kv kvs)
  obtain a b where kv: "kv = (a, b)" by (cases kv)
  from Cons.prems have ok: "table_ok (insert_entry a b t)" by (rule ok_insert)
  show ?case
    using Cons.IH [OF ok] Cons.prems
    by (auto simp: kv lookup_insert map_add_def split: option.splits)
qed

lemma ok_remove_many: "table_ok t \<Longrightarrow> table_ok (fold remove_entry ks t)"
  by (induction ks arbitrary: t) (auto intro: ok_remove)

lemma lookup_remove_many:
  "table_ok t \<Longrightarrow> lookup (fold remove_entry ks t) k = (if k \<in> set ks then None else lookup t k)"
  by (induction ks arbitrary: t) (auto simp: lookup_remove ok_remove)

lemma insert_remove_fresh:
  "table_ok t \<Longrightarrow> lookup t k = None \<Longrightarrow>
   lookup (remove_entry k (insert_entry k v t)) k' = lookup t k'"
  by (simp add: lookup_insert lookup_remove ok_insert)

end

section \<open>Strings\<close>

definition has_prefix :: "string \<Rightarrow> string \<Rightarrow> bool" where
  "has_prefix s p \<longleftrightarrow> take (length p) s = p"

definition has_suffix :: "string \<Rightarrow> string \<Rightarrow> bool" where
  "has_suffix s p \<longleftrightarrow> length p \<le> length s \<and> drop (length s - length p) s = p"

definition contains_nul :: "string \<Rightarrow> bool" where
  "contains_nul s \<longleftrightarrow> CHR 0x00 \<in> set s"

text \<open>Decimal text of an integer, as \<open>strconv.Itoa\<close> and \<open>%d\<close> print it.\<close>

definition digit_char :: "nat \<Rightarrow> char" where
  "digit_char d = char_of (48 + d)"

fun dec_digits :: "nat \<Rightarrow> string" where
  "dec_digits n = (if n < 10 then [digit_char n] else dec_digits (n div 10) @ [digit_char (n mod 10)])"

declare dec_digits.simps [simp del]

definition itoa :: "int \<Rightarrow> string" where
  "itoa x = (if x < 0 then ''-'' @ dec_digits (nat (- x)) else dec_digits (nat x))"

lemma of_char_digit_char [simp]: "d < 10 \<Longrightarrow> of_char (digit_char d) = (48 + d :: nat)"
  by (simp add: digit_char_def)

lemma digit_char_inj: "a < 10 \<Longrightarrow> b < 10 \<Longrightarrow> digit_char a = digit_char b \<Longrightarrow> a = b"
  by (metis of_char_digit_char add_left_cancel)

lemma dec_digits_neq_Nil [simp]: "dec_digits n \<noteq> []"
  by (subst dec_digits.simps) simp

definition digit_val :: "char \<Rightarrow> nat" where
  "digit_val c = of_char c - 48"

definition is_digit :: "char \<Rightarrow> bool" where
  "is_digit c \<longleftrightarrow> 48 \<le> (of_char c :: nat) \<and> (of_char c :: nat) \<le> 57"

definition dec_val :: "string \<Rightarrow> nat" where
  "dec_val s = foldl (\<lambda>n c. 10 * n + digit_val c) 0 s"

lemma digit_val_digit_char [simp]: "d < 10 \<Longrightarrow> digit_val (digit_char d) = d"
  by (simp add: digit_val_def)

lemma is_digit_digit_char [simp]: "d < 10 \<Longrightarrow> is_digit (digit_char d)"
  by (simp add: is_digit_def)

lemma dec_val_snoc [simp]: "dec_val (s @ [c]) = 10 * dec_val s + digit_val c"
  by (simp add: dec_val_def)

lemma dec_val_dec_digits [simp]: "dec_val (dec_digits n) = n"
proof (induction n rule: dec_digits.induct)
  case (1 n)
  show ?case
  proof (cases "n < 10")
    case True
    then show ?thesis by (subst dec_digits.simps) (simp add: dec_val_def)
  next
    case False
    with 1 have "dec_val (dec_digits (n div 10)) = n div 10" by simp
    with False show ?thesis by (subst dec_digits.simps) simp
  qed
qed

lemma dec_digits_inj: "dec_digits m = dec_digits n \<Longrightarrow> m = n"
  by (metis dec_val_dec_digits)

text \<open>Hexadecimal text of bytes, as \<open>hex.EncodeToString\<close> prints it.\<close>

definition hex_char :: "nat \<Rightarrow> char" where
  "hex_char n = (if n < 10 then digit_char n else char_of (87 + n))"

definition hex_encode :: "bytes \<Rightarrow> string" where
  "hex_encode bs = concat (map (\<lambda>b. [hex_char (of_char b div 16), hex_char (of_char b mod 16)]) bs)"

lemma length_hex_encode [simp]: "length (hex_encode bs) = 2 * length bs"
  by (induction bs) (simp_all add: hex_encode_def)

lemma of_char_hex_char: "n < 16 \<Longrightarrow> of_char (hex_char n) = (if n < 10 then 48 + n else 87 + n)"
  by (simp add: hex_char_def)

lemma hex_char_inj:
  assumes "m < 16" "n < 16" "hex_char m = hex_char n"
  shows "m = n"
proof -
  have "(if m < 10 then 48 + m else 87 + m) = (if n < 10 then 48 + n else 87 + n)"
    using of_char_hex_char assms by metis
  then show ?thesis by (auto split: if_splits)
qed

lemma hex_byte_inj:
  assumes "hex_char (of_char b div 16) = hex_char (of_char c div 16)"
    and "hex_char (of_char b mod 16) = hex_char (of_char c mod 16)"
  shows "b = c"
proof -
  have d: "(of_char x :: nat) div 16 < 16" for x using nat_of_char_less_256 [of x] by linarith
  have m: "(of_char x :: nat) mod 16 < 16" for x :: char by simp
  have "(of_char b :: nat) = of_char c"
    using hex_char_inj [OF d d assms(1)] hex_char_inj [OF m m assms(2)] by (metis div_mult_mod_eq)
  then show ?thesis by simp
qed

lemma hex_encode_inj: "hex_encode bs = hex_encode cs \<Longrightarrow> bs = cs"
proof (induction bs arbitrary: cs)
  case Nil
  then show ?case by (cases cs) (simp_all add: hex_encode_def)
next
  case (Cons b bs)
  then show ?case by (cases cs) (auto simp: hex_encode_def intro: hex_byte_inj)
qed

lemma dec_digits_is_digit: "c \<in> set (dec_digits n) \<Longrightarrow> is_digit c"
proof (induction n rule: dec_digits.induct)
  case (1 n)
  show ?case
  proof (cases "n < 10")
    case True
    with "1.prems" show ?thesis by (subst (asm) dec_digits.simps) simp
  next
    case False
    with "1.prems" have "c \<in> set (dec_digits (n div 10)) \<or> c = digit_char (n mod 10)"
      by (subst (asm) dec_digits.simps) auto
    with False "1.IH" show ?thesis by auto
  qed
qed

text \<open>\<open>strings.Fields\<close>, for the white space of ASCII.\<close>

definition is_space :: "char \<Rightarrow> bool" where
  "is_space c \<longleftrightarrow> (of_char c :: nat) \<in> {9, 10, 11, 12, 13, 32}"

fun fields_from :: "string \<Rightarrow> string \<Rightarrow> string list" where
  "fields_from cur [] = (if cur = [] then [] else [cur])"
| "fields_from cur (c # cs) =
     (if is_space c then (if cur = [] then fields_from [] cs else cur # fields_from [] cs)
      else fields_from (cur @ [c]) cs)"

end
