(* ===== verification/Proto.thy ===== *)
theory Proto
  imports Prelude
begin

text \<open>
  The wire protocol shared by Gateway and Agent (internal/proto/message.go): message types,
  method names, error codes, size limits, and the records that cross the WebSocket. A
  \<open>json.RawMessage\<close> is the type parameter \<open>'raw\<close>.
\<close>

section \<open>Constants\<close>

definition TypeHello :: string where "TypeHello = ''hello''"
definition TypeRequest :: string where "TypeRequest = ''request''"
definition TypeResponse :: string where "TypeResponse = ''response''"

definition MethodDevicePing :: string where "MethodDevicePing = ''device.ping''"
definition MethodCommandExec :: string where "MethodCommandExec = ''command.exec''"
definition MethodCommandRead :: string where "MethodCommandRead = ''command.read''"
definition MethodReadQuery :: string where "MethodReadQuery = ''read.query''"
definition MethodProcessStart :: string where "MethodProcessStart = ''process.start''"
definition MethodProcessRead :: string where "MethodProcessRead = ''process.read''"
definition MethodProcessWrite :: string where "MethodProcessWrite = ''process.write''"
definition MethodProcessWait :: string where "MethodProcessWait = ''process.wait''"
definition MethodProcessTerminate :: string where "MethodProcessTerminate = ''process.terminate''"
definition MethodProcessList :: string where "MethodProcessList = ''process.list''"
definition MethodExecutionList :: string where "MethodExecutionList = ''execution.list''"
definition MethodExecutionGet :: string where "MethodExecutionGet = ''execution.get''"
definition MethodFileRead :: string where "MethodFileRead = ''file.read''"
definition MethodFileStat :: string where "MethodFileStat = ''file.stat''"
definition MethodFileList :: string where "MethodFileList = ''file.list''"
definition MethodFileWrite :: string where "MethodFileWrite = ''file.write''"
definition MethodFileMove :: string where "MethodFileMove = ''file.move''"
definition MethodFileDelete :: string where "MethodFileDelete = ''file.delete''"
definition MethodDirectoryCreate :: string where "MethodDirectoryCreate = ''directory.create''"

lemmas method_defs =
  MethodDevicePing_def MethodCommandExec_def MethodCommandRead_def MethodReadQuery_def
  MethodProcessStart_def MethodProcessRead_def MethodProcessWrite_def MethodProcessWait_def
  MethodProcessTerminate_def MethodProcessList_def MethodExecutionList_def
  MethodExecutionGet_def MethodFileRead_def MethodFileStat_def MethodFileList_def
  MethodFileWrite_def MethodFileMove_def MethodFileDelete_def MethodDirectoryCreate_def

definition mutatingMethods :: "string list" where
  "mutatingMethods =
     [MethodCommandExec, MethodProcessStart, MethodProcessWrite, MethodProcessTerminate,
      MethodFileWrite, MethodFileMove, MethodFileDelete, MethodDirectoryCreate]"

definition IsMutatingMethod :: "string \<Rightarrow> bool" where
  "IsMutatingMethod m \<longleftrightarrow> m \<in> set mutatingMethods"

definition ErrDeviceOffline :: string where "ErrDeviceOffline = ''device_offline''"
definition ErrUnsupported :: string where "ErrUnsupported = ''unsupported''"
definition ErrProcessNotFound :: string where "ErrProcessNotFound = ''process_not_found''"
definition ErrPermissionDenied :: string where "ErrPermissionDenied = ''permission_denied''"
definition ErrSandboxViolation :: string where "ErrSandboxViolation = ''sandbox_violation''"
definition ErrInvalidRequest :: string where "ErrInvalidRequest = ''invalid_request''"
definition ErrTimeout :: string where "ErrTimeout = ''timeout''"
definition ErrTransportLost :: string where "ErrTransportLost = ''transport_lost''"
definition ErrExecutionUnknown :: string where "ErrExecutionUnknown = ''execution_unknown''"
definition ErrInternal :: string where "ErrInternal = ''internal_error''"
definition ErrFileTooLarge :: string where "ErrFileTooLarge = ''file_too_large''"

lemmas error_code_defs =
  ErrDeviceOffline_def ErrUnsupported_def ErrProcessNotFound_def ErrPermissionDenied_def
  ErrSandboxViolation_def ErrInvalidRequest_def ErrTimeout_def ErrTransportLost_def
  ErrExecutionUnknown_def ErrInternal_def ErrFileTooLarge_def

definition MaxRPCMessageBytes :: int where "MaxRPCMessageBytes = 32 * 2 ^ 20"
definition MaxCommandOutputBytes :: int where "MaxCommandOutputBytes = 2 * 2 ^ 20"
definition MaxFileReadBytes :: int where "MaxFileReadBytes = 8 * 2 ^ 20"

section \<open>Messages\<close>

record capabilities =
  cap_CommandRead :: bool
  cap_CommandExec :: bool
  cap_Process :: bool
  cap_Filesystem :: bool

record hello =
  he_Type :: string
  he_DeviceID :: string
  he_DeviceSecret :: string
  he_AgentVersion :: string
  he_OS :: string
  he_Arch :: string
  he_Capabilities :: capabilities

record 'raw request =
  rq_Type :: string
  rq_RequestID :: string
  rq_Method :: string
  rq_Params :: 'raw

record rpc_error =
  rpc_Code :: string
  rpc_Message :: string

definition RPCErr :: "string \<Rightarrow> string \<Rightarrow> rpc_error" where
  "RPCErr code msg = \<lparr>rpc_Code = code, rpc_Message = msg\<rparr>"

definition rpc_error_text :: "rpc_error \<Rightarrow> string" where
  "rpc_error_text e = rpc_Code e @ '': '' @ rpc_Message e"

text \<open>\<open>rs_Result\<close> is \<open>None\<close> while \<open>Result\<close> is the nil message, as \<open>rs_Error\<close> is for a nil pointer.\<close>

record 'raw response =
  rs_Type :: string
  rs_RequestID :: string
  rs_Result :: "'raw option"
  rs_Error :: "rpc_error option"

text \<open>
  \<open>NewRequest\<close> leaves \<open>RequestID\<close> empty; \<open>marshal\<close> is \<open>json.Marshal\<close> of the parameters.
\<close>

definition NewRequest :: "('p \<Rightarrow> string + 'raw) \<Rightarrow> string \<Rightarrow> 'p \<Rightarrow> string + 'raw request" where
  "NewRequest marshal m params =
     (case marshal params of
        Inl err \<Rightarrow> Inl err
      | Inr raw \<Rightarrow> Inr \<lparr>rq_Type = TypeRequest, rq_RequestID = [], rq_Method = m, rq_Params = raw\<rparr>)"

lemma rpc_code_RPCErr [simp]: "rpc_Code (RPCErr c m) = c"
  and rpc_message_RPCErr [simp]: "rpc_Message (RPCErr c m) = m"
  by (simp_all add: RPCErr_def)

lemma RPCErr_eq [simp]: "RPCErr c m = RPCErr c' m' \<longleftrightarrow> c = c' \<and> m = m'"
  by (auto simp: RPCErr_def)

lemma mutating_iff:
  "IsMutatingMethod m \<longleftrightarrow>
   m \<in> {MethodCommandExec, MethodProcessStart, MethodProcessWrite, MethodProcessTerminate,
        MethodFileWrite, MethodFileMove, MethodFileDelete, MethodDirectoryCreate}"
  by (simp add: IsMutatingMethod_def mutatingMethods_def)

end
