(* ===== verification/RingBuffer.thy ===== *)
theory RingBuffer
  imports Proto
begin

text \<open>
  The bounded output log of a process stream (agent/ringbuffer.go): the operations as the
  code has them, the stream they stand for, and the laws the handlers rely on. \<open>rb_start\<close> is
  the logical offset of the first retained byte. \<open>None\<close> is a run-time panic (a slice or
  \<open>make\<close> with a bad bound).
\<close>

section \<open>The code\<close>

record ring_buffer =
  rb_buf :: bytes
  rb_cap :: int
  rb_start :: int

definition NewRingBuffer :: "int \<Rightarrow> ring_buffer" where
  "NewRingBuffer capBytes = \<lparr>rb_buf = [], rb_cap = capBytes, rb_start = 0\<rparr>"

definition rb_Write :: "ring_buffer \<Rightarrow> bytes \<Rightarrow> (ring_buffer \<times> int) option" where
  "rb_Write r p =
     (let buf = rb_buf r @ p;
          over = i64 (int (length buf) - rb_cap r)
      in if over > 0
         then (case slice_from buf over of
                 None \<Rightarrow> None
               | Some kept \<Rightarrow>
                   Some (r\<lparr>rb_buf := kept, rb_start := i64 (rb_start r + over)\<rparr>, int (length p)))
         else Some (r\<lparr>rb_buf := buf\<rparr>, int (length p)))"

definition rb_Len :: "ring_buffer \<Rightarrow> int" where
  "rb_Len r = i64 (rb_start r + int (length (rb_buf r)))"

definition rb_ReadFrom :: "ring_buffer \<Rightarrow> int \<Rightarrow> int \<Rightarrow> (bytes \<times> int \<times> bool) option" where
  "rb_ReadFrom r offset maxBytes =
     (let truncatedBefore = (offset < rb_start r);
          off = (if truncatedBefore then rb_start r else offset);
          relStart = i64 (off - rb_start r);
          len = int (length (rb_buf r))
      in if relStart \<ge> len then Some ([], off, truncatedBefore)
         else
           let stop = (if maxBytes > 0 \<and> i64 (relStart + maxBytes) < len
                       then i64 (relStart + maxBytes) else len)
           in if stop - relStart < 0 then None
              else (case slice (rb_buf r) relStart stop of
                      None \<Rightarrow> None
                    | Some out \<Rightarrow> Some (out, i64 (rb_start r + stop), truncatedBefore)))"

section \<open>The stream a ring buffer stands for\<close>

text \<open>
  \<open>rb_rep r s\<close>: \<open>s\<close> is every byte written to \<open>r\<close> so far; \<open>r\<close> retains its last \<open>rb_cap r\<close>
  bytes. The two length bounds are what keeps the \<open>int64\<close> offsets from wrapping: a stream
  of fewer than \<open>2 ^ 63\<close> bytes.
\<close>

definition oldest :: "int \<Rightarrow> bytes \<Rightarrow> int" where
  "oldest c s = max 0 (int (length s) - c)"

definition rb_rep :: "ring_buffer \<Rightarrow> bytes \<Rightarrow> bool" where
  "rb_rep r s \<longleftrightarrow>
     0 \<le> rb_cap r \<and> rb_cap r < 2 ^ 63 \<and> int (length s) < 2 ^ 63 \<and>
     rb_start r = oldest (rb_cap r) s \<and> rb_buf r = drop (nat (rb_start r)) s"

lemma oldest_nonneg [simp]: "0 \<le> oldest c s"
  by (simp add: oldest_def)

lemma oldest_le_length: "0 \<le> c \<Longrightarrow> oldest c s \<le> int (length s)"
  by (simp add: oldest_def)

lemma rb_rep_new [refine_rules]: "0 \<le> c \<Longrightarrow> c < 2 ^ 63 \<Longrightarrow> rb_rep (NewRingBuffer c) []"
  by (simp add: rb_rep_def NewRingBuffer_def oldest_def)

lemma rb_rep_length:
  assumes "rb_rep r s"
  shows "int (length (rb_buf r)) = min (rb_cap r) (int (length s))"
    and "rb_start r + int (length (rb_buf r)) = int (length s)"
  using assms by (auto simp: rb_rep_def oldest_def)

lemma rb_rep_Len [refine_rules]: "rb_rep r s \<Longrightarrow> rb_Len r = int (length s)"
  by (simp add: rb_Len_def rb_rep_length(2)) (simp add: rb_rep_def i64_small)

text \<open>A write appends to the stream, evicts what no longer fits, and never panics.\<close>

lemma rb_rep_Write:
  assumes rep: "rb_rep r s" and small: "int (length s) + int (length p) < 2 ^ 63"
  shows "\<exists>r'. rb_Write r p = Some (r', int (length p)) \<and> rb_rep r' (s @ p) \<and> rb_cap r' = rb_cap r"
proof -
  let ?over = "int (length (rb_buf r @ p)) - rb_cap r"
  have cap: "0 \<le> rb_cap r" "rb_cap r < 2 ^ 63" using rep by (auto simp: rb_rep_def)
  have len: "int (length (rb_buf r)) = min (rb_cap r) (int (length s))"
    and tot: "rb_start r + int (length (rb_buf r)) = int (length s)"
    using rb_rep_length [OF rep] by auto
  have start0: "0 \<le> rb_start r" using rep by (simp add: rb_rep_def)
  have over: "i64 ?over = ?over"
    using cap small tot start0 by (intro i64_id) (auto simp: in_i64_def)
  show ?thesis
  proof (cases "?over > 0")
    case True
    have le: "?over \<le> int (length (rb_buf r @ p))" using cap by simp
    have start': "i64 (rb_start r + ?over) = rb_start r + ?over"
      using True start0 cap small tot by (intro i64_small) auto
    have eq: "rb_start r + ?over = oldest (rb_cap r) (s @ p)"
      using tot True cap start0 by (auto simp: oldest_def)
    have buf: "rb_buf r = drop (nat (rb_start r)) s" using rep by (simp add: rb_rep_def)
    have "drop (nat ?over) (rb_buf r @ p) = drop (nat (rb_start r + ?over)) (s @ p)"
    proof -
      have "nat (rb_start r) \<le> length s" using tot start0 by simp
      then have "rb_buf r @ p = drop (nat (rb_start r)) (s @ p)" by (simp add: buf)
      then show ?thesis using True start0 by (simp add: nat_add_distrib add.commute del: drop_append)
    qed
    then show ?thesis
      using True le cap small over start' eq
      by (auto simp: rb_Write_def Let_def rb_rep_def simp del: drop_append)
  next
    case False
    have "rb_start r = oldest (rb_cap r) (s @ p) \<and> rb_buf r @ p = drop (nat (rb_start r)) (s @ p)"
    proof (cases "p = []")
      case True
      then show ?thesis using rep by (simp add: rb_rep_def)
    next
      case p: False
      then have "int (length s) + int (length p) \<le> rb_cap r"
        using False len by (auto simp: min_def split: if_splits)
      then show ?thesis using rep by (auto simp: rb_rep_def oldest_def)
    qed
    then show ?thesis
      using False cap small over by (auto simp: rb_Write_def Let_def rb_rep_def simp del: drop_append)
  qed
qed

lemma rb_WriteD [refine_rules]:
  "rb_rep r s \<Longrightarrow> int (length s) + int (length p) < 2 ^ 63 \<Longrightarrow> rb_Write r p = Some (r', n) \<Longrightarrow>
   rb_rep r' (s @ p) \<and> rb_cap r' = rb_cap r \<and> n = int (length p)"
  using rb_rep_Write by fastforce

text \<open>A read returns the part of the stream it was asked for, as far as it is still there.\<close>

lemma rb_rep_ReadFrom:
  assumes rep: "rb_rep r s" and off: "offset < 2 ^ 63"
    and max: "in_i64 maxBytes" "int (length s) + maxBytes < 2 ^ 63"
  shows "rb_ReadFrom r offset maxBytes =
    (let frm = max offset (oldest (rb_cap r) s);
         rest = drop (nat frm) s;
         out = (if maxBytes > 0 then take (nat maxBytes) rest else rest)
     in Some (out, frm + int (length out), offset < oldest (rb_cap r) s))"
proof -
  define frm where "frm = max offset (oldest (rb_cap r) s)"
  have start: "rb_start r = oldest (rb_cap r) s" and start0: "0 \<le> rb_start r"
    and buf: "rb_buf r = drop (nat (rb_start r)) s" and slen: "int (length s) < 2 ^ 63"
    using rep by (auto simp: rb_rep_def)
  have tot: "rb_start r + int (length (rb_buf r)) = int (length s)"
    using rb_rep_length [OF rep] by simp
  have f: "(if offset < rb_start r then rb_start r else offset) = frm"
    by (simp add: frm_def start)
  have frm_ge: "rb_start r \<le> frm" by (simp add: frm_def start)
  have rel: "i64 (frm - rb_start r) = frm - rb_start r"
  proof (rule i64_small)
    have "frm < 2 ^ 63" using off tot slen by (simp add: frm_def start [symmetric])
    then show "frm - rb_start r < 2 ^ 63" using start0 by linarith
  qed (use frm_ge in simp)
  show ?thesis
  proof (cases "frm - rb_start r \<ge> int (length (rb_buf r))")
    case True
    then have "int (length s) \<le> frm" using tot by simp
    then have "drop (nat frm) s = []" by simp
    moreover have "rb_ReadFrom r offset maxBytes = Some ([], frm, offset < rb_start r)"
      unfolding rb_ReadFrom_def Let_def f rel using True by simp
    ultimately show ?thesis by (simp add: frm_def start)
  next
    case False
    have lt: "frm < int (length s)" using False tot by simp
    let ?rel = "frm - rb_start r"
    have sum: "maxBytes > 0 \<Longrightarrow> i64 (?rel + maxBytes) = ?rel + maxBytes"
      using frm_ge lt start0 max by (intro i64_small) auto
    define stop where "stop = (if maxBytes > 0 \<and> ?rel + maxBytes < int (length (rb_buf r))
                        then ?rel + maxBytes else int (length (rb_buf r)))"
    have stop: "(if maxBytes > 0 \<and> i64 (?rel + maxBytes) < int (length (rb_buf r))
                 then i64 (?rel + maxBytes) else int (length (rb_buf r))) = stop"
      using sum by (auto simp: stop_def)
    have b: "0 \<le> ?rel" "?rel \<le> stop" "stop \<le> int (length (rb_buf r))"
      using frm_ge False by (auto simp: stop_def)
    have d: "drop (nat ?rel) (rb_buf r) = drop (nat frm) s"
      using frm_ge start0 by (simp add: buf nat_add_distrib [symmetric])
    have n: "i64 (rb_start r + stop) = rb_start r + stop"
      using b start0 tot slen by (intro i64_small) auto
    have out: "take (nat (stop - ?rel)) (drop (nat frm) s) =
        (if maxBytes > 0 then take (nat maxBytes) (drop (nat frm) s) else drop (nat frm) s)"
      (is "?l = ?r")
    proof (cases "maxBytes > 0 \<and> ?rel + maxBytes < int (length (rb_buf r))")
      case True
      then show ?thesis by (simp add: stop_def)
    next
      case c: False
      then have "stop - ?rel = int (length s) - frm" using tot by (auto simp: stop_def)
      then show ?thesis using c tot lt by auto
    qed
    have len: "rb_start r + stop = frm + int (length ?r)"
    proof -
      have "int (length ?l) = stop - ?rel"
        using b frm_ge start0 tot lt by (simp add: min_def) linarith
      then show ?thesis using out by simp
    qed
    have "rb_ReadFrom r offset maxBytes =
        Some (take (nat (stop - ?rel)) (drop (nat ?rel) (rb_buf r)), i64 (rb_start r + stop),
              offset < rb_start r)"
      unfolding rb_ReadFrom_def Let_def f rel stop using False b by simp
    also have "\<dots> = Some (?r, frm + int (length ?r), offset < oldest (rb_cap r) s)"
      unfolding d n len [symmetric] out start [symmetric] by simp
    finally show ?thesis unfolding Let_def frm_def .
  qed
qed

section \<open>Panics\<close>

text \<open>
  The two ways the code panics: a write that leaves more than the whole buffer to evict (only
  a negative capacity does that, however little is written), and a read whose \<open>relStart + maxBytes\<close>
  wraps below zero.
\<close>

lemma rb_Write_panics_iff:
  assumes "in_i64 (int (length (rb_buf r @ p)) - rb_cap r)"
  shows "rb_Write r p = None \<longleftrightarrow> rb_cap r < 0"
  using assms
  by (auto simp: rb_Write_def Let_def slice_from_def simp del: length_append split: option.splits)

lemma rb_ReadFrom_overflow_panics:
  "rb_ReadFrom \<lparr>rb_buf = ''abc'', rb_cap = 10, rb_start = 0\<rparr> 1 (2 ^ 63 - 1) = None"
  by (simp add: rb_ReadFrom_def Let_def i64_def)

section \<open>The contract of an output log\<close>

text \<open>
  A session of one writer (the goroutine that copies a pipe) and one reader that polls with
  the offset the previous read returned, as a caller of process.read does. \<open>lost\<close> records
  whether some read reported that its offset was already dropped.
\<close>

datatype log_action = LWrite bytes | LRead int

fun written :: "log_action list \<Rightarrow> bytes" where
  "written [] = []"
| "written (LWrite p # acts) = p @ written acts"
| "written (LRead n # acts) = written acts"

fun log_session ::
    "('r \<Rightarrow> bytes \<Rightarrow> ('r \<times> int) option) \<Rightarrow> ('r \<Rightarrow> int \<Rightarrow> int \<Rightarrow> (bytes \<times> int \<times> bool) option) \<Rightarrow>
     log_action list \<Rightarrow> 'r \<Rightarrow> int \<Rightarrow> bytes \<Rightarrow> bool \<Rightarrow> ('r \<times> int \<times> bytes \<times> bool) option" where
  "log_session wr rd [] r off got lost = Some (r, off, got, lost)"
| "log_session wr rd (LWrite p # acts) r off got lost =
     (case wr r p of
        None \<Rightarrow> None
      | Some (r', n) \<Rightarrow> log_session wr rd acts r' off got lost)"
| "log_session wr rd (LRead n # acts) r off got lost =
     (case rd r off n of
        None \<Rightarrow> None
      | Some (out, next_off, tr) \<Rightarrow> log_session wr rd acts r next_off (got @ out) (lost \<or> tr))"

definition reads_bounded :: "int \<Rightarrow> log_action list \<Rightarrow> bool" where
  "reads_bounded bound acts \<longleftrightarrow> (\<forall>n. LRead n \<in> set acts \<longrightarrow> 0 < n \<and> n < bound)"

lemma reads_bounded_Cons [simp]:
  "reads_bounded b (a # acts) \<longleftrightarrow>
   (case a of LRead n \<Rightarrow> 0 < n \<and> n < b | LWrite p \<Rightarrow> True) \<and> reads_bounded b acts"
  by (auto simp: reads_bounded_def split: log_action.splits)

lemma reads_bounded_Nil [simp]: "reads_bounded b []"
  by (simp add: reads_bounded_def)

locale output_log =
  fixes mk :: "int \<Rightarrow> 'r"
    and wr :: "'r \<Rightarrow> bytes \<Rightarrow> ('r \<times> int) option"
    and len :: "'r \<Rightarrow> int"
    and rd :: "'r \<Rightarrow> int \<Rightarrow> int \<Rightarrow> (bytes \<times> int \<times> bool) option"
    and capacity :: "'r \<Rightarrow> int"
    and rep :: "'r \<Rightarrow> bytes \<Rightarrow> bool"
  assumes rep_mk: "0 \<le> c \<Longrightarrow> c < 2 ^ 63 \<Longrightarrow> rep (mk c) []"
    and capacity_mk: "capacity (mk c) = c"
    and rep_len: "rep r s \<Longrightarrow> len r = int (length s)"
    and capacity_nonneg: "rep r s \<Longrightarrow> 0 \<le> capacity r"
    and rep_wr: "rep r s \<Longrightarrow> int (length s) + int (length p) < 2 ^ 63 \<Longrightarrow>
      \<exists>r'. wr r p = Some (r', int (length p)) \<and> rep r' (s @ p) \<and> capacity r' = capacity r"
    and rep_rd: "rep r s \<Longrightarrow> off < 2 ^ 63 \<Longrightarrow> 0 < n \<Longrightarrow> int (length s) + n < 2 ^ 63 \<Longrightarrow>
      rd r off n =
        (let frm = max off (oldest (capacity r) s); out = take (nat n) (drop (nat frm) s)
         in Some (out, frm + int (length out), off < oldest (capacity r) s))"
begin

text \<open>A one-shot read from offset 0, as command.exec makes it.\<close>

lemma read_from_start:
  assumes rep: "rep r s" and n: "0 < n" "int (length s) + n < 2 ^ 63"
  shows "rd r 0 n =
    (let o1 = oldest (capacity r) s; out = take (nat n) (drop (nat o1) s)
     in Some (out, o1 + int (length out), 0 < o1))"
  using rep_rd [OF rep, of 0 n] n by (simp add: max_def Let_def)

text \<open>The \<open>next < Len()\<close> test of the handlers detects exactly the output cut off at the limit.\<close>

lemma cut_off_iff:
  assumes rep: "rep r s" and n: "0 < n" "int (length s) + n < 2 ^ 63"
    and rd: "rd r 0 n = Some (out, next_off, tr)"
  shows "next_off < len r \<longleftrightarrow> n < int (length s) - oldest (capacity r) s"
proof -
  let ?o = "oldest (capacity r) s"
  have le: "?o \<le> int (length s)"
    using oldest_le_length capacity_nonneg [OF rep] .
  have "next_off = ?o + int (min (length s - nat ?o) (nat n))"
    using rd read_from_start [OF rep n] by (auto simp: Let_def min.commute)
  moreover have "0 \<le> ?o" by (rule oldest_nonneg)
  ultimately show ?thesis using rep_len [OF rep] le n by linarith
qed

text \<open>
  Polling is gap free: unless some read said so, what the reader collected is exactly the
  first bytes of everything written, and its offset is how many they are.
\<close>

lemma log_session_prefix:
  assumes "rep r s" and "int (length s) + int (length (written acts)) + b < 2 ^ 63"
    and "reads_bounded b acts" and "0 \<le> b" and "0 \<le> off" and "off \<le> int (length s)"
    and "\<not> lost \<Longrightarrow> got = take (nat off) s"
  shows "\<exists>r' off' got' lost'.
    log_session wr rd acts r off got lost = Some (r', off', got', lost') \<and>
    rep r' (s @ written acts) \<and> 0 \<le> off' \<and> off' \<le> int (length (s @ written acts)) \<and>
    (\<not> lost' \<longrightarrow> got' = take (nat off') (s @ written acts))"
  using assms
proof (induction acts arbitrary: r s off got lost)
  case Nil
  then show ?case by auto
next
  case (Cons a acts)
  show ?case
  proof (cases a)
    case (LWrite p)
    obtain r' where r': "wr r p = Some (r', int (length p))" "rep r' (s @ p)"
      using rep_wr [OF Cons.prems(1), of p] Cons.prems(2) Cons.prems(4) LWrite by auto
    have "\<not> lost \<Longrightarrow> got = take (nat off) (s @ p)"
      using Cons.prems(5,6,7) by simp
    then show ?thesis
      using Cons.IH [OF r'(2), of off lost got] Cons.prems LWrite r'(1) by (simp add: algebra_simps)
  next
    case (LRead n)
    let ?o = "oldest (capacity r) s"
    define frm where "frm = max off ?o"
    define out where "out = take (nat n) (drop (nat frm) s)"
    have n: "0 < n" "int (length s) + n < 2 ^ 63" using Cons.prems(2,3) LRead by auto
    have rd: "rd r off n = Some (out, frm + int (length out), off < ?o)"
      using rep_rd [OF Cons.prems(1) _ n] Cons.prems(2,4,6) by (simp add: frm_def out_def Let_def)
    have o: "0 \<le> ?o" "?o \<le> int (length s)"
      using oldest_le_length capacity_nonneg [OF Cons.prems(1)] by auto
    have bnd: "0 \<le> frm + int (length out)" "frm + int (length out) \<le> int (length s)"
      using Cons.prems(5,6) o by (auto simp: frm_def out_def)
    have "got @ out = take (nat (frm + int (length out))) s" if "\<not> (lost \<or> off < ?o)"
    proof -
      have "frm = off" using that by (simp add: frm_def)
      then show ?thesis
        using that Cons.prems(5,7) by (simp add: out_def nat_add_distrib take_add min_def)
    qed
    then show ?thesis
      using Cons.IH [OF Cons.prems(1) _ _ Cons.prems(4) bnd, of "lost \<or> off < ?o" "got @ out"]
        Cons.prems(2,3) LRead rd by simp
  qed
qed

end

interpretation ring: output_log NewRingBuffer rb_Write rb_Len rb_ReadFrom rb_cap rb_rep
proof unfold_locales
  fix r :: ring_buffer and s :: bytes and off n :: int
  assume "rb_rep r s" and "off < 2 ^ 63" and "0 < n" and "int (length s) + n < 2 ^ 63"
  then show "rb_ReadFrom r off n =
      (let frm = max off (oldest (rb_cap r) s); out = take (nat n) (drop (nat frm) s)
       in Some (out, frm + int (length out), off < oldest (rb_cap r) s))"
    by (subst rb_rep_ReadFrom) (auto simp: in_i64_def Let_def)
next
  show "rb_cap (NewRingBuffer c) = c" for c by (simp add: NewRingBuffer_def)
  show "0 \<le> rb_cap r" if "rb_rep r s" for r s using that by (simp add: rb_rep_def)
qed (auto intro: rb_rep_new rb_rep_Len rb_rep_Write)

section \<open>Properties\<close>

fun rb_write_all :: "ring_buffer \<Rightarrow> bytes list \<Rightarrow> ring_buffer option" where
  "rb_write_all r [] = Some r"
| "rb_write_all r (p # ps) =
     (case rb_Write r p of None \<Rightarrow> None | Some (r', n) \<Rightarrow> rb_write_all r' ps)"

lemma rb_write_all_rep:
  "rb_rep r s \<Longrightarrow> int (length s) + int (length (concat ps)) < 2 ^ 63 \<Longrightarrow>
   \<exists>r'. rb_write_all r ps = Some r' \<and> rb_rep r' (s @ concat ps) \<and> rb_cap r' = rb_cap r"
proof (induction ps arbitrary: r s)
  case Nil
  then show ?case by simp
next
  case (Cons p ps)
  then obtain r1 where r1: "rb_Write r p = Some (r1, int (length p))" "rb_rep r1 (s @ p)" "rb_cap r1 = rb_cap r"
    using rb_rep_Write [of r s p] by auto
  show ?case using Cons.IH [OF r1(2)] Cons.prems(2) r1 by (simp add: algebra_simps)
qed

text \<open>
  C2. A ring buffer is exactly the tail of its stream: after any sequence of writes, none of which
  panics, \<open>Len\<close> is the number of bytes ever written, at most the capacity is held, and a read from
  any offset, with any positive limit up to the protocol's maximum, returns the stream's bytes
  from the later of that offset and the oldest retained one, as many as the limit allows,
  with the offset that follows them, and reports truncation exactly when the offset asked for
  lies before the oldest retained byte.
\<close>

theorem ring_reads_the_stream:
  assumes "0 \<le> c" and "c < 2 ^ 63" and "int (length (concat ps)) < 2 ^ 62"
    and "offset < 2 ^ 63" and "0 < n" and "n \<le> MaxCommandOutputBytes"
  shows "\<exists>r. rb_write_all (NewRingBuffer c) ps = Some r \<and>
    rb_Len r = int (length (concat ps)) \<and> int (length (rb_buf r)) \<le> c \<and>
    rb_ReadFrom r offset n =
      (let oldest_kept = max 0 (int (length (concat ps)) - c);
           first = max offset oldest_kept;
           out = take (nat n) (drop (nat first) (concat ps))
       in Some (out, first + int (length out), offset < oldest_kept))"
proof -
  obtain r where r: "rb_write_all (NewRingBuffer c) ps = Some r" "rb_rep r (concat ps)" "rb_cap r = c"
    using rb_write_all_rep [OF rb_rep_new [OF assms(1,2)], of ps] assms(3) by (auto simp: NewRingBuffer_def)
  have n: "int (length (concat ps)) + n < 2 ^ 63"
    using assms(3,6) by (simp add: MaxCommandOutputBytes_def)
  have "rb_ReadFrom r offset n =
      (let frm = max offset (oldest c (concat ps)); out = take (nat n) (drop (nat frm) (concat ps))
       in Some (out, frm + int (length out), offset < oldest c (concat ps)))"
    using ring.rep_rd [OF r(2) assms(4,5) n] by (simp add: r(3))
  moreover have "rb_Len r = int (length (concat ps))" by (rule ring.rep_len [OF r(2)])
  moreover have "int (length (rb_buf r)) \<le> c" using rb_rep_length(1) [OF r(2)] by (simp add: r(3))
  ultimately show ?thesis using r(1) by (simp add: oldest_def Let_def)
qed

theorem ring_reads_the_stream_witness:
  "\<exists>r. rb_write_all (NewRingBuffer 4) [''abc'', ''de''] = Some r \<and>
     rb_ReadFrom r 0 2 = Some (''bc'', 3, True)"
  using ring_reads_the_stream [of 4 "[''abc'', ''de'']" 0 2]
  by (simp add: MaxCommandOutputBytes_def Let_def numeral_2_eq_2 del: rb_write_all.simps) blast

text \<open>
  C7. Polling never misses a byte silently: however the writes of a process and the polls of a
  reader interleave, each poll starting at the offset the previous one returned, no operation
  panics, and unless some poll reported that its offset was already dropped, what the reader
  has collected is exactly the first bytes of everything written, and its offset counts them.
\<close>

theorem polling_is_gap_free:
  assumes "0 \<le> c" and "c < 2 ^ 63" and "int (length (written acts)) + MaxCommandOutputBytes + 1 < 2 ^ 63"
    and "\<forall>n. LRead n \<in> set acts \<longrightarrow> 0 < n \<and> n \<le> MaxCommandOutputBytes"
  shows "\<exists>r off got lost. log_session rb_Write rb_ReadFrom acts (NewRingBuffer c) 0 [] False =
      Some (r, off, got, lost) \<and> rb_Len r = int (length (written acts)) \<and>
    0 \<le> off \<and> off \<le> int (length (written acts)) \<and>
    (\<not> lost \<longrightarrow> got = take (nat off) (written acts))"
proof -
  have "reads_bounded (MaxCommandOutputBytes + 1) acts"
    using assms(4) by (auto simp: reads_bounded_def)
  from ring.log_session_prefix [OF rb_rep_new [OF assms(1,2)] _ this, of 0 False "[]"] assms(3)
  obtain r off got lost where
    "log_session rb_Write rb_ReadFrom acts (NewRingBuffer c) 0 [] False = Some (r, off, got, lost)"
    "rb_rep r (written acts)" "0 \<le> off" "off \<le> int (length (written acts))"
    "\<not> lost \<longrightarrow> got = take (nat off) (written acts)"
    by (auto simp: MaxCommandOutputBytes_def)
  then show ?thesis using ring.rep_len by blast
qed

theorem polling_is_gap_free_witness:
  "\<exists>r off got lost. log_session rb_Write rb_ReadFrom
       [LWrite ''hel'', LRead 2, LWrite ''lo'', LRead 9] (NewRingBuffer 4) 0 [] False =
     Some (r, off, got, lost) \<and> rb_Len r = 5 \<and> (\<not> lost \<longrightarrow> got = take (nat off) ''hello'')"
  using polling_is_gap_free [of 4 "[LWrite ''hel'', LRead 2, LWrite ''lo'', LRead 9]"]
  by (auto simp: MaxCommandOutputBytes_def)

end
