(* ===== verification/Clock.thy ===== *)
theory Clock
  imports Prelude "HOL-Library.Monad_Syntax"
begin

text \<open>
  What the program uses of package time: a UTC calendar time, the two layouts it formats with
  (\<open>historyTimeLayout\<close> of agent/history.go and \<open>time.RFC3339\<close>), the parser of the stored
  timestamps, and the fact the history queries rest on: the fixed-width layout orders
  strings as the clock orders times. Numeric zone offsets are not modelled (every stored
  value is formatted in UTC, with the designator \<open>Z\<close>).
\<close>

section \<open>Calendar times\<close>

record utc =
  u_year :: int
  u_month :: nat
  u_day :: nat
  u_hour :: nat
  u_minute :: nat
  u_second :: nat
  u_nano :: nat

text \<open>A \<open>time.Time\<close>: the wall clock it formats with and the monotonic reading \<open>Sub\<close> uses.\<close>

record go_time =
  t_wall :: utc
  t_mono :: int

definition zero_time :: go_time where
  "zero_time =
     \<lparr>t_wall = \<lparr>u_year = 1, u_month = 1, u_day = 1, u_hour = 0, u_minute = 0, u_second = 0, u_nano = 0\<rparr>,
      t_mono = 0\<rparr>"

definition IsZero :: "go_time \<Rightarrow> bool" where
  "IsZero t \<longleftrightarrow> t_wall t = t_wall zero_time"

text \<open>\<open>t.Sub(u)\<close> saturates at the bounds of \<open>Duration\<close>.\<close>

definition time_Sub :: "go_time \<Rightarrow> go_time \<Rightarrow> int" where
  "time_Sub t u = max (- (2 ^ 63)) (min (2 ^ 63 - 1) (t_mono t - t_mono u))"

definition is_leap :: "int \<Rightarrow> bool" where
  "is_leap y \<longleftrightarrow> y mod 4 = 0 \<and> (y mod 100 \<noteq> 0 \<or> y mod 400 = 0)"

definition days_in :: "int \<Rightarrow> nat \<Rightarrow> nat" where
  "days_in y m = (if m = 2 then (if is_leap y then 29 else 28)
                  else if m \<in> {4, 6, 9, 11} then 30 else 31)"

definition valid_utc :: "utc \<Rightarrow> bool" where
  "valid_utc t \<longleftrightarrow>
     1 \<le> u_month t \<and> u_month t \<le> 12 \<and> 1 \<le> u_day t \<and> u_day t \<le> days_in (u_year t) (u_month t) \<and>
     u_hour t < 24 \<and> u_minute t < 60 \<and> u_second t < 60 \<and> u_nano t < 10 ^ 9"

text \<open>The years the layout prints with four digits.\<close>

definition four_digit_year :: "utc \<Rightarrow> bool" where
  "four_digit_year t \<longleftrightarrow> 0 \<le> u_year t \<and> u_year t \<le> 9999"

text \<open>Chronological order: the calendar fields, most significant first.\<close>

definition utc_before :: "utc \<Rightarrow> utc \<Rightarrow> bool" where
  "utc_before a b \<longleftrightarrow>
     u_year a < u_year b \<or> u_year a = u_year b \<and>
     [u_month a, u_day a, u_hour a, u_minute a, u_second a, u_nano a]
     < [u_month b, u_day b, u_hour b, u_minute b, u_second b, u_nano b]"

section \<open>Fixed-width decimals\<close>

text \<open>\<open>appendInt\<close> of package time: zero-padded to a width, wider values printed in full.\<close>

definition pad :: "nat \<Rightarrow> nat \<Rightarrow> string" where
  "pad w n = replicate (w - length (dec_digits n)) CHR ''0'' @ dec_digits n"

definition append_int :: "int \<Rightarrow> nat \<Rightarrow> string" where
  "append_int x w = (if x < 0 then ''-'' @ pad w (nat (- x)) else pad w (nat x))"

fun padr :: "nat \<Rightarrow> nat \<Rightarrow> string" where
  "padr 0 n = []"
| "padr (Suc w) n = padr w (n div 10) @ [digit_char (n mod 10)]"

lemma digit_char_0 [simp]: "digit_char 0 = CHR ''0''"
  unfolding digit_char_def by code_simp

lemma padr_0: "padr w 0 = replicate w CHR ''0''"
  by (induction w) (simp_all add: replicate_append_same)

lemma pad_eq_padr: "n < 10 ^ w \<Longrightarrow> 0 < w \<Longrightarrow> pad w n = padr w n"
proof (induction w arbitrary: n)
  case 0
  then show ?case by simp
next
  case (Suc w)
  show ?case
  proof (cases "n < 10")
    case True
    then show ?thesis by (simp add: pad_def dec_digits.simps [of n] padr_0)
  next
    case False
    then have "0 < w" using Suc.prems by (cases w) auto
    moreover have "n div 10 < 10 ^ w" using Suc.prems by (simp add: less_mult_imp_div_less)
    ultimately have "pad w (n div 10) = padr w (n div 10)" using Suc.IH by blast
    moreover have "dec_digits n = dec_digits (n div 10) @ [digit_char (n mod 10)]"
      using False by (subst dec_digits.simps) simp
    ultimately show ?thesis by (simp add: pad_def)
  qed
qed

lemma length_padr [simp]: "length (padr w n) = w"
  by (induction w arbitrary: n) auto

lemma dec_val_padr: "n < 10 ^ w \<Longrightarrow> dec_val (padr w n) = n"
proof (induction w arbitrary: n)
  case 0
  then show ?case by (simp add: dec_val_def)
next
  case (Suc w)
  then have "n div 10 < 10 ^ w" by (simp add: less_mult_imp_div_less)
  with Suc.IH show ?case by simp
qed

lemma padr_digits: "c \<in> set (padr w n) \<Longrightarrow> is_digit c"
  by (induction w arbitrary: n) auto

lemma digit_char_less: "a < 10 \<Longrightarrow> b < 10 \<Longrightarrow> digit_char a < digit_char b \<longleftrightarrow> a < b"
  by (simp add: less_char_def)

lemma append_less_append:
  fixes xs ys us vs :: "'a::linorder list"
  shows "length xs = length ys \<Longrightarrow> xs @ us < ys @ vs \<longleftrightarrow> xs < ys \<or> xs = ys \<and> us < vs"
  by (induction xs ys rule: list_induct2) auto

lemma padr_eq: "a < 10 ^ w \<Longrightarrow> b < 10 ^ w \<Longrightarrow> padr w a = padr w b \<longleftrightarrow> a = b"
  by (metis dec_val_padr)

lemma less_div_mod_iff:
  "(a :: nat) < b \<longleftrightarrow> a div 10 < b div 10 \<or> a div 10 = b div 10 \<and> a mod 10 < b mod 10"
proof -
  have "a = 10 * (a div 10) + a mod 10" "b = 10 * (b div 10) + b mod 10"
    "a mod 10 < 10" "b mod 10 < 10" by simp_all
  then show ?thesis by linarith
qed

lemma padr_less: "a < 10 ^ w \<Longrightarrow> b < 10 ^ w \<Longrightarrow> padr w a < padr w b \<longleftrightarrow> a < b"
proof (induction w arbitrary: a b)
  case 0
  then show ?case by simp
next
  case (Suc w)
  have d: "a div 10 < 10 ^ w" "b div 10 < 10 ^ w"
    using Suc.prems by (simp_all add: less_mult_imp_div_less)
  have "a < b \<longleftrightarrow> a div 10 < b div 10 \<or> a div 10 = b div 10 \<and> a mod 10 < b mod 10"
    by (rule less_div_mod_iff)
  then show ?case
    using Suc.IH [OF d] padr_eq [OF d]
    by (simp add: append_less_append digit_char_less)
qed

section \<open>The layouts\<close>

definition fmt_date_time :: "utc \<Rightarrow> string" where
  "fmt_date_time t =
     append_int (u_year t) 4 @ ''-'' @ pad 2 (u_month t) @ ''-'' @ pad 2 (u_day t) @ ''T'' @
     pad 2 (u_hour t) @ '':'' @ pad 2 (u_minute t) @ '':'' @ pad 2 (u_second t)"

definition fmt_history :: "utc \<Rightarrow> string" where
  "fmt_history t = fmt_date_time t @ ''.'' @ pad 9 (u_nano t) @ ''Z''"

definition fmt_rfc3339 :: "utc \<Rightarrow> string" where
  "fmt_rfc3339 t = fmt_date_time t @ ''Z''"

definition history_key :: "utc \<Rightarrow> string" where
  "history_key t =
     padr 4 (nat (u_year t)) @ ''-'' @ padr 2 (u_month t) @ ''-'' @ padr 2 (u_day t) @ ''T'' @
     padr 2 (u_hour t) @ '':'' @ padr 2 (u_minute t) @ '':'' @ padr 2 (u_second t) @ ''.'' @
     padr 9 (u_nano t) @ ''Z''"

lemma days_in_le: "days_in y m \<le> 31"
  by (simp add: days_in_def)

lemma valid_bounds:
  assumes "valid_utc t"
  shows "u_month t < 10 ^ 2" "u_day t < 10 ^ 2" "u_hour t < 10 ^ 2" "u_minute t < 10 ^ 2"
    "u_second t < 10 ^ 2" "u_nano t < 10 ^ 9"
  using assms days_in_le [of "u_year t" "u_month t"] by (auto simp: valid_utc_def)

lemma year_bound: "four_digit_year t \<Longrightarrow> nat (u_year t) < 10 ^ 4"
  by (simp add: four_digit_year_def nat_less_iff)

lemma fmt_history_eq: "valid_utc t \<Longrightarrow> four_digit_year t \<Longrightarrow> fmt_history t = history_key t"
  using valid_bounds [of t] year_bound [of t]
  by (simp add: fmt_history_def fmt_date_time_def history_key_def append_int_def pad_eq_padr
      four_digit_year_def del: power_numeral)

lemma padr_step_less:
  "a < 10 ^ w \<Longrightarrow> b < 10 ^ w \<Longrightarrow>
   padr w a @ us < padr w b @ vs \<longleftrightarrow> a < b \<or> a = b \<and> us < vs"
  by (simp add: append_less_append padr_less padr_eq)

lemma history_key_less:
  assumes "valid_utc a" "valid_utc b" "four_digit_year a" "four_digit_year b"
  shows "history_key a < history_key b \<longleftrightarrow> utc_before a b"
proof -
  have y: "nat (u_year a) < nat (u_year b) \<longleftrightarrow> u_year a < u_year b"
    "nat (u_year a) = nat (u_year b) \<longleftrightarrow> u_year a = u_year b"
    using assms by (auto simp: four_digit_year_def)
  show ?thesis
    using valid_bounds [OF assms(1)] valid_bounds [OF assms(2)]
      year_bound [OF assms(3)] year_bound [OF assms(4)]
    unfolding history_key_def utc_before_def
    by (simp add: padr_step_less y del: power_numeral padr.simps zless_nat_conj)
qed

lemma fmt_history_less:
  "valid_utc a \<Longrightarrow> valid_utc b \<Longrightarrow> four_digit_year a \<Longrightarrow> four_digit_year b \<Longrightarrow>
   fmt_history a < fmt_history b \<longleftrightarrow> utc_before a b"
  by (simp add: fmt_history_eq history_key_less)

section \<open>Parsing stored timestamps\<close>

definition take_num :: "nat \<Rightarrow> string \<Rightarrow> (nat \<times> string) option" where
  "take_num w s =
     (if w \<le> length s \<and> list_all is_digit (take w s) then Some (dec_val (take w s), drop w s) else None)"

definition expect :: "char \<Rightarrow> string \<Rightarrow> string option" where
  "expect c s = (case s of [] \<Rightarrow> None | x # xs \<Rightarrow> if x = c then Some xs else None)"

text \<open>A fraction is optional; digits beyond the ninth are dropped.\<close>

definition take_fraction :: "string \<Rightarrow> nat \<times> string" where
  "take_fraction s =
     (case s of
        x # y # rest \<Rightarrow>
          if x = CHR ''.'' \<and> is_digit y
          then (let ds = takeWhile is_digit (y # rest)
                in (dec_val (take 9 ds) * 10 ^ (9 - length (take 9 ds)), dropWhile is_digit (y # rest)))
          else (0, s)
      | _ \<Rightarrow> (0, s))"

definition parse_rfc3339 :: "string \<Rightarrow> utc option" where
  "parse_rfc3339 s0 = do {
     (y, s) \<leftarrow> take_num 4 s0; s \<leftarrow> expect CHR ''-'' s;
     (mo, s) \<leftarrow> take_num 2 s; s \<leftarrow> expect CHR ''-'' s;
     (d, s) \<leftarrow> take_num 2 s; s \<leftarrow> expect CHR ''T'' s;
     (h, s) \<leftarrow> take_num 2 s; s \<leftarrow> expect CHR '':'' s;
     (mi, s) \<leftarrow> take_num 2 s; s \<leftarrow> expect CHR '':'' s;
     (sec, s) \<leftarrow> take_num 2 s;
     let (ns, s) = take_fraction s;
     let t = \<lparr>u_year = int y, u_month = mo, u_day = d, u_hour = h, u_minute = mi, u_second = sec, u_nano = ns\<rparr>;
     if s = ''Z'' \<and> valid_utc t then Some t else None
   }"

lemma take_num_padr [simp]: "n < 10 ^ w \<Longrightarrow> take_num w (padr w n @ rest) = Some (n, rest)"
  by (auto simp: take_num_def dec_val_padr list_all_iff intro: padr_digits)

lemma expect_Cons [simp]: "expect c (c # s) = Some s"
  by (simp add: expect_def)

lemma take_fraction_padr:
  assumes "n < 10 ^ 9"
  shows "take_fraction (CHR ''.'' # padr 9 n @ ''Z'') = (n, ''Z'')"
proof -
  obtain d ds where p: "padr 9 n = d # ds" by (metis length_padr list.exhaust list.size(3) zero_neq_numeral)
  have dig: "\<forall>c \<in> set (d # ds). is_digit c" using padr_digits [of _ 9 n] by (simp add: p)
  have len: "length (d # ds) = 9" by (metis length_padr p)
  have "\<not> is_digit CHR ''Z''" by (simp add: is_digit_def)
  then have "takeWhile is_digit (d # ds @ ''Z'') = d # ds" "dropWhile is_digit (d # ds @ ''Z'') = ''Z''"
    using dig by (auto simp: takeWhile_append dropWhile_append)
  then show ?thesis
    using dig len assms dec_val_padr [of n 9] by (simp add: take_fraction_def p)
qed

lemma parse_history:
  assumes "valid_utc t" "four_digit_year t"
  shows "parse_rfc3339 (fmt_history t) = Some t"
  using assms valid_bounds [OF assms(1)] year_bound [OF assms(2)] take_fraction_padr [of "u_nano t"]
  by (simp add: fmt_history_eq history_key_def parse_rfc3339_def four_digit_year_def Let_def
      valid_utc_def del: power_numeral)

end
