(* ===== verification/History.thy ===== *)
theory History
  imports Clock
begin

text \<open>
  The execution history (agent/history.go). The SQLite driver is not code of this repository:
  it is the parameter \<open>sql_engine\<close>, one function per statement the file issues, over an
  opaque database \<open>'db\<close>. What the code relies on, that the statements have their SQL meaning,
  is the predicate \<open>sqlite_table\<close>; \<open>mem_engine\<close> is a concrete engine that satisfies it and
  can report SQLITE_BUSY. Opening the file, the schema and the connection pragmas are not
  modelled.
\<close>

unbundle bit_operations_syntax

section \<open>Rows and executions\<close>

record execution_start =
  es_ExecutionID :: string
  es_ProcessID :: string
  es_DeviceID :: string
  es_Mode :: string
  es_Command :: string
  es_Cwd :: string
  es_StartedAt :: utc
  es_ClientContextID :: string
  es_ClientSubject :: string

record execution =
  ex_ExecutionID :: string
  ex_ProcessID :: string
  ex_DeviceID :: string
  ex_Mode :: string
  ex_Command :: string
  ex_Cwd :: string
  ex_StartedAt :: utc
  ex_EndedAt :: "utc option"
  ex_ExitCode :: "int option"
  ex_ClientContextID :: string
  ex_ClientSubject :: string

text \<open>One row of the table; \<open>None\<close> is NULL.\<close>

record row =
  r_execution_id :: string
  r_process_id :: string
  r_device_id :: string
  r_mode :: string
  r_command :: string
  r_cwd :: string
  r_started_at :: string
  r_ended_at :: "string option"
  r_exit_code :: "int option"
  r_client_context_id :: "string option"
  r_client_subject :: "string option"

text \<open>An error of the driver, with its result code when it carries one.\<close>

datatype sql_error = ErrNoRows | SqlCode int | SqlOther string

datatype history_error = HSql sql_error | HParse string

record 'db sql_engine =
  sq_insert :: "'db \<Rightarrow> row \<Rightarrow> sql_error option \<times> 'db"
  sq_update_end :: "'db \<Rightarrow> string \<Rightarrow> int option \<Rightarrow> string \<Rightarrow> sql_error option \<times> 'db"
  sq_select :: "'db \<Rightarrow> string \<Rightarrow> sql_error + row"
  sq_select_recent :: "'db \<Rightarrow> int \<Rightarrow> sql_error + row list"
  sq_delete_before :: "'db \<Rightarrow> string \<Rightarrow> sql_error option \<times> 'db"

section \<open>The code\<close>

definition nullIfEmpty :: "string \<Rightarrow> string option" where
  "nullIfEmpty s = (if s = [] then None else Some s)"

definition null_string :: "string option \<Rightarrow> string" where
  "null_string x = (case x of None \<Rightarrow> [] | Some s \<Rightarrow> s)"

definition start_row :: "execution_start \<Rightarrow> row" where
  "start_row e =
     \<lparr>r_execution_id = es_ExecutionID e, r_process_id = es_ProcessID e,
      r_device_id = es_DeviceID e, r_mode = es_Mode e, r_command = es_Command e, r_cwd = es_Cwd e,
      r_started_at = fmt_history (es_StartedAt e), r_ended_at = None, r_exit_code = None,
      r_client_context_id = nullIfEmpty (es_ClientContextID e),
      r_client_subject = nullIfEmpty (es_ClientSubject e)\<rparr>"

text \<open>
  Opening the database: \<open>sql_open\<close> and \<open>exec\<close> are \<open>sql.Open\<close> and \<open>db.Exec\<close>; the second component lists the handles that
  were closed again. \<open>history_schema\<close> is the text of the constant, line by line.
\<close>

definition history_schema :: string where
  "history_schema = concat (map (\<lambda>line. CHR 0x0A # line)
     [''CREATE TABLE IF NOT EXISTS executions ('',
      ''  execution_id      TEXT PRIMARY KEY,'',
      ''  process_id        TEXT,'',
      ''  device_id         TEXT NOT NULL,'',
      ''  mode              TEXT NOT NULL,'',
      ''  command           TEXT NOT NULL,'',
      ''  cwd               TEXT,'',
      ''  started_at        TEXT NOT NULL,'',
      ''  ended_at          TEXT,'',
      ''  exit_code         INTEGER,'',
      ''  client_context_id TEXT,'',
      ''  client_subject    TEXT'',
      '');'',
      ''CREATE INDEX IF NOT EXISTS idx_executions_started_at ON executions(started_at);'',
      ''CREATE INDEX IF NOT EXISTS idx_executions_process_id ON executions(process_id);'',
      ''CREATE INDEX IF NOT EXISTS idx_executions_client_context_id ON executions(client_context_id);'',
      []])"

definition OpenHistoryStore ::
    "(string \<Rightarrow> sql_error + 'h) \<Rightarrow> ('h \<Rightarrow> string \<Rightarrow> sql_error option) \<Rightarrow> string \<Rightarrow> (sql_error + 'h) \<times> 'h list" where
  "OpenHistoryStore sql_open exec path =
     (case sql_open (path @ ''?_pragma=busy_timeout(5000)&_pragma=journal_mode(WAL)'') of
        Inl err \<Rightarrow> (Inl err, [])
      | Inr db \<Rightarrow> (case exec db history_schema of Some err \<Rightarrow> (Inl err, [db]) | None \<Rightarrow> (Inr db, [])))"

definition RecordStart :: "'db sql_engine \<Rightarrow> 'db \<Rightarrow> execution_start \<Rightarrow> sql_error option \<times> 'db" where
  "RecordStart eng db e = sq_insert eng db (start_row e)"

definition recordEndMaxRetries :: nat where
  "recordEndMaxRetries = 3"

definition SQLITE_BUSY :: int where
  "SQLITE_BUSY = 5"

definition isSQLiteBusy :: "sql_error \<Rightarrow> bool" where
  "isSQLiteBusy err =
     (case err of SqlCode c \<Rightarrow> c AND 255 = SQLITE_BUSY | _ \<Rightarrow> False)"

text \<open>
  The retry loop of \<open>RecordEnd\<close>, with the attempts that are still allowed after this one; the
  last component counts the statements issued.
\<close>

fun record_end_loop ::
    "'db sql_engine \<Rightarrow> nat \<Rightarrow> 'db \<Rightarrow> string \<Rightarrow> int option \<Rightarrow> string \<Rightarrow> sql_error option \<times> 'db \<times> nat" where
  "record_end_loop eng 0 db ended code eid =
     (case sq_update_end eng db ended code eid of (err, db') \<Rightarrow> (err, db', 1))"
| "record_end_loop eng (Suc n) db ended code eid =
     (case sq_update_end eng db ended code eid of
        (None, db') \<Rightarrow> (None, db', 1)
      | (Some err, db') \<Rightarrow>
          if \<not> isSQLiteBusy err then (Some err, db', 1)
          else (case record_end_loop eng n db' ended code eid of
                  (e, db'', k) \<Rightarrow> (e, db'', Suc k)))"

definition RecordEnd_counted ::
    "'db sql_engine \<Rightarrow> 'db \<Rightarrow> string \<Rightarrow> utc \<Rightarrow> int option \<Rightarrow> sql_error option \<times> 'db \<times> nat" where
  "RecordEnd_counted eng db eid endedAt exitCode =
     record_end_loop eng recordEndMaxRetries db (fmt_history endedAt) exitCode eid"

definition RecordEnd ::
    "'db sql_engine \<Rightarrow> 'db \<Rightarrow> string \<Rightarrow> utc \<Rightarrow> int option \<Rightarrow> sql_error option \<times> 'db" where
  "RecordEnd eng db eid endedAt exitCode =
     (case RecordEnd_counted eng db eid endedAt exitCode of (err, db', k) \<Rightarrow> (err, db'))"

definition scanExecution :: "row \<Rightarrow> history_error + execution" where
  "scanExecution r =
     (case parse_rfc3339 (r_started_at r) of
        None \<Rightarrow> Inl (HParse (r_started_at r))
      | Some t \<Rightarrow>
          let e = \<lparr>ex_ExecutionID = r_execution_id r, ex_ProcessID = r_process_id r,
                   ex_DeviceID = r_device_id r, ex_Mode = r_mode r, ex_Command = r_command r,
                   ex_Cwd = r_cwd r, ex_StartedAt = t, ex_EndedAt = None,
                   ex_ExitCode = r_exit_code r,
                   ex_ClientContextID = null_string (r_client_context_id r),
                   ex_ClientSubject = null_string (r_client_subject r)\<rparr>
          in (case r_ended_at r of
                None \<Rightarrow> Inr e
              | Some s \<Rightarrow>
                  (case parse_rfc3339 s of
                     None \<Rightarrow> Inl (HParse s)
                   | Some et \<Rightarrow> Inr (e\<lparr>ex_EndedAt := Some et\<rparr>))))"

definition hist_Get :: "'db sql_engine \<Rightarrow> 'db \<Rightarrow> string \<Rightarrow> history_error + execution" where
  "hist_Get eng db eid =
     (case sq_select eng db eid of Inl err \<Rightarrow> Inl (HSql err) | Inr r \<Rightarrow> scanExecution r)"

fun scan_rows :: "row list \<Rightarrow> history_error + execution list" where
  "scan_rows [] = Inr []"
| "scan_rows (r # rs) =
     (case scanExecution r of
        Inl err \<Rightarrow> Inl err
      | Inr e \<Rightarrow> (case scan_rows rs of Inl err \<Rightarrow> Inl err | Inr es \<Rightarrow> Inr (e # es)))"

definition hist_List :: "'db sql_engine \<Rightarrow> 'db \<Rightarrow> int \<Rightarrow> history_error + execution list" where
  "hist_List eng db limit =
     (case sq_select_recent eng db limit of Inl err \<Rightarrow> Inl (HSql err) | Inr rs \<Rightarrow> scan_rows rs)"

definition PurgeOlderThan :: "'db sql_engine \<Rightarrow> 'db \<Rightarrow> utc \<Rightarrow> sql_error option \<times> 'db" where
  "PurgeOlderThan eng db cutoff = sq_delete_before eng db (fmt_history cutoff)"

text \<open>
  The retention goroutine: one purge per tick, at the cutoffs \<open>now - retention\<close> of the ticks;
  a failed purge is only logged.
\<close>

definition hist_gc :: "'db sql_engine \<Rightarrow> utc list \<Rightarrow> 'db \<Rightarrow> 'db" where
  "hist_gc eng cutoffs db = fold (\<lambda>cutoff db. snd (PurgeOlderThan eng db cutoff)) cutoffs db"

section \<open>What the code relies on\<close>

definition end_row :: "string \<Rightarrow> int option \<Rightarrow> row \<Rightarrow> row" where
  "end_row ended code r = r\<lparr>r_ended_at := Some ended, r_exit_code := code\<rparr>"

text \<open>
  \<open>rows db\<close> is the content of the table, by primary key. A statement that fails changes
  nothing; one that succeeds has its SQL meaning. The order of text values is bytewise
  (SQLite's BINARY collation), which is \<open><\<close> on \<open>string\<close> here.
\<close>

definition insert_law :: "'db sql_engine \<Rightarrow> ('db \<Rightarrow> string \<rightharpoonup> row) \<Rightarrow> bool" where
  "insert_law eng rows \<longleftrightarrow> (\<forall>db r err db'. sq_insert eng db r = (err, db') \<longrightarrow>
     (if err = None
      then rows db (r_execution_id r) = None \<and> rows db' = (rows db)(r_execution_id r \<mapsto> r)
      else rows db' = rows db))"

definition update_law :: "'db sql_engine \<Rightarrow> ('db \<Rightarrow> string \<rightharpoonup> row) \<Rightarrow> bool" where
  "update_law eng rows \<longleftrightarrow> (\<forall>db ended code eid err db'.
     sq_update_end eng db ended code eid = (err, db') \<longrightarrow>
     rows db' = (if err = None then (rows db)(eid := map_option (end_row ended code) (rows db eid))
                 else rows db))"

definition select_law :: "'db sql_engine \<Rightarrow> ('db \<Rightarrow> string \<rightharpoonup> row) \<Rightarrow> bool" where
  "select_law eng rows \<longleftrightarrow>
     (\<forall>db eid r. sq_select eng db eid = Inr r \<longrightarrow> rows db eid = Some r) \<and>
     (\<forall>db eid. sq_select eng db eid = Inl ErrNoRows \<longleftrightarrow> rows db eid = None)"

definition recent_law :: "'db sql_engine \<Rightarrow> ('db \<Rightarrow> string \<rightharpoonup> row) \<Rightarrow> bool" where
  "recent_law eng rows \<longleftrightarrow> (\<forall>db limit out.
     0 < limit \<longrightarrow> sq_select_recent eng db limit = Inr out \<longrightarrow>
     (\<exists>rs. set rs = ran (rows db) \<and> distinct (map r_execution_id rs) \<and>
        sorted_wrt (\<lambda>a b. r_started_at b \<le> r_started_at a) rs \<and> out = take (nat limit) rs))"

definition delete_law :: "'db sql_engine \<Rightarrow> ('db \<Rightarrow> string \<rightharpoonup> row) \<Rightarrow> bool" where
  "delete_law eng rows \<longleftrightarrow> (\<forall>db cutoff err db'. sq_delete_before eng db cutoff = (err, db') \<longrightarrow>
     rows db' = (if err = None
       then (\<lambda>k. case rows db k of
               None \<Rightarrow> None | Some r \<Rightarrow> if r_started_at r < cutoff then None else Some r)
       else rows db))"

definition sqlite_table :: "'db sql_engine \<Rightarrow> ('db \<Rightarrow> string \<rightharpoonup> row) \<Rightarrow> bool" where
  "sqlite_table eng rows \<longleftrightarrow> insert_law eng rows \<and> update_law eng rows \<and> select_law eng rows \<and>
     recent_law eng rows \<and> delete_law eng rows"

text \<open>A row this program wrote: stored under its own key, with times it can read back.\<close>

definition row_ok :: "string \<Rightarrow> row \<Rightarrow> bool" where
  "row_ok k r \<longleftrightarrow> r_execution_id r = k \<and>
     (\<exists>t. valid_utc t \<and> four_digit_year t \<and> r_started_at r = fmt_history t) \<and>
     (\<forall>s. r_ended_at r = Some s \<longrightarrow> (\<exists>t. valid_utc t \<and> four_digit_year t \<and> s = fmt_history t))"

definition table_ok :: "(string \<rightharpoonup> row) \<Rightarrow> bool" where
  "table_ok m \<longleftrightarrow> (\<forall>k r. m k = Some r \<longrightarrow> row_ok k r)"

text \<open>The executions a table stands for.\<close>

definition row_execution :: "row \<Rightarrow> execution" where
  "row_execution r = projr (scanExecution r)"

definition log_view :: "(string \<rightharpoonup> row) \<Rightarrow> string \<rightharpoonup> execution" where
  "log_view m k = map_option row_execution (m k)"

definition running_execution :: "execution_start \<Rightarrow> execution" where
  "running_execution e =
     \<lparr>ex_ExecutionID = es_ExecutionID e, ex_ProcessID = es_ProcessID e,
      ex_DeviceID = es_DeviceID e, ex_Mode = es_Mode e, ex_Command = es_Command e,
      ex_Cwd = es_Cwd e, ex_StartedAt = es_StartedAt e, ex_EndedAt = None, ex_ExitCode = None,
      ex_ClientContextID = es_ClientContextID e, ex_ClientSubject = es_ClientSubject e\<rparr>"

definition recordable :: "utc \<Rightarrow> bool" where
  "recordable t \<longleftrightarrow> valid_utc t \<and> four_digit_year t"

section \<open>Rows and executions correspond\<close>

lemma null_string_nullIfEmpty [simp]: "null_string (nullIfEmpty s) = s"
  by (simp add: null_string_def nullIfEmpty_def)

lemma parse_recordable [simp]: "recordable t \<Longrightarrow> parse_rfc3339 (fmt_history t) = Some t"
  by (simp add: recordable_def parse_history)

lemma scan_start_row [simp]:
  "recordable (es_StartedAt e) \<Longrightarrow> scanExecution (start_row e) = Inr (running_execution e)"
  by (simp add: scanExecution_def start_row_def running_execution_def)

lemma row_ok_start: "recordable (es_StartedAt e) \<Longrightarrow> row_ok (es_ExecutionID e) (start_row e)"
  by (auto simp: row_ok_def start_row_def recordable_def)

lemma row_ok_end: "row_ok k r \<Longrightarrow> recordable t \<Longrightarrow> row_ok k (end_row (fmt_history t) c r)"
  by (auto simp: row_ok_def end_row_def recordable_def)

lemma row_ok_scan:
  assumes "row_ok k r"
  obtains e where "scanExecution r = Inr e" and "row_execution r = e" and "ex_ExecutionID e = k"
    and "recordable (ex_StartedAt e)" and "r_started_at r = fmt_history (ex_StartedAt e)"
proof -
  from assms obtain t where t: "recordable t" "r_started_at r = fmt_history t"
    and k: "r_execution_id r = k"
    and en: "\<And>s. r_ended_at r = Some s \<Longrightarrow> \<exists>t. recordable t \<and> s = fmt_history t"
    unfolding row_ok_def recordable_def by blast
  show ?thesis
  proof (cases "r_ended_at r")
    case None
    with t k show ?thesis by (intro that) (auto simp: scanExecution_def row_execution_def)
  next
    case (Some s)
    with en obtain u where "recordable u" "s = fmt_history u" by blast
    with Some t k show ?thesis by (intro that) (auto simp: scanExecution_def row_execution_def)
  qed
qed

lemma row_execution_end:
  assumes "row_ok k r" and t: "recordable t"
  shows "row_execution (end_row (fmt_history t) c r) =
    (row_execution r)\<lparr>ex_EndedAt := Some t, ex_ExitCode := c\<rparr>"
proof -
  obtain u where u: "recordable u" "r_started_at r = fmt_history u"
    and en: "\<And>s. r_ended_at r = Some s \<Longrightarrow> \<exists>v. recordable v \<and> s = fmt_history v"
    using assms(1) unfolding row_ok_def recordable_def by blast
  show ?thesis
    using u t en
    by (cases "r_ended_at r") (auto simp: row_execution_def scanExecution_def end_row_def Let_def)
qed

lemma table_ok_ran: "table_ok m \<Longrightarrow> r \<in> ran m \<Longrightarrow> \<exists>k. row_ok k r"
  unfolding table_ok_def ran_def by blast

lemma table_okD: "table_ok m \<Longrightarrow> m k = Some r \<Longrightarrow> row_ok k r"
  by (simp add: table_ok_def)

section \<open>The contract of an execution log\<close>

text \<open>
  What the command and process handlers rely on: a start adds a running execution under a
  fresh id, an end completes exactly the execution it names, a failure of either changes
  nothing, and a lookup that answers answers from that record.
\<close>

locale execution_log =
  fixes start :: "'db \<Rightarrow> execution_start \<Rightarrow> sql_error option \<times> 'db"
    and finish :: "'db \<Rightarrow> string \<Rightarrow> utc \<Rightarrow> int option \<Rightarrow> sql_error option \<times> 'db"
    and get :: "'db \<Rightarrow> string \<Rightarrow> history_error + execution"
    and view :: "'db \<Rightarrow> string \<rightharpoonup> execution"
    and log_ok :: "'db \<Rightarrow> bool"
  assumes start_ok: "log_ok db \<Longrightarrow> recordable (es_StartedAt e) \<Longrightarrow> start db e = (None, db') \<Longrightarrow>
      log_ok db' \<and> view db (es_ExecutionID e) = None \<and>
      view db' = (view db)(es_ExecutionID e \<mapsto> running_execution e)"
    and start_err: "log_ok db \<Longrightarrow> start db e = (Some err, db') \<Longrightarrow> log_ok db' \<and> view db' = view db"
    and finish_ok: "log_ok db \<Longrightarrow> recordable t \<Longrightarrow> finish db eid t c = (None, db') \<Longrightarrow>
      log_ok db' \<and> view db' = (view db)(eid :=
        map_option (\<lambda>x. x\<lparr>ex_EndedAt := Some t, ex_ExitCode := c\<rparr>) (view db eid))"
    and finish_err: "log_ok db \<Longrightarrow> finish db eid t c = (Some err, db') \<Longrightarrow>
      log_ok db' \<and> view db' = view db"
    and get_ok: "log_ok db \<Longrightarrow> get db eid = Inr x \<Longrightarrow> view db eid = Some x"
    and get_none: "log_ok db \<Longrightarrow> get db eid = Inl (HSql ErrNoRows) \<longleftrightarrow> view db eid = None"
begin

lemma log_ok_start: "log_ok db \<Longrightarrow> recordable (es_StartedAt e) \<Longrightarrow> log_ok (snd (start db e))"
  using start_ok [of db e "snd (start db e)"] start_err [of db e _ "snd (start db e)"]
  by (cases "fst (start db e)") (auto simp: prod_eq_iff)

lemma log_ok_finish: "log_ok db \<Longrightarrow> recordable t \<Longrightarrow> log_ok (snd (finish db eid t c))"
  using finish_ok [of db t eid c "snd (finish db eid t c)"]
    finish_err [of db eid t c _ "snd (finish db eid t c)"]
  by (cases "fst (finish db eid t c)") (auto simp: prod_eq_iff)

text \<open>A start that succeeded, then an end that succeeded: the lookup gives the whole record.\<close>

lemma start_finish_get:
  assumes "log_ok db" "recordable (es_StartedAt e)" "recordable t"
    and "start db e = (None, db1)" and "finish db1 (es_ExecutionID e) t c = (None, db2)"
    and "get db2 (es_ExecutionID e) = Inr x"
  shows "x = (running_execution e)\<lparr>ex_EndedAt := Some t, ex_ExitCode := c\<rparr>"
proof -
  have 1: "log_ok db1" "view db1 (es_ExecutionID e) = Some (running_execution e)"
    using start_ok [OF assms(1,2,4)] by auto
  have "log_ok db2" "view db2 (es_ExecutionID e) =
      Some ((running_execution e)\<lparr>ex_EndedAt := Some t, ex_ExitCode := c\<rparr>)"
    using finish_ok [OF 1(1) assms(3,5)] 1(2) by auto
  then show ?thesis using get_ok assms(6) by force
qed

text \<open>Ending one execution never touches another.\<close>

lemma finish_other:
  assumes "log_ok db" "recordable t" "eid' \<noteq> eid"
  shows "view (snd (finish db eid t c)) eid' = view db eid'"
  using assms finish_ok [of db t eid c "snd (finish db eid t c)"]
    finish_err [of db eid t c _ "snd (finish db eid t c)"]
  by (cases "fst (finish db eid t c)") (auto simp: prod_eq_iff)

end

locale sqlite =
  fixes eng :: "'db sql_engine" and rows :: "'db \<Rightarrow> string \<rightharpoonup> row"
  assumes table: "sqlite_table eng rows"
begin

lemma laws: "insert_law eng rows" "update_law eng rows" "select_law eng rows" "recent_law eng rows"
    "delete_law eng rows"
  using table by (simp_all add: sqlite_table_def)

lemma insert_ok: "sq_insert eng db r = (None, db') \<Longrightarrow>
    rows db (r_execution_id r) = None \<and> rows db' = (rows db)(r_execution_id r \<mapsto> r)"
  using laws(1) by (simp add: insert_law_def)

lemma insert_err: "sq_insert eng db r = (Some err, db') \<Longrightarrow> rows db' = rows db"
  using laws(1) by (simp add: insert_law_def)

lemma update_ok: "sq_update_end eng db en c eid = (None, db') \<Longrightarrow>
    rows db' = (rows db)(eid := map_option (end_row en c) (rows db eid))"
  using laws(2) by (simp add: update_law_def)

lemma update_err: "sq_update_end eng db en c eid = (Some err, db') \<Longrightarrow> rows db' = rows db"
  using laws(2) by (simp add: update_law_def)

lemma select_ok: "sq_select eng db eid = Inr r \<Longrightarrow> rows db eid = Some r"
  using laws(3) by (simp add: select_law_def)

lemma select_none: "sq_select eng db eid = Inl ErrNoRows \<longleftrightarrow> rows db eid = None"
  using laws(3) by (simp add: select_law_def)

lemma recent_ok: "0 < limit \<Longrightarrow> sq_select_recent eng db limit = Inr out \<Longrightarrow>
    \<exists>rs. set rs = ran (rows db) \<and> distinct (map r_execution_id rs) \<and>
      sorted_wrt (\<lambda>a b. r_started_at b \<le> r_started_at a) rs \<and> out = take (nat limit) rs"
  using laws(4) by (simp add: recent_law_def)

lemma delete_ok: "sq_delete_before eng db cutoff = (None, db') \<Longrightarrow>
    rows db' = (\<lambda>k. case rows db k of
      None \<Rightarrow> None | Some r \<Rightarrow> if r_started_at r < cutoff then None else Some r)"
  using laws(5) by (simp add: delete_law_def)

lemma delete_err: "sq_delete_before eng db cutoff = (Some err, db') \<Longrightarrow> rows db' = rows db"
  using laws(5) by (simp add: delete_law_def)

text \<open>The retry loop changes the table as one statement does: not at all, or by one update.\<close>

lemma record_end_loop_rows:
  "record_end_loop eng n db en c eid = (err, db', k) \<Longrightarrow>
   rows db' = (if err = None then (rows db)(eid := map_option (end_row en c) (rows db eid)) else rows db)"
proof (induction n arbitrary: db err db' k)
  case 0
  then have "sq_update_end eng db en c eid = (err, db')" by (auto split: prod.splits)
  then show ?case using update_ok update_err by (cases err) auto
next
  case (Suc n)
  obtain e1 db1 where 1: "sq_update_end eng db en c eid = (e1, db1)" by fastforce
  show ?case
  proof (cases "\<exists>x. e1 = Some x \<and> isSQLiteBusy x")
    case True
    then obtain x where "e1 = Some x" "isSQLiteBusy x" by blast
    moreover then have "rows db1 = rows db" using 1 update_err by blast
    ultimately show ?thesis using Suc 1 by (auto split: prod.splits)
  next
    case False
    then show ?thesis
      using Suc.prems 1 update_ok [of db en c eid] update_err [of db en c eid]
      by (cases e1) (auto split: if_splits)
  qed
qed

lemma RecordEnd_rows:
  "RecordEnd eng db eid t c = (err, db') \<Longrightarrow>
   rows db' = (if err = None then (rows db)(eid := map_option (end_row (fmt_history t) c) (rows db eid))
               else rows db)"
  by (auto simp: RecordEnd_def RecordEnd_counted_def split: prod.splits dest!: record_end_loop_rows)

lemma table_ok_update:
  "table_ok m \<Longrightarrow> recordable t \<Longrightarrow> table_ok (m(eid := map_option (end_row (fmt_history t) c) (m eid)))"
  by (auto simp: table_ok_def intro: row_ok_end)

lemma log_view_update:
  "table_ok m \<Longrightarrow> recordable t \<Longrightarrow>
   log_view (m(eid := map_option (end_row (fmt_history t) c) (m eid))) =
   (log_view m)(eid := map_option (\<lambda>x. x\<lparr>ex_EndedAt := Some t, ex_ExitCode := c\<rparr>) (log_view m eid))"
  by (rule ext, cases "m eid") (auto simp: log_view_def dest: table_okD intro: row_execution_end)

end

sublocale sqlite \<subseteq> execution_log "RecordStart eng" "RecordEnd eng" "hist_Get eng"
  "\<lambda>db. log_view (rows db)" "\<lambda>db. table_ok (rows db)"
proof unfold_locales
  fix db db' e
  assume ok: "table_ok (rows db)" and t: "recordable (es_StartedAt e)"
    and "RecordStart eng db e = (None, db')"
  then have "rows db (es_ExecutionID e) = None"
    and r: "rows db' = (rows db)(es_ExecutionID e \<mapsto> start_row e)"
    using insert_ok [of db "start_row e" db'] by (auto simp: RecordStart_def start_row_def)
  moreover have "row_execution (start_row e) = running_execution e"
    using t by (simp add: row_execution_def)
  ultimately show "table_ok (rows db') \<and> log_view (rows db) (es_ExecutionID e) = None \<and>
      log_view (rows db') = (log_view (rows db))(es_ExecutionID e \<mapsto> running_execution e)"
    using ok row_ok_start [OF t] by (auto simp: table_ok_def log_view_def)
next
  fix db db' e err
  assume "table_ok (rows db)" and "RecordStart eng db e = (Some err, db')"
  then show "table_ok (rows db') \<and> log_view (rows db') = log_view (rows db)"
    using insert_err by (auto simp: RecordStart_def)
next
  fix db db' eid t c
  assume "table_ok (rows db)" "recordable t" "RecordEnd eng db eid t c = (None, db')"
  then show "table_ok (rows db') \<and> log_view (rows db') = (log_view (rows db))(eid :=
      map_option (\<lambda>x. x\<lparr>ex_EndedAt := Some t, ex_ExitCode := c\<rparr>) (log_view (rows db) eid))"
    by (simp add: RecordEnd_rows table_ok_update log_view_update del: fun_upd_apply)
next
  fix db db' eid t c err
  assume "table_ok (rows db)" "RecordEnd eng db eid t c = (Some err, db')"
  then show "table_ok (rows db') \<and> log_view (rows db') = log_view (rows db)"
    by (simp add: RecordEnd_rows)
next
  fix db eid x
  assume ok: "table_ok (rows db)" and "hist_Get eng db eid = Inr x"
  then obtain r where "sq_select eng db eid = Inr r" "scanExecution r = Inr x"
    by (auto simp: hist_Get_def split: sum.splits)
  then show "log_view (rows db) eid = Some x"
    using select_ok by (force simp: log_view_def row_execution_def)
next
  fix db eid
  assume ok: "table_ok (rows db)"
  show "hist_Get eng db eid = Inl (HSql ErrNoRows) \<longleftrightarrow> log_view (rows db) eid = None"
  proof (cases "sq_select eng db eid")
    case (Inl err)
    then show ?thesis using select_none [of db eid] by (auto simp: hist_Get_def log_view_def)
  next
    case (Inr r)
    then have "rows db eid = Some r" by (rule select_ok)
    moreover from this obtain e where "scanExecution r = Inr e"
      using row_ok_scan [OF table_okD [OF ok]] by blast
    ultimately show ?thesis using Inr by (auto simp: hist_Get_def log_view_def)
  qed
qed

section \<open>A concrete engine\<close>

text \<open>
  An in-memory table; \<open>md_busy\<close> is how many further writes find the database locked.
\<close>

record mem_db =
  md_rows :: "row list"
  md_busy :: nat

fun keep_first :: "row list \<Rightarrow> row list" where
  "keep_first [] = []"
| "keep_first (r # rs) = r # filter (\<lambda>x. r_execution_id x \<noteq> r_execution_id r) (keep_first rs)"

definition mem_rows :: "mem_db \<Rightarrow> string \<rightharpoonup> row" where
  "mem_rows db = map_of (map (\<lambda>r. (r_execution_id r, r)) (md_rows db))"

definition mem_write :: "mem_db \<Rightarrow> (row list \<Rightarrow> sql_error option \<times> row list) \<Rightarrow> sql_error option \<times> mem_db" where
  "mem_write db f =
     (if 0 < md_busy db then (Some (SqlCode 261), db\<lparr>md_busy := md_busy db - 1\<rparr>)
      else case f (md_rows db) of (err, rs) \<Rightarrow> (err, db\<lparr>md_rows := rs\<rparr>))"

definition mem_engine :: "mem_db sql_engine" where
  "mem_engine =
     \<lparr>sq_insert = (\<lambda>db r. mem_write db (\<lambda>rs.
        if r_execution_id r \<in> set (map r_execution_id rs) then (Some (SqlCode 1555), rs)
        else (None, rs @ [r]))),
      sq_update_end = (\<lambda>db en c eid. mem_write db (\<lambda>rs.
        (None, map (\<lambda>r. if r_execution_id r = eid then end_row en c r else r) rs))),
      sq_select = (\<lambda>db eid. case find (\<lambda>r. r_execution_id r = eid) (md_rows db) of
        None \<Rightarrow> Inl ErrNoRows | Some r \<Rightarrow> Inr r),
      sq_select_recent = (\<lambda>db limit. Inr (take (nat limit)
        (rev (sort_key r_started_at (keep_first (md_rows db)))))),
      sq_delete_before = (\<lambda>db cutoff. mem_write db (\<lambda>rs.
        (None, filter (\<lambda>r. \<not> r_started_at r < cutoff) (keep_first rs))))\<rparr>"

lemma end_row_id [simp]: "r_execution_id (end_row en c r) = r_execution_id r"
  by (simp add: end_row_def)

abbreviation by_id :: "row list \<Rightarrow> string \<rightharpoonup> row" where
  "by_id rs \<equiv> map_of (map (\<lambda>r. (r_execution_id r, r)) rs)"

lemma by_id_update:
  "by_id (map (\<lambda>r. if r_execution_id r = eid then end_row en c r else r) rs) =
   (by_id rs)(eid := map_option (end_row en c) (by_id rs eid))"
  by (induction rs) auto

lemma by_id_None: "by_id rs i = None \<longleftrightarrow> i \<notin> r_execution_id ` set rs"
  by (induction rs) auto

lemma by_id_snoc: "by_id rs (r_execution_id r) = None \<Longrightarrow> by_id (rs @ [r]) = (by_id rs)(r_execution_id r \<mapsto> r)"
  by (induction rs) (auto split: if_splits)

lemma by_id_filter_other: "by_id (filter (\<lambda>x. r_execution_id x \<noteq> i) rs) = (by_id rs)(i := None)"
  by (induction rs) auto

lemma keep_first_distinct: "distinct (map r_execution_id (keep_first rs))"
  by (induction rs) (auto simp: distinct_map intro: inj_on_subset)

lemma by_id_keep_first [simp]: "by_id (keep_first rs) = by_id rs"
  by (induction rs) (auto simp: by_id_filter_other)

lemma set_keep_first: "set (keep_first rs) = ran (by_id rs)"
proof -
  have "ran (by_id (keep_first rs)) = set (keep_first rs)"
    using keep_first_distinct [of rs] by (subst ran_distinct) (simp_all add: comp_def image_image)
  then show ?thesis by simp
qed

lemma by_id_filter:
  "distinct (map r_execution_id rs) \<Longrightarrow>
   by_id (filter P rs) = (\<lambda>k. case by_id rs k of None \<Rightarrow> None | Some r \<Rightarrow> if P r then Some r else None)"
proof (induction rs)
  case (Cons r rs)
  moreover have "by_id rs (r_execution_id r) = None"
    using Cons.prems by (auto simp: map_of_eq_None_iff image_iff)
  ultimately show ?case by (auto simp: fun_eq_iff)
qed simp

lemma find_by_id: "find (\<lambda>r. r_execution_id r = eid) rs = by_id rs eid"
  by (induction rs) auto

lemma mem_laws:
  "insert_law mem_engine mem_rows" "update_law mem_engine mem_rows" "select_law mem_engine mem_rows"
  "recent_law mem_engine mem_rows" "delete_law mem_engine mem_rows"
proof -
  show "insert_law mem_engine mem_rows"
    by (auto simp: insert_law_def mem_engine_def mem_write_def mem_rows_def by_id_None
        simp del: map_append intro!: by_id_snoc split: if_splits)
  show "update_law mem_engine mem_rows"
    by (auto simp: update_law_def mem_engine_def mem_write_def mem_rows_def by_id_update
        simp del: map_map split: if_splits)
  show "select_law mem_engine mem_rows"
    by (auto simp: select_law_def mem_engine_def mem_rows_def find_by_id split: option.splits)
  show "delete_law mem_engine mem_rows"
    by (auto simp: delete_law_def mem_engine_def mem_write_def mem_rows_def fun_eq_iff
        by_id_filter [OF keep_first_distinct] split: if_splits option.splits)
  show "recent_law mem_engine mem_rows"
    unfolding recent_law_def
  proof (intro allI impI)
    fix db limit out
    assume "sq_select_recent mem_engine db limit = Inr out"
    then have out: "out = take (nat limit) (rev (sort_key r_started_at (keep_first (md_rows db))))"
      by (simp add: mem_engine_def)
    let ?rs = "rev (sort_key r_started_at (keep_first (md_rows db)))"
    have "sorted (map r_started_at (sort_key r_started_at (keep_first (md_rows db))))" by simp
    then have "sorted_wrt (\<lambda>a b. r_started_at b \<le> r_started_at a) ?rs"
      by (simp add: sorted_wrt_map sorted_wrt_rev)
    moreover have "distinct (map r_execution_id ?rs)"
      using keep_first_distinct [of "md_rows db"] by (simp add: distinct_map)
    ultimately show "\<exists>rs. set rs = ran (mem_rows db) \<and> distinct (map r_execution_id rs) \<and>
        sorted_wrt (\<lambda>a b. r_started_at b \<le> r_started_at a) rs \<and> out = take (nat limit) rs"
      using out by (intro exI [of _ ?rs]) (simp add: mem_rows_def set_keep_first)
  qed
qed

interpretation mem: sqlite mem_engine mem_rows
  by unfold_locales (simp add: sqlite_table_def mem_laws)

section \<open>Properties\<close>

context sqlite
begin

lemmas roundtrip = start_finish_get

lemma purge_view:
  assumes ok: "table_ok (rows db)" and t: "recordable cutoff"
    and purge: "PurgeOlderThan eng db cutoff = (None, db')"
  shows "log_view (rows db') k =
    (case log_view (rows db) k of
       None \<Rightarrow> None
     | Some x \<Rightarrow> if utc_before (ex_StartedAt x) cutoff then None else Some x)"
proof (cases "rows db k")
  case None
  then show ?thesis using delete_ok purge by (simp add: PurgeOlderThan_def log_view_def)
next
  case (Some r)
  then obtain e where e: "row_execution r = e" "recordable (ex_StartedAt e)"
    "r_started_at r = fmt_history (ex_StartedAt e)"
    using row_ok_scan [OF table_okD [OF ok]] by blast
  then have "r_started_at r < fmt_history cutoff \<longleftrightarrow> utc_before (ex_StartedAt e) cutoff"
    using t by (simp add: recordable_def fmt_history_less)
  then show ?thesis
    using Some e delete_ok [of db "fmt_history cutoff" db'] purge
    by (simp add: PurgeOlderThan_def log_view_def)
qed

lemma purge_table_ok:
  assumes "table_ok (rows db)"
  shows "table_ok (rows (snd (PurgeOlderThan eng db cutoff)))"
proof (cases "PurgeOlderThan eng db cutoff")
  case (Pair err db')
  with assms show ?thesis
    using delete_ok [of db _ db'] delete_err [of db _ _ db']
    by (cases err) (fastforce simp: PurgeOlderThan_def table_ok_def split: option.splits if_splits)+
qed

lemma scan_rows_ok:
  "\<forall>r \<in> set rs. \<exists>k. row_ok k r \<Longrightarrow> scan_rows rs = Inr (map row_execution rs)"
proof (induction rs)
  case (Cons r rs)
  then obtain k where "row_ok k r" by auto
  then obtain e where "scanExecution r = Inr e" "row_execution r = e" by (rule row_ok_scan)
  with Cons show ?case by simp
qed simp

lemma list_view:
  assumes ok: "table_ok (rows db)" and pos: "0 < limit" and out: "hist_List eng db limit = Inr out"
  obtains rs where "set rs = ran (rows db)" "distinct (map r_execution_id rs)"
    "sorted_wrt (\<lambda>a b. r_started_at b \<le> r_started_at a) rs"
    "out = map row_execution (take (nat limit) rs)"
proof -
  obtain sel where sel: "sq_select_recent eng db limit = Inr sel"
    and scan: "scan_rows sel = Inr out"
    using out by (auto simp: hist_List_def split: sum.splits)
  obtain rs where rs: "set rs = ran (rows db)" "distinct (map r_execution_id rs)"
    "sorted_wrt (\<lambda>a b. r_started_at b \<le> r_started_at a) rs" "sel = take (nat limit) rs"
    using recent_ok [OF pos sel] by blast
  have "\<forall>r \<in> set sel. \<exists>k. row_ok k r"
    using rs table_ok_ran [OF ok] by (auto dest!: in_set_takeD)
  then have "out = map row_execution (take (nat limit) rs)"
    using scan scan_rows_ok rs(4) by auto
  then show ?thesis using that rs by blast
qed

end

lemma ran_log_view: "ran (log_view m) = row_execution ` ran m"
  by (auto simp: ran_def log_view_def)

lemma newest_first:
  assumes ok: "table_ok m" and rs: "set rs = ran m"
    and "sorted_wrt (\<lambda>a b. r_started_at b \<le> r_started_at a) rs"
  shows "sorted_wrt (\<lambda>x y. \<not> utc_before (ex_StartedAt x) (ex_StartedAt y)) (map row_execution rs)"
  unfolding sorted_wrt_map
proof (rule sorted_wrt_mono_rel [OF _ assms(3)])
  fix a b
  assume "a \<in> set rs" "b \<in> set rs" and le: "r_started_at b \<le> r_started_at a"
  then obtain j k where "row_ok j a" "row_ok k b"
    using rs table_ok_ran [OF ok] by blast
  then show "\<not> utc_before (ex_StartedAt (row_execution a)) (ex_StartedAt (row_execution b))"
    using le by (elim row_ok_scan) (auto simp: recordable_def simp flip: fmt_history_less)
qed

text \<open>
  C11. Whatever the database holds, if the start of an execution is recorded, then its end, and a
  later lookup by its id answers, the answer is exactly what was recorded: the command, its
  directory, mode, process and client fields and its start time survive the text columns (an
  empty client field travels as NULL), and the end time and exit code are those of the end.
\<close>

theorem history_roundtrip:
  assumes "sqlite_table eng rows" and "table_ok (rows db)"
    and "recordable (es_StartedAt e)" and "recordable t"
    and "RecordStart eng db e = (None, db1)"
    and "RecordEnd eng db1 (es_ExecutionID e) t c = (None, db2)"
    and "hist_Get eng db2 (es_ExecutionID e) = Inr x"
  shows "x = (running_execution e)\<lparr>ex_EndedAt := Some t, ex_ExitCode := c\<rparr>"
  by (rule sqlite.roundtrip [OF sqlite.intro [OF assms(1)] assms(2-)])

text \<open>
  Retries of the end of an execution: between one and four statements are issued; every one
  before the last was answered by SQLITE_BUSY (any of its extended codes), the result is that
  of the last one, and the last one is not busy unless all four attempts were spent.
\<close>

theorem RecordEnd_retries:
  fixes eng :: "'db sql_engine"
  defines "stmt \<equiv> \<lambda>db t c eid. sq_update_end eng db (fmt_history t) c eid"
  assumes "RecordEnd_counted eng db eid t c = (err, db', k)"
  shows "1 \<le> k \<and> k \<le> 4 \<and>
    (err, db') = stmt (((\<lambda>d. snd (stmt d t c eid)) ^^ (k - 1)) db) t c eid \<and>
    (\<forall>j < k - 1. \<exists>x. fst (stmt (((\<lambda>d. snd (stmt d t c eid)) ^^ j) db) t c eid) = Some x \<and> isSQLiteBusy x) \<and>
    (k < 4 \<longrightarrow> (\<forall>x. err = Some x \<longrightarrow> \<not> isSQLiteBusy x))"
proof -
  define f where "f = (\<lambda>d. snd (stmt d t c eid))"
  have "record_end_loop eng n db (fmt_history t) c eid = (err, db', k) \<Longrightarrow>
    1 \<le> k \<and> k \<le> Suc n \<and> (err, db') = stmt ((f ^^ (k - 1)) db) t c eid \<and>
    (\<forall>j < k - 1. \<exists>x. fst (stmt ((f ^^ j) db) t c eid) = Some x \<and> isSQLiteBusy x) \<and>
    (k < Suc n \<longrightarrow> (\<forall>x. err = Some x \<longrightarrow> \<not> isSQLiteBusy x))" for n
  proof (induction n arbitrary: db k)
    case 0
    then show ?case by (auto simp: stmt_def split: prod.splits)
  next
    case (Suc n)
    obtain e1 db1 where 1: "stmt db t c eid = (e1, db1)" by fastforce
    show ?case
    proof (cases "\<exists>x. e1 = Some x \<and> isSQLiteBusy x")
      case True
      then obtain k' where "record_end_loop eng n db1 (fmt_history t) c eid = (err, db', k')" "k = Suc k'"
        using Suc.prems 1 by (auto simp: stmt_def split: prod.splits)
      note k' = this
      have step: "(f ^^ Suc j) db = (f ^^ j) db1" for j
        using 1 by (simp only: funpow_Suc_right comp_apply) (simp add: f_def)
      note IH = Suc.IH [OF k'(1)]
      then obtain m where m: "k' = Suc m" by (cases k') auto
      show ?thesis using IH True 1 by (simp add: k'(2) m step All_less_Suc2 del: funpow.simps)
    next
      case False
      then show ?thesis using Suc.prems 1 by (cases e1) (auto simp: stmt_def)
    qed
  qed
  from this [of 3] show ?thesis
    using assms(2) by (simp add: RecordEnd_counted_def recordEndMaxRetries_def f_def)
qed

text \<open>
  The retention purge is exact and chronological: after a purge that succeeded, an execution
  is gone if and only if it started before the cutoff. The strings the statement compares are
  ordered as the times they stand for because the layout has a fixed width.
\<close>

theorem history_purge_exact:
  assumes "sqlite_table eng rows" and "table_ok (rows db)" and "recordable cutoff"
    and "PurgeOlderThan eng db cutoff = (None, db')"
  shows "log_view (rows db') k =
    (case log_view (rows db) k of
       None \<Rightarrow> None
     | Some x \<Rightarrow> if utc_before (ex_StartedAt x) cutoff then None else Some x)"
  by (rule sqlite.purge_view [OF sqlite.intro [OF assms(1)] assms(2-)])

lemma row_execution_id: "row_ok k r \<Longrightarrow> ex_ExecutionID (row_execution r) = r_execution_id r"
  by (metis row_ok_scan row_ok_def)

text \<open>
  C14. The list of recent executions holds at most \<open>limit\<close> of the recorded executions, each once,
  newest first, and leaves one out only when it is full of executions that did not start
  earlier.
\<close>

theorem history_list_newest:
  assumes eng: "sqlite_table eng rows" and ok: "table_ok (rows db)" and "0 < limit"
    and "hist_List eng db limit = Inr out"
  shows "length out \<le> nat limit \<and> distinct (map ex_ExecutionID out) \<and>
    set out \<subseteq> ran (log_view (rows db)) \<and>
    sorted_wrt (\<lambda>x y. \<not> utc_before (ex_StartedAt x) (ex_StartedAt y)) out \<and>
    (\<forall>x \<in> ran (log_view (rows db)) - set out. length out = nat limit \<and>
       (\<forall>y \<in> set out. \<not> utc_before (ex_StartedAt y) (ex_StartedAt x)))"
proof -
  obtain rs where rs: "set rs = ran (rows db)" "distinct (map r_execution_id rs)"
    "sorted_wrt (\<lambda>a b. r_started_at b \<le> r_started_at a) rs"
    and out: "out = map row_execution (take (nat limit) rs)"
    by (rule sqlite.list_view [OF sqlite.intro [OF eng] assms(2-4)])
  let ?es = "map row_execution rs"
  have out': "out = take (nat limit) ?es" by (simp add: out take_map)
  have "map ex_ExecutionID ?es = map r_execution_id rs"
    using rs(1) table_ok_ran [OF ok] by (auto intro: row_execution_id)
  then have dist: "distinct (map ex_ExecutionID out)"
    using rs(2) by (metis distinct_take out' take_map)
  have ran: "set ?es = ran (log_view (rows db))" using rs(1) by (simp add: ran_log_view)
  have sorted: "sorted_wrt (\<lambda>x y. \<not> utc_before (ex_StartedAt x) (ex_StartedAt y)) (out @ drop (nat limit) ?es)"
    using newest_first [OF ok rs(1,3)] by (simp add: out')
  have "length out = nat limit \<and> (\<forall>y \<in> set out. \<not> utc_before (ex_StartedAt y) (ex_StartedAt x))"
    if "x \<in> ran (log_view (rows db)) - set out" for x
  proof -
    have "x \<in> set (drop (nat limit) ?es)"
      using that ran by (metis DiffD1 DiffD2 UnE append_take_drop_id out' set_append)
    moreover have "\<forall>y \<in> set out. \<forall>x \<in> set (drop (nat limit) ?es).
        \<not> utc_before (ex_StartedAt y) (ex_StartedAt x)"
      using sorted unfolding sorted_wrt_append by blast
    moreover from calculation(1) have "length out = nat limit"
      unfolding out' by (cases "nat limit \<le> length ?es") auto
    ultimately show ?thesis by blast
  qed
  then show ?thesis
    using dist ran sorted by (auto simp: out' sorted_wrt_append dest: in_set_takeD)
qed

subsection \<open>Witnesses\<close>

definition sample_time :: "nat \<Rightarrow> utc" where
  "sample_time s = \<lparr>u_year = 2026, u_month = 3, u_day = 31, u_hour = 23, u_minute = 59, u_second = s, u_nano = 5\<rparr>"

definition sample_start :: "string \<Rightarrow> nat \<Rightarrow> execution_start" where
  "sample_start eid s = \<lparr>es_ExecutionID = eid, es_ProcessID = ''p'', es_DeviceID = ''dev'',
     es_Mode = ''write'', es_Command = ''make'', es_Cwd = [], es_StartedAt = sample_time s,
     es_ClientContextID = ''ctx'', es_ClientSubject = []\<rparr>"

definition sample_db :: mem_db where
  "sample_db = \<lparr>md_rows = [start_row (sample_start ''a'' 1), start_row (sample_start ''b'' 2)], md_busy = 0\<rparr>"

lemma recordable_sample [simp]: "s < 60 \<Longrightarrow> recordable (sample_time s)"
  by (simp add: recordable_def sample_time_def valid_utc_def four_digit_year_def days_in_def)

lemma mem_Get:
  assumes "table_ok (mem_rows db)" and "log_view (mem_rows db) eid \<noteq> None"
  obtains x where "hist_Get mem_engine db eid = Inr x"
proof -
  obtain r where r: "mem_rows db eid = Some r" using assms(2) by (auto simp: log_view_def)
  then have "sq_select mem_engine db eid = Inr r"
    by (simp add: mem_engine_def find_by_id mem_rows_def)
  moreover obtain e where "scanExecution r = Inr e"
    using row_ok_scan [OF table_okD [OF assms(1) r]] by blast
  ultimately show ?thesis using that by (simp add: hist_Get_def)
qed

lemma sample_rows: "mem_rows sample_db =
    [''a'' \<mapsto> start_row (sample_start ''a'' 1), ''b'' \<mapsto> start_row (sample_start ''b'' 2)]"
  by (simp add: mem_rows_def sample_db_def start_row_def sample_start_def fun_eq_iff)

lemma sample_table_ok [simp]: "table_ok (mem_rows sample_db)"
  using row_ok_start [of "sample_start ''a'' 1"] row_ok_start [of "sample_start ''b'' 2"]
  by (auto simp: table_ok_def sample_rows sample_start_def)

theorem history_roundtrip_witness:
  "let db = sample_db; e = sample_start ''c'' 3;
       db2 = snd (RecordEnd mem_engine (snd (RecordStart mem_engine db e)) ''c'' (sample_time 9) (Some 1))
   in hist_Get mem_engine db2 ''c'' =
      Inr ((running_execution e)\<lparr>ex_EndedAt := Some (sample_time 9), ex_ExitCode := Some 1\<rparr>)"
proof -
  let ?e = "sample_start ''c'' 3"
  obtain db1 where 1: "RecordStart mem_engine sample_db ?e = (None, db1)"
    "db1 = snd (RecordStart mem_engine sample_db ?e)"
    by (simp add: RecordStart_def mem_engine_def mem_write_def sample_db_def start_row_def sample_start_def)
  obtain db2 where 2: "RecordEnd mem_engine db1 ''c'' (sample_time 9) (Some 1) = (None, db2)"
    "db2 = snd (RecordEnd mem_engine db1 ''c'' (sample_time 9) (Some 1))"
    unfolding 1(2) by (simp add: RecordStart_def RecordEnd_def RecordEnd_counted_def recordEndMaxRetries_def
        eval_nat_numeral mem_engine_def mem_write_def sample_db_def)
  have "es_ExecutionID ?e = ''c''" by (simp add: sample_start_def)
  moreover obtain x where "hist_Get mem_engine db2 ''c'' = Inr x"
  proof (rule mem_Get)
    have "table_ok (mem_rows db1)" "log_view (mem_rows db1) ''c'' \<noteq> None"
      using mem.start_ok [OF sample_table_ok _ 1(1)] by (simp_all add: sample_start_def)
    then show "table_ok (mem_rows db2)" "log_view (mem_rows db2) ''c'' \<noteq> None"
      using mem.finish_ok [OF _ _ 2(1)] by auto
  qed
  ultimately have "hist_Get mem_engine db2 ''c'' =
      Inr ((running_execution ?e)\<lparr>ex_EndedAt := Some (sample_time 9), ex_ExitCode := Some 1\<rparr>)"
    using history_roundtrip [OF mem.table sample_table_ok, of ?e "sample_time 9" db1 "Some 1" db2 x] 1 2
    by (simp add: sample_start_def)
  then show ?thesis using 1(2) 2(2) by (simp add: Let_def)
qed

text \<open>Two busy answers, then the update: three statements.\<close>

theorem RecordEnd_retries_witness:
  "\<exists>db'. RecordEnd_counted mem_engine (sample_db\<lparr>md_busy := 2\<rparr>) ''a'' (sample_time 9) None = (None, db', 3) \<and>
     (\<forall>j < 2. \<exists>x. fst (sq_update_end mem_engine
         (((\<lambda>d. snd (sq_update_end mem_engine d (fmt_history (sample_time 9)) None ''a'')) ^^ j)
            (sample_db\<lparr>md_busy := 2\<rparr>))
         (fmt_history (sample_time 9)) None ''a'') = Some x \<and> isSQLiteBusy x)"
proof -
  have "isSQLiteBusy (SqlCode 261)" by (simp add: isSQLiteBusy_def SQLITE_BUSY_def)
  then obtain db' where
    "RecordEnd_counted mem_engine (sample_db\<lparr>md_busy := 2\<rparr>) ''a'' (sample_time 9) None = (None, db', 3)"
    by (simp add: RecordEnd_counted_def recordEndMaxRetries_def eval_nat_numeral mem_engine_def
        mem_write_def sample_db_def)
  from this RecordEnd_retries [OF this] show ?thesis by simp
qed

theorem history_purge_exact_witness:
  "\<exists>db'. PurgeOlderThan mem_engine sample_db (sample_time 2) = (None, db') \<and>
     log_view (mem_rows db') ''a'' = None \<and>
     log_view (mem_rows db') ''b'' = Some (running_execution (sample_start ''b'' 2))"
proof -
  obtain db' where db': "PurgeOlderThan mem_engine sample_db (sample_time 2) = (None, db')"
    by (simp add: PurgeOlderThan_def mem_engine_def mem_write_def sample_db_def)
  have "log_view (mem_rows sample_db) ''a'' = Some (running_execution (sample_start ''a'' 1))"
    "log_view (mem_rows sample_db) ''b'' = Some (running_execution (sample_start ''b'' 2))"
    by (simp_all add: log_view_def sample_rows row_execution_def sample_start_def)
  moreover have "utc_before (sample_time 1) (sample_time 2)" "\<not> utc_before (sample_time 2) (sample_time 2)"
    by (simp_all add: utc_before_def sample_time_def)
  ultimately show ?thesis
    using db' history_purge_exact [OF mem.table sample_table_ok _ db', of "''a''"]
      history_purge_exact [OF mem.table sample_table_ok _ db', of "''b''"]
    by (simp add: running_execution_def sample_start_def)
qed

theorem history_list_newest_witness:
  "\<exists>out. hist_List mem_engine sample_db 1 = Inr out \<and> length out \<le> 1 \<and>
     sorted_wrt (\<lambda>x y. \<not> utc_before (ex_StartedAt x) (ex_StartedAt y)) out"
proof -
  obtain rs where rs: "sq_select_recent mem_engine sample_db 1 = Inr rs"
    by (simp add: mem_engine_def)
  then have "set rs \<subseteq> ran (mem_rows sample_db)"
    using mem.recent_ok [OF _ rs] by (auto dest: in_set_takeD)
  then obtain out where "hist_List mem_engine sample_db 1 = Inr out"
    using mem.scan_rows_ok [of rs] table_ok_ran [OF sample_table_ok] rs by (auto simp: hist_List_def)
  from this history_list_newest [OF mem.table sample_table_ok _ this] show ?thesis by auto
qed

end
