(* ===== verification/Backend.thy ===== *)
theory Backend
  imports Prelude
begin

text \<open>
  How the Agent starts, awaits and ends operating-system processes (internal/backend): the
  command each backend builds, the resources the sandboxed backend acquires and releases, the
  result of a wait, and the graceful-then-forced termination of a process group. The
  operating system answers through parameters: the outcomes of the system calls, in the
  order the code makes them.
\<close>

section \<open>The interface of process.go\<close>

record start_options =
  so_Command :: string
  so_Cwd :: string
  so_Env :: "(string, string) gomap"

record exit_result =
  er_ExitCode :: int
  er_Err :: "string option"
  er_SandboxSetupFailed :: bool

text \<open>
  The \<open>exec.Cmd\<close> a backend builds. \<open>ec_env = None\<close> is the nil environment, which inherits the
  Agent's own; \<open>ec_dir = []\<close> its working directory.
\<close>

datatype clone_flag = CLONE_NEWUSER | CLONE_NEWNET

record id_map =
  im_ContainerID :: int
  im_HostID :: int
  im_Size :: int

record exec_cmd =
  ec_path :: string
  ec_args :: "string list"
  ec_dir :: string
  ec_env :: "string list option"
  ec_setpgid :: bool
  ec_cloneflags :: "clone_flag list"
  ec_uid_maps :: "id_map list"
  ec_gid_maps :: "id_map list"

text \<open>How \<open>Process.Wait\<close> reports the end of a process, and \<open>ProcessState.ExitCode\<close> of it.\<close>

datatype wait_status = Exited int | Signaled nat

fun status_ExitCode :: "wait_status \<Rightarrow> int" where
  "status_ExitCode (Exited n) = n"
| "status_ExitCode (Signaled s) = -1"

definition env_entries :: "(string, string) gomap \<Rightarrow> string list" where
  "env_entries env = map (\<lambda>(k, v). k @ ''='' @ v) env"

text \<open>
  The value a child sees: of the entries with the same key (the text before the first \<open>=\<close>) the
  last one wins, as \<open>os/exec\<close> removes the earlier ones.
\<close>

definition entry_key :: "string \<Rightarrow> string" where
  "entry_key e = takeWhile (\<lambda>c. c \<noteq> CHR ''='') e"

fun env_lookup :: "string list \<Rightarrow> string \<Rightarrow> string option" where
  "env_lookup [] k = None"
| "env_lookup (e # es) k =
     (case env_lookup es k of
        Some v \<Rightarrow> Some v
      | None \<Rightarrow> if entry_key e = k \<and> CHR ''='' \<in> set e then Some (drop (Suc (length k)) e) else None)"

lemma env_lookup_append:
  "env_lookup (es @ fs) k = (case env_lookup fs k of Some v \<Rightarrow> Some v | None \<Rightarrow> env_lookup es k)"
  by (induction es) (auto split: option.splits)

lemma entry_key_entry: "CHR ''='' \<notin> set k \<Longrightarrow> entry_key (k @ ''='' @ v) = k"
  by (induction k) (auto simp: entry_key_def)

lemma env_lookup_last:
  "CHR ''='' \<notin> set k \<Longrightarrow> env_lookup (es @ [k @ ''='' @ v]) k = Some v"
  by (simp add: env_lookup_append entry_key_entry del: append_Cons)

section \<open>The Linux backend\<close>

text \<open>
  \<open>environ dir\<close> is what \<open>cmd.Environ()\<close> returns for a command with that directory. The panic
  is the slice \<open>shell[1:]\<close> of an empty shell.
\<close>

definition linux_command ::
    "string list \<Rightarrow> (string \<Rightarrow> string list) \<Rightarrow> start_options \<Rightarrow> exec_cmd option" where
  "linux_command shell environ opts =
     (case shell of
        [] \<Rightarrow> None
      | shell0 # flags \<Rightarrow> Some
          \<lparr>ec_path = shell0, ec_args = flags @ [so_Command opts], ec_dir = so_Cwd opts,
           ec_env = (if so_Env opts = [] then None
                     else Some (environ (so_Cwd opts) @ env_entries (so_Env opts))),
           ec_setpgid = True, ec_cloneflags = [], ec_uid_maps = [], ec_gid_maps = []\<rparr>)"

text \<open>
  What the Agent holds: the scratch directories that exist and its open ends of pipes. A pipe is
  known by its number; \<open>os.Pipe\<close> makes the next one.
\<close>

datatype pipe_end = ReadEnd nat | WriteEnd nat

record os_world =
  ow_scratch :: "string list"
  ow_open :: "pipe_end list"
  ow_pipes :: nat

definition os_Pipe :: "string option \<Rightarrow> os_world \<Rightarrow> (string + nat) \<times> os_world" where
  "os_Pipe err w =
     (case err of
        Some e \<Rightarrow> (Inl e, w)
      | None \<Rightarrow> (Inr (ow_pipes w),
          w\<lparr>ow_open := ReadEnd (ow_pipes w) # WriteEnd (ow_pipes w) # ow_open w, ow_pipes := Suc (ow_pipes w)\<rparr>))"

definition close_ends :: "pipe_end list \<Rightarrow> os_world \<Rightarrow> os_world" where
  "close_ends es w = w\<lparr>ow_open := filter (\<lambda>e. e \<notin> set es) (ow_open w)\<rparr>"

text \<open>The pipes of \<open>StdoutPipe\<close>, \<open>StderrPipe\<close> and \<open>StdinPipe\<close>, and which ends are whose.\<close>

record stdio =
  io_stdout :: nat
  io_stderr :: nat
  io_stdin :: nat

definition child_ends :: "stdio \<Rightarrow> pipe_end list" where
  "child_ends io = [WriteEnd (io_stdout io), WriteEnd (io_stderr io), ReadEnd (io_stdin io)]"

definition parent_ends :: "stdio \<Rightarrow> pipe_end list" where
  "parent_ends io = [ReadEnd (io_stdout io), ReadEnd (io_stderr io), WriteEnd (io_stdin io)]"

text \<open>The outcomes of the three pipes and of \<open>cmd.Start\<close> (the new process id).\<close>

record start_outcome =
  so_stdout_err :: "string option"
  so_stderr_err :: "string option"
  so_stdin_err :: "string option"
  so_start :: "string + int"

text \<open>The three calls in a row; an error returns at once and closes nothing.\<close>

definition stdio_pipes :: "('a start_outcome_scheme) \<Rightarrow> os_world \<Rightarrow> (string + stdio) \<times> os_world" where
  "stdio_pipes os w =
     (case os_Pipe (so_stdout_err os) w of (Inl err, w) \<Rightarrow> (Inl err, w) | (Inr out, w) \<Rightarrow>
     (case os_Pipe (so_stderr_err os) w of (Inl err, w) \<Rightarrow> (Inl err, w) | (Inr serr, w) \<Rightarrow>
     (case os_Pipe (so_stdin_err os) w of (Inl err, w) \<Rightarrow> (Inl err, w) | (Inr inp, w) \<Rightarrow>
        (Inr \<lparr>io_stdout = out, io_stderr = serr, io_stdin = inp\<rparr>, w))))"

text \<open>\<open>cmd.Start\<close> closes the child's ends, and when it fails the Agent's too.\<close>

definition cmd_Start :: "string + int \<Rightarrow> stdio \<Rightarrow> os_world \<Rightarrow> (string + int) \<times> os_world" where
  "cmd_Start res io w =
     (case res of
        Inl err \<Rightarrow> (Inl err, close_ends (child_ends io @ parent_ends io) w)
      | Inr pid \<Rightarrow> (Inr pid, close_ends (child_ends io) w))"

record linux_handle =
  lh_pid :: int
  lh_io :: stdio

definition linux_start :: "start_outcome \<Rightarrow> os_world \<Rightarrow> (string + linux_handle) \<times> os_world" where
  "linux_start os w =
     (case stdio_pipes os w of (Inl err, w) \<Rightarrow> (Inl err, w) | (Inr io, w) \<Rightarrow>
     (case cmd_Start (so_start os) io w of
        (Inl err, w) \<Rightarrow> (Inl err, w)
      | (Inr pid, w) \<Rightarrow> (Inr \<lparr>lh_pid = pid, lh_io = io\<rparr>, w)))"

definition linux_CloseIO :: "linux_handle \<Rightarrow> os_world \<Rightarrow> os_world" where
  "linux_CloseIO h w = close_ends (parent_ends (lh_io h)) w"

definition linux_wait :: "string + wait_status \<Rightarrow> exit_result" where
  "linux_wait w =
     (case w of
        Inl err \<Rightarrow> \<lparr>er_ExitCode = 0, er_Err = Some (''wait: '' @ err), er_SandboxSetupFailed = False\<rparr>
      | Inr st \<Rightarrow> \<lparr>er_ExitCode = status_ExitCode st, er_Err = None, er_SandboxSetupFailed = False\<rparr>)"

section \<open>The sandboxed backend\<close>

definition SandboxSetupFailedExitCode :: int where
  "SandboxSetupFailedExitCode = 111"

definition scratchDirEnvVar :: string where
  "scratchDirEnvVar = ''RC_SANDBOX_SCRATCH_DIR''"

definition sandbox_command ::
    "string \<Rightarrow> string list \<Rightarrow> (string \<Rightarrow> string list) \<Rightarrow> int \<times> int \<Rightarrow> string \<Rightarrow> start_options \<Rightarrow> exec_cmd" where
  "sandbox_command agentBinary shell environ ids scratchDir opts =
     \<lparr>ec_path = agentBinary,
      ec_args = [''--landlock-exec'', ''--''] @ shell @ [so_Command opts],
      ec_dir = so_Cwd opts,
      ec_env = Some (environ (so_Cwd opts) @ env_entries (so_Env opts) @
                     [scratchDirEnvVar @ ''='' @ scratchDir]),
      ec_setpgid = True, ec_cloneflags = [CLONE_NEWUSER, CLONE_NEWNET],
      ec_uid_maps = [\<lparr>im_ContainerID = 0, im_HostID = fst ids, im_Size = 1\<rparr>],
      ec_gid_maps = [\<lparr>im_ContainerID = 0, im_HostID = snd ids, im_Size = 1\<rparr>]\<rparr>"

definition RemoveAll :: "string \<Rightarrow> os_world \<Rightarrow> os_world" where
  "RemoveAll dir w = w\<lparr>ow_scratch := removeAll dir (ow_scratch w)\<rparr>"

text \<open>The outcomes of a sandboxed start: also of \<open>os.MkdirTemp\<close> and of the status pipe.\<close>

record sandbox_outcome = start_outcome +
  sb_mkdirtemp :: "string + string"
  sb_pipe_err :: "string option"

record sandboxed_handle =
  sh_pid :: int
  sh_io :: stdio
  sh_status :: nat
  sh_scratchDir :: string

definition sandbox_start ::
    "sandbox_outcome \<Rightarrow> os_world \<Rightarrow> (string + sandboxed_handle) \<times> os_world" where
  "sandbox_start os w =
     (case sb_mkdirtemp os of Inl err \<Rightarrow> (Inl err, w) | Inr scratchDir \<Rightarrow>
      let w = w\<lparr>ow_scratch := scratchDir # ow_scratch w\<rparr> in
     (case stdio_pipes os w of (Inl err, w) \<Rightarrow> (Inl err, RemoveAll scratchDir w) | (Inr io, w) \<Rightarrow>
     (case os_Pipe (sb_pipe_err os) w of (Inl err, w) \<Rightarrow> (Inl err, RemoveAll scratchDir w) | (Inr status, w) \<Rightarrow>
     (case cmd_Start (so_start os) io w of
        (Inl err, w) \<Rightarrow> (Inl err, RemoveAll scratchDir (close_ends [ReadEnd status, WriteEnd status] w))
      | (Inr pid, w) \<Rightarrow>
          (Inr \<lparr>sh_pid = pid, sh_io = io, sh_status = status, sh_scratchDir = scratchDir\<rparr>,
           close_ends [WriteEnd status] w)))))"

text \<open>
  The end of a sandboxed process: \<open>statusData\<close> is what the status pipe delivers until its end;
  an error of removing the scratch directory is logged and leaves it in place.
\<close>

definition sandbox_wait ::
    "sandboxed_handle \<Rightarrow> string + wait_status \<Rightarrow> bytes \<Rightarrow> string option \<Rightarrow> os_world \<Rightarrow>
     exit_result \<times> os_world" where
  "sandbox_wait h st statusData remove_err w =
     (let w = close_ends [ReadEnd (sh_status h)] w;
          setupFailed = (length statusData > 0);
          w = (if remove_err = None then RemoveAll (sh_scratchDir h) w else w)
      in (case st of
            Inl err \<Rightarrow> (\<lparr>er_ExitCode = 0, er_Err = Some (''wait: '' @ err),
                         er_SandboxSetupFailed = setupFailed\<rparr>, w)
          | Inr s \<Rightarrow> (\<lparr>er_ExitCode = status_ExitCode s, er_Err = None,
                       er_SandboxSetupFailed = setupFailed\<rparr>, w)))"

definition sandboxed_CloseIO :: "sandboxed_handle \<Rightarrow> os_world \<Rightarrow> os_world" where
  "sandboxed_CloseIO h w = close_ends (parent_ends (sh_io h)) w"

section \<open>Termination of a process group\<close>

text \<open>
  \<open>kill n sig\<close> is the result of the \<open>n\<close>th \<open>kill(-pgid, sig)\<close> of the call. The loop selects
  between the deadline and a 20 ms tick; which of them fires next is given as a list, and the
  result is \<open>None\<close> while the list has not led to a return. The second component is the
  signals sent.
\<close>

datatype signal = SIGTERM | SIGKILL | Signal0

datatype errno = ESRCH | EPERM | Errno int

datatype select_arm = Tick | Deadline

fun terminate_loop ::
    "(nat \<Rightarrow> signal \<Rightarrow> errno option) \<Rightarrow> nat \<Rightarrow> select_arm list \<Rightarrow> (errno option \<times> signal list) option" where
  "terminate_loop kill n [] = None"
| "terminate_loop kill n (Deadline # arms) =
     (let err = kill n SIGKILL
      in if err \<noteq> None \<and> err \<noteq> Some ESRCH then Some (err, [SIGKILL]) else Some (None, [SIGKILL]))"
| "terminate_loop kill n (Tick # arms) =
     (if kill n Signal0 = Some ESRCH then Some (None, [Signal0])
      else (case terminate_loop kill (Suc n) arms of
              None \<Rightarrow> None
            | Some (err, sigs) \<Rightarrow> Some (err, Signal0 # sigs)))"

definition handle_Terminate ::
    "(nat \<Rightarrow> signal \<Rightarrow> errno option) \<Rightarrow> select_arm list \<Rightarrow> (errno option \<times> signal list) option" where
  "handle_Terminate kill arms =
     (let err = kill 0 SIGTERM
      in if err \<noteq> None \<and> err \<noteq> Some ESRCH then Some (err, [SIGTERM])
         else (case terminate_loop kill 1 arms of
                 None \<Rightarrow> None
               | Some (err, sigs) \<Rightarrow> Some (err, SIGTERM # sigs)))"

text \<open>The sandboxed handle repeats the loop word for word.\<close>

definition sandboxed_Terminate ::
    "(nat \<Rightarrow> signal \<Rightarrow> errno option) \<Rightarrow> select_arm list \<Rightarrow> (errno option \<times> signal list) option" where
  "sandboxed_Terminate kill arms = handle_Terminate kill arms"

text \<open>
  The deadline, in nanoseconds after the call: \<open>time.Duration(graceMs) * time.Millisecond\<close>, a
  64-bit product. A timer of a non-positive duration fires at once.
\<close>

definition grace_ns :: "int \<Rightarrow> int" where
  "grace_ns graceMs = i64 (graceMs * 1000000)"

text \<open>
  The arms that can fire: some number of ticks (one every 20 ms while the deadline is ahead),
  then the deadline.
\<close>

definition arms_for :: "nat \<Rightarrow> select_arm list" where
  "arms_for ticks = replicate ticks Tick @ [Deadline]"

section \<open>The contract of a process backend\<close>

text \<open>
  What the handlers rely on whichever backend runs a command: the shell command is passed
  verbatim as the last argument, in the directory asked for, in a process group of its own
  (the group that termination signals), and the caller's environment is applied on top.
\<close>

locale process_backend =
  fixes command :: "start_options \<Rightarrow> exec_cmd option"
  assumes command_last: "command opts = Some c \<Longrightarrow> ec_args c \<noteq> [] \<and> last (ec_args c) = so_Command opts"
    and command_dir: "command opts = Some c \<Longrightarrow> ec_dir c = so_Cwd opts"
    and command_group: "command opts = Some c \<Longrightarrow> ec_setpgid c"
    and command_env: "command opts = Some c \<Longrightarrow> so_Env opts \<noteq> [] \<Longrightarrow>
      \<exists>before after. ec_env c = Some (before @ env_entries (so_Env opts) @ after)"
begin

lemma command_injective:
  assumes "command o1 = Some c" and "command o2 = Some c"
  shows "so_Command o1 = so_Command o2 \<and> so_Cwd o1 = so_Cwd o2"
  using command_last [OF assms(1)] command_last [OF assms(2)]
    command_dir [OF assms(1)] command_dir [OF assms(2)] by simp

lemma caller_value_visible:
  assumes c: "command opts = Some c" and env: "so_Env opts = env @ [(k, v)]" and k: "CHR ''='' \<notin> set k"
  shows "\<exists>before after. ec_env c = Some (before @ after) \<and> env_lookup before k = Some v"
proof -
  have ne: "so_Env opts \<noteq> []" by (simp add: env)
  obtain before after where "ec_env c = Some (before @ env_entries (so_Env opts) @ after)"
    using command_env [OF c ne] by blast
  then have "ec_env c = Some (((before @ env_entries env) @ [k @ ''='' @ v]) @ after)"
    by (simp add: env env_entries_def)
  then show ?thesis using env_lookup_last [OF k] by blast
qed

end

interpretation linux: process_backend "linux_command (shell0 # flags) environ" for shell0 flags environ
  by unfold_locales (auto simp: linux_command_def intro: exI [of _ "[]"])

interpretation sandboxed: process_backend "\<lambda>opts. Some (sandbox_command bin shell environ ids dir opts)"
  for bin shell environ ids dir
  by unfold_locales (auto simp: sandbox_command_def)

section \<open>Properties\<close>

text \<open>Every open end belongs to a pipe that was made, and the ends and scratch directories of a start are new.\<close>

fun pipe_of :: "pipe_end \<Rightarrow> nat" where
  "pipe_of (ReadEnd n) = n"
| "pipe_of (WriteEnd n) = n"

definition world_ok :: "os_world \<Rightarrow> bool" where
  "world_ok w \<longleftrightarrow> (\<forall>e \<in> set (ow_open w). pipe_of e < ow_pipes w)"

lemma world_ok_fresh [simp]:
  "world_ok w \<Longrightarrow> ow_pipes w \<le> n \<Longrightarrow> ReadEnd n \<notin> set (ow_open w) \<and> WriteEnd n \<notin> set (ow_open w)"
  by (force simp: world_ok_def)

definition both_ends :: "nat \<Rightarrow> pipe_end list" where
  "both_ends n = [ReadEnd n, WriteEnd n]"

text \<open>
  A failure at a later pipe leaves the pipes made so far; \<open>pipes_left\<close> are those \<open>k\<close> pipes' ends.
\<close>

definition pipes_left :: "nat \<Rightarrow> os_world \<Rightarrow> pipe_end list" where
  "pipes_left k w = concat (map both_ends (rev [ow_pipes w..<ow_pipes w + k]))"

lemma pipes_left_simps [simp]:
  "pipes_left 0 w = []"
  "pipes_left (Suc k) w = ReadEnd (ow_pipes w + k) # WriteEnd (ow_pipes w + k) # pipes_left k w"
  by (simp_all add: pipes_left_def both_ends_def)

lemma pipes_left_numerals [simp]:
  "pipes_left 2 w = pipes_left (Suc (Suc 0)) w" "pipes_left 3 w = pipes_left (Suc (Suc (Suc 0))) w"
  by (simp_all only: numeral_2_eq_2 numeral_3_eq_3)

text \<open>
  Whatever environment a caller of command.read passes, the sandboxed child finds the scratch
  directory its parent created under the reserved variable: no key, not even one that contains
  an equals sign, can redirect the one writable directory of the sandbox.
\<close>

theorem sandbox_scratch_not_overridable:
  "\<exists>env. ec_env (sandbox_command bin shell environ ids dir opts) = Some env \<and>
     env_lookup env scratchDirEnvVar = Some dir"
  using env_lookup_last [of scratchDirEnvVar "environ (so_Cwd opts) @ env_entries (so_Env opts)" dir]
  by (simp add: sandbox_command_def scratchDirEnvVar_def)

lemma old_end [simp]: "pipe_of e < n \<Longrightarrow> n \<le> m \<Longrightarrow> e \<noteq> ReadEnd m \<and> e \<noteq> WriteEnd m"
  by auto

lemma filter_open [simp]:
  "world_ok w \<Longrightarrow> (\<And>e. pipe_of e < ow_pipes w \<Longrightarrow> P e) \<Longrightarrow> filter P (ow_open w) = ow_open w"
  by (rule filter_True) (simp add: world_ok_def)

lemma linux_start_cases:
  assumes "world_ok w"
  shows "case linux_start os w of
      (Inl err, w') \<Rightarrow> ow_scratch w' = ow_scratch w \<and>
        (\<exists>k < 3. ow_open w' = pipes_left k w @ ow_open w \<and>
           (k = 0 \<or> so_stderr_err os \<noteq> None \<or> so_stdin_err os \<noteq> None))
    | (Inr h, w') \<Rightarrow> ow_scratch w' = ow_scratch w \<and>
        ow_open w' = rev (parent_ends (lh_io h)) @ ow_open w \<and>
        ow_open (linux_CloseIO h w') = ow_open w \<and> so_start os = Inr (lh_pid h)"
proof (cases "so_stdout_err os")
  case (Some e)
  then show ?thesis by (auto simp: linux_start_def stdio_pipes_def os_Pipe_def intro!: exI [of _ "0 :: nat"])
next
  case o: None
  show ?thesis
  proof (cases "so_stderr_err os")
    case (Some e)
    with o show ?thesis by (auto simp: linux_start_def stdio_pipes_def os_Pipe_def intro!: exI [of _ "Suc 0"])
  next
    case e: None
    show ?thesis
    proof (cases "so_stdin_err os")
      case (Some x)
      with o e show ?thesis by (auto simp: linux_start_def stdio_pipes_def os_Pipe_def intro!: exI [of _ "2 :: nat"])
    next
      case None
      with o e show ?thesis using assms
        by (auto simp: linux_start_def stdio_pipes_def os_Pipe_def cmd_Start_def close_ends_def child_ends_def
          parent_ends_def linux_CloseIO_def split: sum.split)
    qed
  qed
qed

lemma sandbox_start_cases:
  assumes "world_ok w" and "\<And>d. sb_mkdirtemp os = Inr d \<Longrightarrow> d \<notin> set (ow_scratch w)"
  shows "case sandbox_start os w of
      (Inl err, w') \<Rightarrow> ow_scratch w' = ow_scratch w \<and>
        (\<exists>k < 4. ow_open w' = pipes_left k w @ ow_open w \<and>
           (k = 0 \<or> so_stderr_err os \<noteq> None \<or> so_stdin_err os \<noteq> None \<or> sb_pipe_err os \<noteq> None))
    | (Inr h, w') \<Rightarrow> ow_scratch w' = sh_scratchDir h # ow_scratch w \<and> sh_scratchDir h \<notin> set (ow_scratch w) \<and>
        ow_open w' = ReadEnd (sh_status h) # rev (parent_ends (sh_io h)) @ ow_open w \<and>
        ow_open (sandboxed_CloseIO h (snd (sandbox_wait h st statusData None w'))) = ow_open w"
proof (cases "sb_mkdirtemp os")
  case d: (Inr d)
  note dir = assms(2) [OF d]
  note defs = d sandbox_start_def stdio_pipes_def os_Pipe_def RemoveAll_def
  show ?thesis
  proof (cases "so_stdout_err os")
    case (Some e)
    with dir show ?thesis by (auto simp: defs intro!: exI [of _ "0 :: nat"])
  next
    case o: None
    show ?thesis
    proof (cases "so_stderr_err os")
      case (Some e)
      with o dir show ?thesis by (auto simp: defs intro!: exI [of _ "Suc 0"])
    next
      case e: None
      show ?thesis
      proof (cases "so_stdin_err os")
        case (Some x)
        with o e dir show ?thesis by (auto simp: defs intro!: exI [of _ "2 :: nat"])
      next
        case i: None
        show ?thesis
        proof (cases "sb_pipe_err os")
          case (Some x)
          with o e i dir show ?thesis by (auto simp: defs intro!: exI [of _ "3 :: nat"])
        next
          case None
          with o e i dir show ?thesis using assms(1)
            by (auto simp: defs cmd_Start_def close_ends_def child_ends_def parent_ends_def sandboxed_CloseIO_def
              sandbox_wait_def Let_def split: sum.split)
        qed
      qed
    qed
  qed
qed (auto simp: sandbox_start_def intro!: exI [of _ "0 :: nat"])

text \<open>
  C12. No backend leaks a directory or a descriptor but for one window. A start that fails leaves no scratch
  directory behind; it leaves open pipe ends only if making a pipe failed, and then those of the
  pipes made before it, three at most. One that succeeds holds the three ends of the
  child's standard streams, and the sandboxed one a scratch directory and the status pipe's read
  end; \<open>Wait\<close> and \<open>CloseIO\<close> give all of it back.
\<close>

theorem backends_release_everything:
  assumes "world_ok w" and "\<forall>d. sb_mkdirtemp sos = Inr d \<longrightarrow> d \<notin> set (ow_scratch w)"
  shows "(case linux_start los w of
      (Inl err, w') \<Rightarrow> ow_scratch w' = ow_scratch w \<and>
        (\<exists>k < 3. ow_open w' = pipes_left k w @ ow_open w \<and>
           (k = 0 \<or> so_stderr_err los \<noteq> None \<or> so_stdin_err los \<noteq> None))
    | (Inr h, w') \<Rightarrow> ow_scratch w' = ow_scratch w \<and> ow_open w' = rev (parent_ends (lh_io h)) @ ow_open w \<and>
        ow_open (linux_CloseIO h w') = ow_open w) \<and>
    (case sandbox_start sos w of
      (Inl err, w') \<Rightarrow> ow_scratch w' = ow_scratch w \<and>
        (\<exists>k < 4. ow_open w' = pipes_left k w @ ow_open w \<and>
           (k = 0 \<or> so_stderr_err sos \<noteq> None \<or> so_stdin_err sos \<noteq> None \<or> sb_pipe_err sos \<noteq> None))
    | (Inr h, w') \<Rightarrow> ow_scratch w' = sh_scratchDir h # ow_scratch w \<and>
        ow_open w' = ReadEnd (sh_status h) # rev (parent_ends (sh_io h)) @ ow_open w \<and>
        (let w'' = sandboxed_CloseIO h (snd (sandbox_wait h st statusData None w'))
         in ow_open w'' = ow_open w \<and> ow_scratch w'' = ow_scratch w))"
proof -
  have scratch: "ow_scratch (sandboxed_CloseIO h (snd (sandbox_wait h st statusData None w'))) = removeAll (sh_scratchDir h) (ow_scratch w')"
    for h w' by (simp add: sandboxed_CloseIO_def sandbox_wait_def close_ends_def RemoveAll_def Let_def split: sum.split)
  show ?thesis
    using linux_start_cases [OF assms(1), of los] sandbox_start_cases [OF assms(1), of sos st statusData] assms(2)
    by (auto simp: scratch removeAll_id Let_def split: prod.splits sum.splits)
qed

theorem backends_release_everything_witness:
  "let os = \<lparr>so_stdout_err = None, so_stderr_err = None, so_stdin_err = None, so_start = Inr 42,
             sb_mkdirtemp = Inr ''/tmp/rc-sandbox-1'', sb_pipe_err = None\<rparr>;
       w = \<lparr>ow_scratch = [''/tmp/rc-sandbox-0''], ow_open = [ReadEnd 0], ow_pipes = 1\<rparr>
   in case sandbox_start os w of
        (Inr h, w') \<Rightarrow> ow_open (sandboxed_CloseIO h (snd (sandbox_wait h (Inr (Exited 111)) [] None w'))) = [ReadEnd 0]
      | _ \<Rightarrow> False"
proof -
  let ?os = "\<lparr>so_stdout_err = None, so_stderr_err = None, so_stdin_err = None, so_start = Inr 42,
             sb_mkdirtemp = Inr ''/tmp/rc-sandbox-1'', sb_pipe_err = None\<rparr>"
  let ?w = "\<lparr>ow_scratch = [''/tmp/rc-sandbox-0''], ow_open = [ReadEnd 0], ow_pipes = 1\<rparr>"
  let ?los = "\<lparr>so_stdout_err = None, so_stderr_err = Some ''EMFILE'', so_stdin_err = None, so_start = Inr 42\<rparr>"
  have ok: "world_ok ?w" and fresh: "\<forall>d. sb_mkdirtemp ?os = Inr d \<longrightarrow> d \<notin> set (ow_scratch ?w)"
    by (simp_all add: world_ok_def)
  have "\<exists>h w'. sandbox_start ?os ?w = (Inr h, w')"
    by (simp add: sandbox_start_def stdio_pipes_def os_Pipe_def cmd_Start_def)
  then show ?thesis
    using backends_release_everything [OF ok fresh, of ?los "Inr (Exited 111)" "[]"] by (auto simp: Let_def)
qed

text \<open>Facts about the termination loop, by induction over the arms that fire.\<close>

lemma terminate_loop_total: "Deadline \<in> set arms \<Longrightarrow> \<exists>r. terminate_loop kill n arms = Some r"
proof (induction kill n arms rule: terminate_loop.induct)
  case (3 kill n arms)
  then show ?case by (cases "kill n Signal0 = Some ESRCH") auto
qed (auto simp: Let_def)

text \<open>\<open>tick_count arms\<close> is the number of ticks before the first deadline.\<close>

definition tick_count :: "select_arm list \<Rightarrow> nat" where
  "tick_count arms = length (takeWhile (\<lambda>a. a = Tick) arms)"

lemma terminate_loop_result:
  "terminate_loop kill n arms = Some (err, sigs) \<Longrightarrow>
   (\<exists>m. m < tick_count arms \<and> (\<forall>j < m. kill (n + j) Signal0 \<noteq> Some ESRCH) \<and>
        kill (n + m) Signal0 = Some ESRCH \<and> err = None \<and> sigs = replicate (Suc m) Signal0) \<or>
   ((\<forall>j < tick_count arms. kill (n + j) Signal0 \<noteq> Some ESRCH) \<and>
    sigs = replicate (tick_count arms) Signal0 @ [SIGKILL] \<and>
    err = (if kill (n + tick_count arms) SIGKILL = Some ESRCH then None
           else kill (n + tick_count arms) SIGKILL))"
proof (induction kill n arms arbitrary: sigs rule: terminate_loop.induct)
  case (1 kill n)
  then show ?case by simp
next
  case (2 kill n arms)
  then show ?case by (auto simp: tick_count_def Let_def split: if_splits)
next
  case (3 kill n arms)
  have tc: "tick_count (Tick # arms) = Suc (tick_count arms)" by (simp add: tick_count_def)
  show ?case
  proof (cases "kill n Signal0 = Some ESRCH")
    case True
    then show ?thesis using "3.prems" by (auto simp: tc intro!: exI [of _ 0])
  next
    case False
    then obtain sigs' where s: "terminate_loop kill (Suc n) arms = Some (err, sigs')" "sigs = Signal0 # sigs'"
      using "3.prems" by (auto split: option.splits)
    show ?thesis
      using "3.IH" [OF False s(1)]
    proof (elim disjE exE conjE)
      fix m
      assume "m < tick_count arms" "\<forall>j<m. kill (Suc n + j) Signal0 \<noteq> Some ESRCH"
        "kill (Suc n + m) Signal0 = Some ESRCH" "err = None" "sigs' = replicate (Suc m) Signal0"
      then show ?thesis using False s(2)
        by (intro disjI1 exI [of _ "Suc m"]) (simp add: tc All_less_Suc2)
    next
      assume "\<forall>j<tick_count arms. kill (Suc n + j) Signal0 \<noteq> Some ESRCH"
        "sigs' = replicate (tick_count arms) Signal0 @ [SIGKILL]"
        "err = (if kill (Suc n + tick_count arms) SIGKILL = Some ESRCH then None
           else kill (Suc n + tick_count arms) SIGKILL)"
      then show ?thesis using False s(2) by (intro disjI2) (simp add: tc All_less_Suc2)
    qed
  qed
qed

lemma tick_count_arms_for [simp]: "tick_count (arms_for ticks) = ticks"
  by (simp add: tick_count_def arms_for_def takeWhile_append)

text \<open>
  C13. Termination of a process group always returns, and is graceful before it is forced. Three
  ends are possible: SIGTERM is refused, and its error is the result; some probe of the grace
  period finds the group gone (every earlier one found it alive), and the result is nil without
  a SIGKILL; or every probe finds it alive until the deadline, and one SIGKILL ends the call,
  whose error counts unless it says that nothing was left to kill.
\<close>

theorem terminate_graceful_then_forced:
  "\<exists>err sigs. handle_Terminate kill (arms_for ticks) = Some (err, sigs) \<and>
     (if kill 0 SIGTERM \<notin> {None, Some ESRCH}
      then err = kill 0 SIGTERM \<and> sigs = [SIGTERM]
      else (\<exists>m < ticks. (\<forall>j < m. kill (Suc j) Signal0 \<noteq> Some ESRCH) \<and>
              kill (Suc m) Signal0 = Some ESRCH \<and> err = None \<and>
              sigs = SIGTERM # replicate (Suc m) Signal0) \<or>
           (\<forall>j < ticks. kill (Suc j) Signal0 \<noteq> Some ESRCH) \<and>
              sigs = SIGTERM # replicate ticks Signal0 @ [SIGKILL] \<and>
              err = (if kill (Suc ticks) SIGKILL = Some ESRCH then None else kill (Suc ticks) SIGKILL))"
proof (cases "kill 0 SIGTERM \<noteq> None \<and> kill 0 SIGTERM \<noteq> Some ESRCH")
  case True
  then show ?thesis by (auto simp: handle_Terminate_def)
next
  case False
  obtain err sigs where l: "terminate_loop kill 1 (arms_for ticks) = Some (err, sigs)"
    using terminate_loop_total [of "arms_for ticks" kill 1] by (auto simp: arms_for_def)
  then have "handle_Terminate kill (arms_for ticks) = Some (err, SIGTERM # sigs)"
    using False by (auto simp: handle_Terminate_def Let_def)
  moreover have "kill 0 SIGTERM \<in> {None, Some ESRCH}" using False by auto
  ultimately show ?thesis
    using terminate_loop_result [OF l, unfolded tick_count_arms_for] by (auto simp del: if_split)
qed

theorem terminate_graceful_then_forced_witness:
  "\<exists>err sigs. handle_Terminate (\<lambda>n sig. if n < 3 then None else Some ESRCH) (arms_for 2) = Some (err, sigs) \<and>
     sigs = [SIGTERM, Signal0, Signal0, SIGKILL] \<and> err = None"
proof -
  have "\<not> (\<exists>m < (2 :: nat). (if Suc m < 3 then None else Some ESRCH) = Some ESRCH)"
    by (auto simp: numeral_2_eq_2 less_Suc_eq)
  then show ?thesis
    using terminate_graceful_then_forced [of "\<lambda>n sig. if n < 3 then None else Some ESRCH" 2]
    by (auto simp: numeral_2_eq_2)
qed

text \<open>The outcome in brief, as the handlers use it.\<close>

lemma handle_Terminate_summary:
  "\<exists>err sigs. handle_Terminate kill (arms_for ticks) = Some (err, sigs) \<and> hd sigs = SIGTERM \<and>
     SIGKILL \<notin> set (butlast sigs) \<and>
     (err = None \<or> (\<exists>e n sg. kill n sg = Some e \<and> e \<noteq> ESRCH \<and> err = Some e)) \<and>
     (err = None \<longrightarrow> (\<exists>n. kill n Signal0 = Some ESRCH) \<or> last sigs = SIGKILL)"
proof (cases "kill 0 SIGTERM \<noteq> None \<and> kill 0 SIGTERM \<noteq> Some ESRCH")
  case True
  then show ?thesis by (auto simp: handle_Terminate_def)
next
  case False
  obtain err sigs where l: "terminate_loop kill 1 (arms_for ticks) = Some (err, sigs)"
    using terminate_loop_total [of "arms_for ticks" kill 1] by (auto simp: arms_for_def)
  have kills: "butlast (SIGTERM # replicate n Signal0 @ [SIGKILL]) = SIGTERM # replicate n Signal0" for n
    using butlast_snoc [of "SIGTERM # replicate n Signal0" SIGKILL] by simp
  have probes: "SIGKILL \<notin> set (SIGTERM # replicate n Signal0)" for n by simp
  have b: "SIGKILL \<notin> set (butlast (SIGTERM # sigs))"
    using terminate_loop_result [OF l] kills probes by (metis in_set_butlastD)
  have e: "err = None \<or> (\<exists>e n sg. kill n sg = Some e \<and> e \<noteq> ESRCH \<and> err = Some e)"
  proof (cases err)
    case (Some x)
    then have "(\<exists>n sg. kill n sg = Some x) \<and> x \<noteq> ESRCH"
      using terminate_loop_result [OF l] by (metis option.inject option.distinct(1))
    then show ?thesis using Some by blast
  qed simp
  have g: "(\<exists>n. kill n Signal0 = Some ESRCH) \<or> last (SIGTERM # sigs) = SIGKILL"
    using terminate_loop_result [OF l] by fastforce
  have t: "handle_Terminate kill (arms_for ticks) = Some (err, SIGTERM # sigs)"
    using False l by (auto simp: handle_Terminate_def Let_def)
  have h: "hd (SIGTERM # sigs) = SIGTERM" by simp
  show ?thesis using t h b e g by blast
qed

text \<open>
  The grace period a caller asks for is not bounded: from 9223372036855 ms on, the product wraps
  to a negative duration and the deadline fires at once.
\<close>

lemma grace_overflow: "grace_ns 9223372036855 < 0"
  by (simp add: grace_ns_def i64_def)

end
