(* ===== verification/ProcessMgr.thy ===== *)
theory ProcessMgr
  imports RingBuffer Backend Clock
begin

text \<open>
  Managed processes (agent/processmgr.go): the record of one process with the three
  goroutines that serve it as a step relation, and the Manager that tracks records by an
  opaque id. Records live in a store, a list whose index is the address of the record: a
  handler that holds a \<open>*ProcessRecord\<close> holds the address, and keeps it when the Manager
  forgets the id.
\<close>

section \<open>A process record and its goroutines\<close>

text \<open>
  Where the goroutine that awaits the exit is: blocked in \<open>h.Wait()\<close>; in the select between
  \<open>drained\<close> and the grace timer; about to close the pipes; blocked on \<open>drained\<close>; with the
  result written; past \<open>close(rec.done)\<close>.
\<close>

datatype waiter =
  InWait | InSelect exit_result | BeforeCloseIO exit_result | OnDrained exit_result | Published | Finished

record process_record =
  pr_ID :: string
  pr_OSPID :: int
  pr_StartedAt :: go_time
  pr_Stdout :: ring_buffer
  pr_Stderr :: ring_buffer
  pr_exitCode :: "int option"
  pr_exitErr :: "string option"
  pr_sandboxSetupFailed :: bool
  pr_done :: bool
  pr_finished :: go_time
  pr_out_copying :: bool
  pr_err_copying :: bool
  pr_io_closed :: bool
  pr_waiter :: waiter

definition new_record :: "string \<Rightarrow> int \<Rightarrow> go_time \<Rightarrow> int \<Rightarrow> int \<Rightarrow> process_record" where
  "new_record pid ospid now stdoutCap stderrCap =
     \<lparr>pr_ID = pid, pr_OSPID = ospid, pr_StartedAt = now,
      pr_Stdout = NewRingBuffer stdoutCap, pr_Stderr = NewRingBuffer stderrCap,
      pr_exitCode = None, pr_exitErr = None, pr_sandboxSetupFailed = False,
      pr_done = False, pr_finished = zero_time,
      pr_out_copying = True, pr_err_copying = True, pr_io_closed = False, pr_waiter = InWait\<rparr>"

text \<open>
  The events: a chunk copied from a pipe, the end of a copy (end of file, an error, or the
  closed pipe), the exit reported by the handle, the two arms of the select, \<open>CloseIO\<close>, the
  write of the result, and the close of \<open>done\<close>.
\<close>

datatype proc_event =
  OutChunk bytes | OutEnd | ErrChunk bytes | ErrEnd | ExitSeen exit_result
  | DrainedArm | GraceArm | CloseIO | PublishResult go_time | CloseDone

definition publish :: "exit_result \<Rightarrow> go_time \<Rightarrow> process_record \<Rightarrow> process_record" where
  "publish res now r =
     (case er_Err res of
        None \<Rightarrow> r\<lparr>pr_exitCode := Some (er_ExitCode res)\<rparr>
      | Some err \<Rightarrow> r\<lparr>pr_exitErr := Some err\<rparr>)
     \<lparr>pr_sandboxSetupFailed := er_SandboxSetupFailed res, pr_finished := now, pr_waiter := Published\<rparr>"

inductive proc_step :: "process_record \<Rightarrow> proc_event \<Rightarrow> process_record \<Rightarrow> bool" where
  out_chunk: "pr_out_copying r \<Longrightarrow> rb_Write (pr_Stdout r) p = Some (rb, n) \<Longrightarrow>
    proc_step r (OutChunk p) (r\<lparr>pr_Stdout := rb\<rparr>)"
| out_end: "pr_out_copying r \<Longrightarrow> proc_step r OutEnd (r\<lparr>pr_out_copying := False\<rparr>)"
| err_chunk: "pr_err_copying r \<Longrightarrow> rb_Write (pr_Stderr r) p = Some (rb, n) \<Longrightarrow>
    proc_step r (ErrChunk p) (r\<lparr>pr_Stderr := rb\<rparr>)"
| err_end: "pr_err_copying r \<Longrightarrow> proc_step r ErrEnd (r\<lparr>pr_err_copying := False\<rparr>)"
| exit_seen: "pr_waiter r = InWait \<Longrightarrow> proc_step r (ExitSeen res) (r\<lparr>pr_waiter := InSelect res\<rparr>)"
| drained_arm: "pr_waiter r = InSelect res \<Longrightarrow> \<not> pr_out_copying r \<Longrightarrow> \<not> pr_err_copying r \<Longrightarrow>
    proc_step r DrainedArm (r\<lparr>pr_waiter := BeforeCloseIO res\<rparr>)"
| grace_arm: "pr_waiter r = InSelect res \<Longrightarrow>
    proc_step r GraceArm (r\<lparr>pr_waiter := BeforeCloseIO res\<rparr>)"
| close_io: "pr_waiter r = BeforeCloseIO res \<Longrightarrow>
    proc_step r CloseIO (r\<lparr>pr_io_closed := True, pr_waiter := OnDrained res\<rparr>)"
| publish_result: "pr_waiter r = OnDrained res \<Longrightarrow> \<not> pr_out_copying r \<Longrightarrow> \<not> pr_err_copying r \<Longrightarrow>
    proc_step r (PublishResult now) (publish res now r)"
| close_done: "pr_waiter r = Published \<Longrightarrow>
    proc_step r CloseDone (r\<lparr>pr_done := True, pr_waiter := Finished\<rparr>)"

inductive_simps proc_step_simps [simp]:
  "proc_step r (OutChunk p) r'" "proc_step r OutEnd r'" "proc_step r (ErrChunk p) r'"
  "proc_step r ErrEnd r'" "proc_step r (ExitSeen res) r'" "proc_step r DrainedArm r'"
  "proc_step r GraceArm r'" "proc_step r CloseIO r'" "proc_step r (PublishResult now) r'"
  "proc_step r CloseDone r'"

inductive_cases proc_stepE: "proc_step r ev r'"

inductive proc_run :: "process_record \<Rightarrow> proc_event list \<Rightarrow> process_record \<Rightarrow> bool" where
  run_nil: "proc_run r [] r"
| run_snoc: "proc_run r evs r' \<Longrightarrow> proc_step r' ev r'' \<Longrightarrow> proc_run r (evs @ [ev]) r''"

text \<open>A copy goroutine panics when its write does: an unrecovered panic that ends the Agent.\<close>

definition copy_panics :: "process_record \<Rightarrow> bytes \<Rightarrow> bool" where
  "copy_panics r p \<longleftrightarrow>
     pr_out_copying r \<and> rb_Write (pr_Stdout r) p = None \<or>
     pr_err_copying r \<and> rb_Write (pr_Stderr r) p = None"

section \<open>Reading a record\<close>

definition rec_Exited :: "process_record \<Rightarrow> bool" where
  "rec_Exited r = pr_done r"

definition rec_ExitCode :: "process_record \<Rightarrow> int option" where
  "rec_ExitCode r = pr_exitCode r"

definition rec_SandboxSetupFailed :: "process_record \<Rightarrow> bool" where
  "rec_SandboxSetupFailed r = pr_sandboxSetupFailed r"

text \<open>
  \<open>Wait\<close> selects between \<open>done\<close> and the context; \<open>None\<close> says that the chosen arm is not ready.
\<close>

datatype wait_arm = ArmDone | ArmCtx

definition rec_Wait :: "process_record \<Rightarrow> bool \<Rightarrow> wait_arm \<Rightarrow> (int option \<times> bool) option" where
  "rec_Wait r ctxDone arm =
     (case arm of
        ArmDone \<Rightarrow> if pr_done r then Some (rec_ExitCode r, False) else None
      | ArmCtx \<Rightarrow> if ctxDone then Some (None, True) else None)"

section \<open>The Manager\<close>

type_synonym store = "process_record list"

record manager =
  mg_stdoutCap :: int
  mg_stderrCap :: int
  mg_finishedTTL :: int
  mg_procs :: "(string, nat) gomap"

definition NewManager :: "int \<Rightarrow> int \<Rightarrow> int \<Rightarrow> manager" where
  "NewManager stdoutCap stderrCap finishedTTL =
     \<lparr>mg_stdoutCap = stdoutCap, mg_stderrCap = stderrCap, mg_finishedTTL = finishedTTL, mg_procs = []\<rparr>"

definition mgr_put :: "string \<Rightarrow> nat \<Rightarrow> manager \<Rightarrow> manager" where
  "mgr_put pid addr m = m\<lparr>mg_procs := gm_put pid addr (mg_procs m)\<rparr>"

definition mgr_delete :: "string \<Rightarrow> manager \<Rightarrow> manager" where
  "mgr_delete pid m = m\<lparr>mg_procs := gm_del pid (mg_procs m)\<rparr>"

text \<open>An id is 16 random bytes in hexadecimal.\<close>

definition newProcessID :: "bytes \<Rightarrow> string" where
  "newProcessID b = hex_encode b"

lemma newProcessID_distinct: "newProcessID b = newProcessID c \<longleftrightarrow> b = c"
  by (auto simp: newProcessID_def dest: hex_encode_inj)

text \<open>
  \<open>started\<close> is the result of the backend's \<open>Start\<close>; \<open>pid\<close> is the fresh process id (16 random bytes in
  hexadecimal). The result is the address of the new record.
\<close>

definition mgr_Start ::
    "manager \<Rightarrow> store \<Rightarrow> string + int \<Rightarrow> string \<Rightarrow> go_time \<Rightarrow> (string + nat) \<times> manager \<times> store" where
  "mgr_Start m heap started pid now =
     (case started of
        Inl err \<Rightarrow> (Inl err, m, heap)
      | Inr ospid \<Rightarrow>
          let r = new_record pid ospid now (mg_stdoutCap m) (mg_stderrCap m);
              addr = length heap
          in (Inr addr, mgr_put pid addr m, heap @ [r]))"

definition mgr_Get :: "manager \<Rightarrow> string \<Rightarrow> nat option" where
  "mgr_Get m pid = gm_get (mg_procs m) pid"

definition mgr_List :: "manager \<Rightarrow> nat list" where
  "mgr_List m = map snd (mg_procs m)"

datatype terminate_error = ProcessNotFound | KillFailed errno

text \<open>\<open>kill\<close> and \<open>arms\<close> are the environment of the handle's \<open>Terminate\<close> (theory Backend).\<close>

definition mgr_Terminate ::
    "manager \<Rightarrow> string \<Rightarrow> (nat \<Rightarrow> signal \<Rightarrow> errno option) \<Rightarrow> select_arm list \<Rightarrow>
     (terminate_error option \<times> signal list) option" where
  "mgr_Terminate m pid kill arms =
     (case mgr_Get m pid of
        None \<Rightarrow> Some (Some ProcessNotFound, [])
      | Some addr \<Rightarrow>
          map_option (\<lambda>(err, sigs). (map_option KillFailed err, sigs)) (handle_Terminate kill arms))"

text \<open>Every running process is terminated, concurrently; errors are logged. The processes signalled:\<close>

definition mgr_TerminateAll ::
    "manager \<Rightarrow> store \<Rightarrow> (nat \<Rightarrow> nat \<Rightarrow> signal \<Rightarrow> errno option) \<Rightarrow> (nat \<Rightarrow> select_arm list) \<Rightarrow>
     (nat \<times> (errno option \<times> signal list) option) list" where
  "mgr_TerminateAll m heap kill arms =
     map (\<lambda>a. (a, handle_Terminate (kill a) (arms a)))
       (filter (\<lambda>a. \<not> rec_Exited (heap ! a)) (mgr_List m))"

definition expired :: "manager \<Rightarrow> store \<Rightarrow> go_time \<Rightarrow> nat \<Rightarrow> bool" where
  "expired m heap now a \<longleftrightarrow>
     \<not> IsZero (pr_finished (heap ! a)) \<and> time_Sub now (pr_finished (heap ! a)) > mg_finishedTTL m"

text \<open>One tick of the garbage collector.\<close>

definition mgr_gc_tick :: "manager \<Rightarrow> store \<Rightarrow> go_time \<Rightarrow> manager" where
  "mgr_gc_tick m heap now =
     fold (\<lambda>(pid, a) m'. if expired m heap now a then mgr_delete pid m' else m') (mg_procs m) m"

section \<open>The lifecycle of one process\<close>

text \<open>What the goroutines keep true of a record.\<close>

definition proc_inv :: "process_record \<Rightarrow> bool" where
  "proc_inv r \<longleftrightarrow>
     (pr_done r \<longleftrightarrow> pr_waiter r = Finished) \<and>
     (pr_io_closed r \<longleftrightarrow> (\<exists>res. pr_waiter r = OnDrained res) \<or> pr_waiter r \<in> {Published, Finished}) \<and>
     (pr_waiter r \<in> {Published, Finished} \<longrightarrow> \<not> pr_out_copying r \<and> \<not> pr_err_copying r) \<and>
     (pr_waiter r \<notin> {Published, Finished} \<longrightarrow>
        pr_exitCode r = None \<and> pr_exitErr r = None \<and> pr_finished r = zero_time) \<and>
     (pr_waiter r \<in> {Published, Finished} \<longrightarrow> (pr_exitCode r = None \<longleftrightarrow> pr_exitErr r \<noteq> None))"

lemma proc_inv_new [inv_rules]: "proc_inv (new_record pid ospid now c1 c2)"
  by (simp add: proc_inv_def new_record_def)

lemma proc_inv_step [inv_rules]: "proc_step r ev r' \<Longrightarrow> proc_inv r \<Longrightarrow> proc_inv r'"
  by (induction rule: proc_step.induct) (auto simp: proc_inv_def publish_def split: option.splits)

lemma proc_inv_run [inv_rules]: "proc_run r evs r' \<Longrightarrow> proc_inv r \<Longrightarrow> proc_inv r'"
  by (induction rule: proc_run.induct) (auto intro: proc_inv_step)

text \<open>The bytes of a run, per stream.\<close>

fun out_bytes :: "proc_event list \<Rightarrow> bytes" where
  "out_bytes [] = []"
| "out_bytes (OutChunk p # evs) = p @ out_bytes evs"
| "out_bytes (ev # evs) = out_bytes evs"

fun err_bytes :: "proc_event list \<Rightarrow> bytes" where
  "err_bytes [] = []"
| "err_bytes (ErrChunk p # evs) = p @ err_bytes evs"
| "err_bytes (ev # evs) = err_bytes evs"

lemma out_bytes_append [simp]: "out_bytes (evs @ evs') = out_bytes evs @ out_bytes evs'"
  by (induction evs rule: out_bytes.induct) auto

lemma err_bytes_append [simp]: "err_bytes (evs @ evs') = err_bytes evs @ err_bytes evs'"
  by (induction evs rule: err_bytes.induct) auto

text \<open>A run is followed by a run.\<close>

lemma proc_run_trans: "proc_run r' evs' r'' \<Longrightarrow> proc_run r evs r' \<Longrightarrow> proc_run r (evs @ evs') r''"
proof (induction rule: proc_run.induct)
  case (run_nil r)
  then show ?case by simp
next
  case (run_snoc r evs r' ev r'')
  then show ?case by (metis append_assoc proc_run.run_snoc)
qed

lemma proc_run_Cons: "proc_step r ev r' \<Longrightarrow> proc_run r' evs r'' \<Longrightarrow> proc_run r (ev # evs) r''"
  using proc_run_trans [of r' evs r'' r "[ev]"] proc_run.run_snoc [OF proc_run.run_nil, of r ev r'] by simp

section \<open>The Manager as a table of processes\<close>

interpretation procs: keyed_table mgr_Get mgr_put mgr_delete "\<lambda>m. gm_ok (mg_procs m)"
  by unfold_locales (auto simp: mgr_Get_def mgr_put_def mgr_delete_def)

lemma mgr_delete_fields [simp]:
  "mg_finishedTTL (mgr_delete pid m) = mg_finishedTTL m"
  "mg_stdoutCap (mgr_delete pid m) = mg_stdoutCap m"
  "mg_stderrCap (mgr_delete pid m) = mg_stderrCap m"
  by (simp_all add: mgr_delete_def)

lemma mgr_gc_tick_removes:
  "mgr_gc_tick m heap now =
   fold mgr_delete (map fst (filter (\<lambda>(pid, a). expired m heap now a) (mg_procs m))) m"
proof -
  have "fold (\<lambda>(pid, a) m'. if P a then mgr_delete pid m' else m') kvs m' =
      fold mgr_delete (map fst (filter (\<lambda>(pid, a). P a) kvs)) m'" for P kvs m'
    by (induction kvs arbitrary: m') auto
  then show ?thesis by (simp add: mgr_gc_tick_def)
qed

lemma mgr_gc_tick_ok [inv_rules]:
  "gm_ok (mg_procs m) \<Longrightarrow> gm_ok (mg_procs (mgr_gc_tick m heap now))"
  unfolding mgr_gc_tick_removes by (rule procs.ok_remove_many)

lemma mgr_Get_gc_tick:
  assumes "gm_ok (mg_procs m)"
  shows "mgr_Get (mgr_gc_tick m heap now) pid =
    (case mgr_Get m pid of
       None \<Rightarrow> None
     | Some a \<Rightarrow> if expired m heap now a then None else Some a)"
proof -
  have "pid \<in> set (map fst (filter (\<lambda>(pid, a). expired m heap now a) (mg_procs m))) \<longleftrightarrow>
      (\<exists>a. mgr_Get m pid = Some a \<and> expired m heap now a)"
    using gm_in_set [OF assms] by (force simp: mgr_Get_def)
  then show ?thesis
    unfolding mgr_gc_tick_removes procs.lookup_remove_many [OF assms] by (auto split: option.splits)
qed

lemma mgr_Start_ok [inv_rules]:
  "gm_ok (mg_procs m) \<Longrightarrow> mgr_Start m heap started pid now = (res, m', heap') \<Longrightarrow> gm_ok (mg_procs m')"
  by (auto simp: mgr_Start_def Let_def procs.ok_insert split: sum.splits)

section \<open>Properties\<close>

lemma run_reps:
  assumes "proc_run r0 evs r" and "r0 = new_record pid ospid now c1 c2"
    and "0 \<le> c1" "c1 < 2 ^ 63" "0 \<le> c2" "c2 < 2 ^ 63"
    and "int (length (out_bytes evs)) < 2 ^ 63" "int (length (err_bytes evs)) < 2 ^ 63"
  shows "rb_rep (pr_Stdout r) (out_bytes evs) \<and> rb_rep (pr_Stderr r) (err_bytes evs)"
  using assms
proof (induction rule: proc_run.induct)
  case (run_nil r)
  then show ?case by (simp add: new_record_def rb_rep_new)
next
  case (run_snoc r evs r' ev r'')
  have IH: "rb_rep (pr_Stdout r') (out_bytes evs) \<and> rb_rep (pr_Stderr r') (err_bytes evs)"
    using run_snoc.IH run_snoc.prems by simp
  show ?case
  proof (cases ev)
    case (OutChunk p)
    then obtain rb n where "rb_Write (pr_Stdout r') p = Some (rb, n)" "r'' = r'\<lparr>pr_Stdout := rb\<rparr>"
      using run_snoc.hyps(2) by auto
    moreover have "rb_rep rb (out_bytes evs @ p)"
      using rb_WriteD [OF conjunct1 [OF IH] _ calculation(1)] run_snoc.prems(6) OutChunk by simp
    ultimately show ?thesis using IH OutChunk by simp
  next
    case (ErrChunk p)
    then obtain rb n where "rb_Write (pr_Stderr r') p = Some (rb, n)" "r'' = r'\<lparr>pr_Stderr := rb\<rparr>"
      using run_snoc.hyps(2) by auto
    moreover have "rb_rep rb (err_bytes evs @ p)"
      using rb_WriteD [OF conjunct2 [OF IH] _ calculation(1)] run_snoc.prems(7) ErrChunk by simp
    ultimately show ?thesis using IH ErrChunk by simp
  qed (use IH run_snoc.hyps(2) in \<open>auto simp: publish_def split: option.splits\<close>)
qed

lemma sealed_step:
  "proc_step r ev r' \<Longrightarrow> proc_inv r \<Longrightarrow> pr_waiter r \<in> {Published, Finished} \<Longrightarrow>
   r' = r\<lparr>pr_done := True, pr_waiter := Finished\<rparr> \<and> ev = CloseDone"
  by (cases rule: proc_stepE) (simp_all add: proc_inv_def)

lemma sealed_run:
  "proc_run r evs r' \<Longrightarrow> proc_inv r \<Longrightarrow> pr_waiter r \<in> {Published, Finished} \<Longrightarrow>
   pr_waiter r' \<in> {Published, Finished} \<and> pr_Stdout r' = pr_Stdout r \<and> pr_Stderr r' = pr_Stderr r \<and>
   rec_ExitCode r' = rec_ExitCode r \<and> out_bytes evs = [] \<and> err_bytes evs = []"
proof (induction rule: proc_run.induct)
  case (run_nil r)
  then show ?case by simp
next
  case (run_snoc r evs r' ev r'')
  have "proc_inv r'" using run_snoc.hyps(1) run_snoc.prems(1) by (rule proc_inv_run)
  then show ?case
    using sealed_step [OF run_snoc.hyps(2)] run_snoc.IH run_snoc.prems by (auto simp: rec_ExitCode_def)
qed

text \<open>The result the exit goroutine carries is the one the handle reported, up to the record.\<close>

definition carries :: "exit_result \<Rightarrow> process_record \<Rightarrow> bool" where
  "carries res r \<longleftrightarrow> pr_waiter r \<in> {InSelect res, BeforeCloseIO res, OnDrained res} \<or>
     pr_waiter r \<in> {Published, Finished} \<and>
     rec_ExitCode r = (if er_Err res = None then Some (er_ExitCode res) else None) \<and>
     rec_SandboxSetupFailed r = er_SandboxSetupFailed res"

lemma carries_step: "proc_step r ev r' \<Longrightarrow> proc_inv r \<Longrightarrow> carries res r \<Longrightarrow> carries res r'"
proof (induction rule: proc_step.induct)
  case (exit_seen r res')
  then show ?case by (simp add: carries_def)
next
  case (publish_result r res' now)
  then have "res' = res" by (simp add: carries_def)
  then show ?case
    by (simp add: carries_def publish_def rec_ExitCode_def rec_SandboxSetupFailed_def
        publish_result.prems(1) split: option.splits)
       (use publish_result in \<open>simp add: proc_inv_def\<close>)
qed (auto simp: carries_def rec_ExitCode_def rec_SandboxSetupFailed_def)

lemma carries_run: "proc_run r evs r' \<Longrightarrow> proc_inv r \<Longrightarrow> ExitSeen res \<in> set evs \<Longrightarrow> carries res r'"
proof (induction rule: proc_run.induct)
  case (run_nil r)
  then show ?case by simp
next
  case (run_snoc r evs r' ev r'')
  have inv: "proc_inv r'" using run_snoc.hyps(1) run_snoc.prems(1) by (rule proc_inv_run)
  show ?case
  proof (cases "ExitSeen res \<in> set evs")
    case True
    then show ?thesis using run_snoc carries_step [OF run_snoc.hyps(2) inv] by blast
  next
    case False
    then have "ev = ExitSeen res" using run_snoc.prems(2) by simp
    then show ?thesis using run_snoc.hyps(2) by (auto simp: carries_def)
  qed
qed

lemma done_published: "proc_inv r \<Longrightarrow> rec_Exited r \<Longrightarrow> pr_waiter r \<in> {Published, Finished}"
  by (simp add: proc_inv_def rec_Exited_def)

lemma proc_step_ids: "proc_step r ev r' \<Longrightarrow> pr_ID r' = pr_ID r \<and> pr_OSPID r' = pr_OSPID r \<and> pr_StartedAt r' = pr_StartedAt r"
  by (auto elim!: proc_stepE simp: publish_def split: option.splits)

lemma proc_run_ids: "proc_run r evs r' \<Longrightarrow> pr_ID r' = pr_ID r \<and> pr_OSPID r' = pr_OSPID r \<and> pr_StartedAt r' = pr_StartedAt r"
  by (induction rule: proc_run.induct) (auto dest: proc_step_ids)

lemma rb_Write_cap: "rb_Write rb p = Some (rb', n) \<Longrightarrow> rb_cap rb' = rb_cap rb"
  by (auto simp: rb_Write_def Let_def split: option.splits if_splits)

lemma proc_run_caps:
  "proc_run r evs r' \<Longrightarrow> rb_cap (pr_Stdout r') = rb_cap (pr_Stdout r) \<and> rb_cap (pr_Stderr r') = rb_cap (pr_Stderr r)"
  by (induction rule: proc_run.induct)
    (auto elim!: proc_stepE simp: publish_def dest: rb_Write_cap split: option.splits)

text \<open>
  C1. An exit code that a caller sees, or a process it is told has exited, implies complete output:
  from any history of the copies, the timer and the exit, as soon as \<open>ExitCode()\<close> is not nil or
  \<open>done\<close> is closed, each buffer stands for every byte its pipe delivered, and whatever the
  goroutines still do, the buffers and the exit code never change again.
\<close>

theorem exit_implies_complete_output:
  assumes "proc_run (new_record pid ospid now c1 c2) evs r"
    and "0 \<le> c1" "c1 < 2 ^ 63" "0 \<le> c2" "c2 < 2 ^ 63"
    and "int (length (out_bytes evs)) < 2 ^ 63" "int (length (err_bytes evs)) < 2 ^ 63"
    and "rec_ExitCode r \<noteq> None \<or> rec_Exited r"
    and "proc_run r evs' r'"
  shows "rb_rep (pr_Stdout r) (out_bytes evs) \<and> rb_rep (pr_Stderr r) (err_bytes evs) \<and>
    pr_Stdout r' = pr_Stdout r \<and> pr_Stderr r' = pr_Stderr r \<and> rec_ExitCode r' = rec_ExitCode r \<and>
    out_bytes evs' = [] \<and> err_bytes evs' = []"
proof -
  have inv: "proc_inv r" using assms(1) proc_inv_new by (rule proc_inv_run)
  then have "pr_waiter r \<in> {Published, Finished}"
    using assms(8) unfolding proc_inv_def rec_ExitCode_def rec_Exited_def by blast
  from sealed_run [OF assms(9) inv this] run_reps [OF assms(1) refl assms(2-7)] show ?thesis by blast
qed

text \<open>The steps left to the exit goroutine and the two copies.\<close>

fun waiter_rank :: "waiter \<Rightarrow> nat" where
  "waiter_rank InWait = 5"
| "waiter_rank (InSelect res) = 4"
| "waiter_rank (BeforeCloseIO res) = 3"
| "waiter_rank (OnDrained res) = 2"
| "waiter_rank Published = 1"
| "waiter_rank Finished = 0"

definition proc_rank :: "process_record \<Rightarrow> nat" where
  "proc_rank r = waiter_rank (pr_waiter r) + of_bool (pr_out_copying r) + of_bool (pr_err_copying r)"

fun is_chunk :: "proc_event \<Rightarrow> bool" where
  "is_chunk (OutChunk p) = True"
| "is_chunk (ErrChunk p) = True"
| "is_chunk ev = False"

lemma proc_rank_step:
  "proc_step r ev r' \<Longrightarrow> proc_rank r = proc_rank r' + of_bool (\<not> is_chunk ev)"
  by (induction rule: proc_step.induct) (auto simp: proc_rank_def publish_def split: option.splits)

lemma proc_rank_run:
  "proc_run r evs r' \<Longrightarrow> proc_rank r = proc_rank r' + length (filter (\<lambda>ev. \<not> is_chunk ev) evs)"
  by (induction rule: proc_run.induct) (auto dest: proc_rank_step)

lemma waiter_run: "proc_run r evs r' \<Longrightarrow> pr_waiter r \<noteq> InWait \<Longrightarrow> pr_waiter r' \<noteq> InWait"
  by (induction rule: proc_run.induct)
    (auto elim!: proc_stepE simp: publish_def split: option.splits)

lemma proc_progress:
  assumes inv: "proc_inv r" and w: "pr_waiter r \<noteq> InWait" and nd: "\<not> rec_Exited r"
  shows "\<exists>ev r'. \<not> is_chunk ev \<and> ev \<noteq> DrainedArm \<and> proc_step r ev r'"
proof (cases "pr_waiter r")
  case (InSelect res)
  then show ?thesis by (intro exI [of _ GraceArm]) auto
next
  case (BeforeCloseIO res)
  then show ?thesis by (intro exI [of _ CloseIO]) auto
next
  case (OnDrained res)
  then show ?thesis
    by (intro exI [of _ "if pr_out_copying r then OutEnd else if pr_err_copying r then ErrEnd
        else PublishResult zero_time"]) auto
next
  case Published
  then show ?thesis by (intro exI [of _ CloseDone]) auto
qed (use inv w nd in \<open>auto simp: proc_inv_def rec_Exited_def\<close>)

lemma can_finish:
  assumes "proc_inv r" and "pr_waiter r \<noteq> InWait"
  shows "\<exists>evs r'. proc_run r evs r' \<and> rec_Exited r' \<and> (\<forall>ev \<in> set evs. \<not> is_chunk ev \<and> ev \<noteq> DrainedArm)"
  using assms
proof (induction "proc_rank r" arbitrary: r rule: less_induct)
  case less
  show ?case
  proof (cases "rec_Exited r")
    case True
    then show ?thesis by (intro exI [of _ "[]"] exI [of _ r]) (simp add: proc_run.run_nil)
  next
    case False
    then obtain ev r' where ev: "\<not> is_chunk ev" "ev \<noteq> DrainedArm" "proc_step r ev r'"
      using proc_progress less.prems by blast
    have "proc_rank r' < proc_rank r" using proc_rank_step [OF ev(3)] ev(1) by simp
    moreover have "proc_inv r'" using ev(3) less.prems(1) by (rule proc_inv_step)
    moreover have "pr_waiter r' \<noteq> InWait"
      using waiter_run [OF proc_run.run_snoc [OF proc_run.run_nil ev(3)] less.prems(2)] .
    ultimately obtain evs r'' where "proc_run r' evs r''" "rec_Exited r''"
      "\<forall>ev \<in> set evs. \<not> is_chunk ev \<and> ev \<noteq> DrainedArm"
      using less.hyps by blast
    then show ?thesis using proc_run_Cons [OF ev(3)] ev(1,2) by (metis set_ConsD)
  qed
qed


text \<open>
  C15. The garbage collector of the Manager forgets exactly the processes that finished more than
  the configured time ago; a process whose exit has not been published is never forgotten, at
  whatever time the tick comes.
\<close>

theorem gc_forgets_exactly_expired:
  assumes "gm_ok (mg_procs m)"
  shows "mgr_Get (mgr_gc_tick m heap now) pid =
      (case mgr_Get m pid of
         None \<Rightarrow> None
       | Some a \<Rightarrow> if \<not> IsZero (pr_finished (heap ! a)) \<and>
             time_Sub now (pr_finished (heap ! a)) > mg_finishedTTL m then None else Some a)
    \<and> (\<forall>a. mgr_Get m pid = Some a \<and> proc_inv (heap ! a) \<and>
         pr_waiter (heap ! a) \<notin> {Published, Finished} \<longrightarrow>
         mgr_Get (mgr_gc_tick m heap now) pid = Some a)"
  using mgr_Get_gc_tick [OF assms, of heap now pid]
  by (auto simp: expired_def proc_inv_def IsZero_def split: option.splits)

text \<open>
  C14. A process that a signal killed is reported with exit code -1, not with an absent one: the
  wait of the handle succeeds, so the record holds \<open>Some (-1)\<close> and no error.
\<close>

theorem signaled_process_reports_minus_one:
  "rec_ExitCode (publish (linux_wait (Inr (Signaled s))) now r) = Some (-1) \<and>
   pr_exitErr (publish (linux_wait (Inr (Signaled s))) now r) = pr_exitErr r"
  by (simp add: publish_def linux_wait_def rec_ExitCode_def)

text \<open>
  A negative buffer size, which the configuration accepts, ends the Agent at the first byte of
  output: the copy goroutine of every new process panics on any chunk. With sizes from 0 on, no
  copy panics in any reachable state.
\<close>

theorem buffer_size_decides_panic:
  "(- (2 ^ 62) < c1 \<and> c1 < 0 \<and> int (length p) < 2 ^ 62 \<longrightarrow>
      copy_panics (new_record pid ospid now c1 c2) p) \<and>
   (0 \<le> c1 \<and> c1 < 2 ^ 63 \<and> 0 \<le> c2 \<and> c2 < 2 ^ 63 \<and>
    proc_run (new_record pid ospid now c1 c2) evs r \<and>
    int (length (out_bytes evs)) + int (length p) < 2 ^ 63 \<and>
    int (length (err_bytes evs)) + int (length p) < 2 ^ 63 \<longrightarrow> \<not> copy_panics r p)"
proof (intro conjI impI)
  assume c: "- (2 ^ 62) < c1 \<and> c1 < 0 \<and> int (length p) < 2 ^ 62"
  then have "rb_Write (NewRingBuffer c1) p = None"
    by (subst rb_Write_panics_iff) (auto simp: NewRingBuffer_def in_i64_def)
  then show "copy_panics (new_record pid ospid now c1 c2) p"
    by (simp add: copy_panics_def new_record_def)
next
  assume a: "0 \<le> c1 \<and> c1 < 2 ^ 63 \<and> 0 \<le> c2 \<and> c2 < 2 ^ 63 \<and>
    proc_run (new_record pid ospid now c1 c2) evs r \<and>
    int (length (out_bytes evs)) + int (length p) < 2 ^ 63 \<and>
    int (length (err_bytes evs)) + int (length p) < 2 ^ 63"
  then have "rb_rep (pr_Stdout r) (out_bytes evs) \<and> rb_rep (pr_Stderr r) (err_bytes evs)"
    by (intro run_reps [OF _ refl]) auto
  then show "\<not> copy_panics r p"
    using a rb_rep_Write [of "pr_Stdout r" "out_bytes evs" p] rb_rep_Write [of "pr_Stderr r" "err_bytes evs" p]
    by (auto simp: copy_panics_def)
qed

subsection \<open>Witnesses\<close>

text \<open>The step relation as a function, to run concrete schedules.\<close>

fun proc_next :: "process_record \<Rightarrow> proc_event \<Rightarrow> process_record option" where
  "proc_next r (OutChunk p) =
     (if pr_out_copying r
      then map_option (\<lambda>(rb, n). r\<lparr>pr_Stdout := rb\<rparr>) (rb_Write (pr_Stdout r) p) else None)"
| "proc_next r OutEnd = (if pr_out_copying r then Some (r\<lparr>pr_out_copying := False\<rparr>) else None)"
| "proc_next r (ErrChunk p) =
     (if pr_err_copying r
      then map_option (\<lambda>(rb, n). r\<lparr>pr_Stderr := rb\<rparr>) (rb_Write (pr_Stderr r) p) else None)"
| "proc_next r ErrEnd = (if pr_err_copying r then Some (r\<lparr>pr_err_copying := False\<rparr>) else None)"
| "proc_next r (ExitSeen res) =
     (if pr_waiter r = InWait then Some (r\<lparr>pr_waiter := InSelect res\<rparr>) else None)"
| "proc_next r DrainedArm =
     (case pr_waiter r of
        InSelect res \<Rightarrow> if \<not> pr_out_copying r \<and> \<not> pr_err_copying r
                        then Some (r\<lparr>pr_waiter := BeforeCloseIO res\<rparr>) else None
      | _ \<Rightarrow> None)"
| "proc_next r GraceArm =
     (case pr_waiter r of InSelect res \<Rightarrow> Some (r\<lparr>pr_waiter := BeforeCloseIO res\<rparr>) | _ \<Rightarrow> None)"
| "proc_next r CloseIO =
     (case pr_waiter r of
        BeforeCloseIO res \<Rightarrow> Some (r\<lparr>pr_io_closed := True, pr_waiter := OnDrained res\<rparr>) | _ \<Rightarrow> None)"
| "proc_next r (PublishResult now) =
     (case pr_waiter r of
        OnDrained res \<Rightarrow> if \<not> pr_out_copying r \<and> \<not> pr_err_copying r then Some (publish res now r) else None
      | _ \<Rightarrow> None)"
| "proc_next r CloseDone =
     (if pr_waiter r = Published then Some (r\<lparr>pr_done := True, pr_waiter := Finished\<rparr>) else None)"

lemma proc_next_iff: "proc_step r ev r' \<longleftrightarrow> proc_next r ev = Some r'"
  by (cases ev) (auto split: waiter.splits)

fun proc_exec :: "process_record \<Rightarrow> proc_event list \<Rightarrow> process_record option" where
  "proc_exec r [] = Some r"
| "proc_exec r (ev # evs) = (case proc_next r ev of None \<Rightarrow> None | Some r' \<Rightarrow> proc_exec r' evs)"

lemma proc_exec_run: "proc_exec r evs = Some r' \<Longrightarrow> proc_run r evs r'"
  by (induction evs arbitrary: r)
    (auto split: option.splits intro: proc_run.run_nil proc_run_Cons simp: proc_next_iff)

definition sample_now :: go_time where
  "sample_now = \<lparr>t_wall = \<lparr>u_year = 2026, u_month = 3, u_day = 1, u_hour = 0, u_minute = 0,
     u_second = 0, u_nano = 0\<rparr>, t_mono = 7\<rparr>"

definition sample_random :: bytes where
  "sample_random = replicate 16 (CHR 0x11)"

abbreviation sample_pid :: string where
  "sample_pid \<equiv> newProcessID sample_random"

definition sample_record :: process_record where
  "sample_record = new_record sample_pid 4242 sample_now 4 4"

definition sample_schedule :: "proc_event list" where
  "sample_schedule =
     [OutChunk ''hello'', ExitSeen \<lparr>er_ExitCode = 3, er_Err = None, er_SandboxSetupFailed = False\<rparr>,
      GraceArm, CloseIO, OutEnd, ErrEnd, PublishResult sample_now]"

lemma sample_exec:
  obtains r where "proc_run sample_record sample_schedule r" "rec_ExitCode r = Some 3"
    "rb_buf (pr_Stdout r) = ''ello''" "pr_waiter r = Published"
proof -
  let ?r = "the (proc_exec sample_record sample_schedule)"
  have "proc_exec sample_record sample_schedule = Some ?r \<and> rec_ExitCode ?r = Some 3 \<and>
      rb_buf (pr_Stdout ?r) = ''ello'' \<and> pr_waiter ?r = Published"
    by (simp add: sample_record_def sample_schedule_def new_record_def NewRingBuffer_def rb_Write_def
        publish_def rec_ExitCode_def i64_def)
  then show ?thesis using that proc_exec_run by blast
qed

theorem exit_implies_complete_output_witness:
  "\<exists>r. proc_run sample_record sample_schedule r \<and> rec_ExitCode r = Some 3 \<and>
     rb_rep (pr_Stdout r) ''hello'' \<and> rb_rep (pr_Stderr r) []"
proof (rule sample_exec)
  fix r
  assume r: "proc_run sample_record sample_schedule r" "rec_ExitCode r = Some 3"
  have b: "out_bytes sample_schedule = ''hello''" "err_bytes sample_schedule = []"
    by (simp_all add: sample_schedule_def)
  show ?thesis
    using exit_implies_complete_output [OF r(1) [unfolded sample_record_def] _ _ _ _ _ _ _ proc_run.run_nil] r b
    by auto
qed


theorem gc_forgets_exactly_expired_witness:
  "let m = \<lparr>mg_stdoutCap = 4, mg_stderrCap = 4, mg_finishedTTL = 10, mg_procs = [(''a'', 0), (''b'', 1)]\<rparr>;
       heap = [sample_record\<lparr>pr_finished := sample_now, pr_waiter := Finished, pr_done := True\<rparr>, sample_record];
       now = sample_now\<lparr>t_mono := 100\<rparr>
   in gm_ok (mg_procs m) \<and> mgr_Get (mgr_gc_tick m heap now) ''a'' = None \<and>
      mgr_Get (mgr_gc_tick m heap now) ''b'' = Some 1"
proof -
  let ?m = "\<lparr>mg_stdoutCap = 4, mg_stderrCap = 4, mg_finishedTTL = 10, mg_procs = [(''a'', 0), (''b'', 1)]\<rparr>"
  have ok: "gm_ok (mg_procs ?m)" by (simp add: gm_ok_def)
  show ?thesis
    using ok gc_forgets_exactly_expired [OF ok, where pid = "''a''"]
      gc_forgets_exactly_expired [OF ok, where pid = "''b''"]
    by (simp add: Let_def mgr_Get_def sample_record_def new_record_def IsZero_def zero_time_def
        sample_now_def time_Sub_def)
qed

theorem buffer_size_decides_panic_witness:
  "copy_panics (new_record sample_pid 4242 sample_now (-1) 4) ''x'' \<and> \<not> copy_panics sample_record ''x''"
  using buffer_size_decides_panic [of "-1" "''x''" sample_pid 4242 sample_now 4 "[]" undefined]
    buffer_size_decides_panic [of 4 "''x''" sample_pid 4242 sample_now 4 "[]" sample_record]
  by (simp add: sample_record_def proc_run.run_nil)

end
