(* ===== verification/Commands.thy ===== *)
theory Commands
  imports ProcessMgr History Proto
begin

text \<open>
  The handlers of command.exec and command.read (agent/handlers_command.go) over the state the
  Agent's handlers share: the two Managers, the process records, the history database, the
  background goroutines that complete history rows, and the log. A handler is cut at its
  blocking point, \<open>rec.Wait\<close>: a start, a step after the wait, and the answer. The answer reads
  the record four times without a lock that spans the reads, so it takes the record as each
  read finds it.
\<close>

section \<open>The state the handlers share\<close>

datatype log_entry =
  StartFailed string string
| RecordStartFailed string sql_error
| RecordEndFailed string sql_error
| SandboxFailure string
| StdinWriteFailed string string
| TerminateFailed string errno
| HistoryListFailed history_error
| HistoryGetFailed string history_error

text \<open>
  \<open>ag_background\<close> holds the goroutines that wait for the end of a process to complete its
  history row: the execution id and the address of the record.
\<close>

record 'db agent =
  ag_mgr :: manager
  ag_sandboxMgr :: "manager option"
  ag_heap :: store
  ag_db :: 'db
  ag_background :: "(string \<times> nat) list"
  ag_log :: "log_entry list"

definition ag_logf :: "log_entry \<Rightarrow> 'db agent \<Rightarrow> 'db agent" where
  "ag_logf l s = s\<lparr>ag_log := ag_log s @ [l]\<rparr>"

text \<open>A failure of the history is logged and otherwise ignored, by every handler.\<close>

definition try_RecordStart :: "'db sql_engine \<Rightarrow> execution_start \<Rightarrow> 'db agent \<Rightarrow> 'db agent" where
  "try_RecordStart eng e s =
     (case RecordStart eng (ag_db s) e of
        (None, db) \<Rightarrow> s\<lparr>ag_db := db\<rparr>
      | (Some err, db) \<Rightarrow> ag_logf (RecordStartFailed (es_ExecutionID e) err) (s\<lparr>ag_db := db\<rparr>))"

definition try_RecordEnd ::
    "'db sql_engine \<Rightarrow> string \<Rightarrow> utc \<Rightarrow> int option \<Rightarrow> 'db agent \<Rightarrow> 'db agent" where
  "try_RecordEnd eng execID now exitCode s =
     (case RecordEnd eng (ag_db s) execID now exitCode of
        (None, db) \<Rightarrow> s\<lparr>ag_db := db\<rparr>
      | (Some err, db) \<Rightarrow> ag_logf (RecordEndFailed execID err) (s\<lparr>ag_db := db\<rparr>))"

section \<open>Parameters, results, timeouts\<close>

record command_params =
  cp_Command :: string
  cp_Cwd :: string
  cp_Env :: "(string, string) gomap"
  cp_TimeoutMs :: int
  cp_ClientContextID :: string
  cp_ClientSubject :: string

record command_result =
  cr_ProcessID :: string
  cr_OSPID :: int
  cr_Stdout :: bytes
  cr_Stderr :: bytes
  cr_ExitCode :: "int option"
  cr_TimedOut :: bool
  cr_SandboxViolation :: bool
  cr_StdoutTruncated :: bool
  cr_StderrTruncated :: bool

record command_handlers =
  ch_deviceID :: string
  ch_defaultTimeoutMs :: int

definition defaultExecTimeoutMs :: int where "defaultExecTimeoutMs = 30000"
definition maxExecTimeoutMs :: int where "maxExecTimeoutMs = 300000"

definition NewCommandHandlers :: "string \<Rightarrow> int \<Rightarrow> command_handlers" where
  "NewCommandHandlers deviceID defaultTimeoutMs =
     \<lparr>ch_deviceID = deviceID,
      ch_defaultTimeoutMs = (if defaultTimeoutMs \<le> 0 then defaultExecTimeoutMs else defaultTimeoutMs)\<rparr>"

definition clampTimeoutMs :: "int \<Rightarrow> int \<Rightarrow> int" where
  "clampTimeoutMs requested fallback =
     (let timeoutMs = (if requested \<le> 0 then fallback else requested)
      in if timeoutMs > maxExecTimeoutMs then maxExecTimeoutMs else timeoutMs)"

section \<open>Starting a command\<close>

text \<open>
  What the environment answers to a start: the backend's \<open>Start\<close> for the options it is given,
  the random bytes of the two ids and the clock. A handler that is waiting is the execution id,
  the record's address and its timeout.
\<close>

definition newExecutionID :: "bytes \<Rightarrow> string" where
  "newExecutionID b = hex_encode b"

lemma newExecutionID_distinct: "newExecutionID b = newExecutionID c \<longleftrightarrow> b = c"
  by (auto simp: newExecutionID_def dest: hex_encode_inj)

record start_env =
  sv_backend :: "start_options \<Rightarrow> string + int"
  sv_pid_random :: bytes
  sv_now :: go_time
  sv_exec_random :: bytes

definition sv_pid :: "start_env \<Rightarrow> string" where
  "sv_pid v = newProcessID (sv_pid_random v)"

definition sv_execID :: "start_env \<Rightarrow> string" where
  "sv_execID v = newExecutionID (sv_exec_random v)"

record waiting =
  wt_execID :: string
  wt_addr :: nat
  wt_timeoutMs :: int

definition options_of :: "command_params \<Rightarrow> start_options" where
  "options_of p = \<lparr>so_Command = cp_Command p, so_Cwd = cp_Cwd p, so_Env = cp_Env p\<rparr>"

definition start_of :: "command_handlers \<Rightarrow> command_params \<Rightarrow> string \<Rightarrow> string \<Rightarrow> process_record \<Rightarrow> execution_start" where
  "start_of h p mode execID r =
     \<lparr>es_ExecutionID = execID, es_ProcessID = pr_ID r, es_DeviceID = ch_deviceID h,
      es_Mode = mode, es_Command = cp_Command p, es_Cwd = cp_Cwd p,
      es_StartedAt = t_wall (pr_StartedAt r),
      es_ClientContextID = cp_ClientContextID p, es_ClientSubject = cp_ClientSubject p\<rparr>"

text \<open>\<open>parsed\<close> is the result of \<open>json.Unmarshal\<close> of the parameters.\<close>

definition Exec_start ::
    "'db sql_engine \<Rightarrow> command_handlers \<Rightarrow> string + command_params \<Rightarrow> start_env \<Rightarrow> 'db agent \<Rightarrow>
     (rpc_error + waiting) \<times> 'db agent" where
  "Exec_start eng h parsed v s =
     (case parsed of
        Inl err \<Rightarrow> (Inl (RPCErr ErrInvalidRequest err), s)
      | Inr p \<Rightarrow>
          let timeoutMs = clampTimeoutMs (cp_TimeoutMs p) (ch_defaultTimeoutMs h)
          in (case mgr_Start (ag_mgr s) (ag_heap s) (sv_backend v (options_of p)) (sv_pid v) (sv_now v) of
                (Inl err, m, heap) \<Rightarrow>
                  (Inl (RPCErr ErrInternal err),
                   ag_logf (StartFailed ''command_exec'' err) (s\<lparr>ag_mgr := m, ag_heap := heap\<rparr>))
              | (Inr addr, m, heap) \<Rightarrow>
                  (Inr \<lparr>wt_execID = sv_execID v, wt_addr = addr, wt_timeoutMs = timeoutMs\<rparr>,
                   try_RecordStart eng (start_of h p ''write'' (sv_execID v) (heap ! addr))
                     (s\<lparr>ag_mgr := m, ag_heap := heap\<rparr>))))"

definition Read_start ::
    "'db sql_engine \<Rightarrow> command_handlers \<Rightarrow> string + command_params \<Rightarrow> start_env \<Rightarrow> 'db agent \<Rightarrow>
     (rpc_error + waiting) \<times> 'db agent" where
  "Read_start eng h parsed v s =
     (case ag_sandboxMgr s of
        None \<Rightarrow> (Inl (RPCErr ErrUnsupported ''command_read sandbox not available on this Agent''), s)
      | Some sandboxMgr \<Rightarrow>
     (case parsed of
        Inl err \<Rightarrow> (Inl (RPCErr ErrInvalidRequest err), s)
      | Inr p \<Rightarrow>
          let timeoutMs = clampTimeoutMs (cp_TimeoutMs p) (ch_defaultTimeoutMs h)
          in (case mgr_Start sandboxMgr (ag_heap s) (sv_backend v (options_of p)) (sv_pid v) (sv_now v) of
                (Inl err, m, heap) \<Rightarrow>
                  (Inl (RPCErr ErrInternal err),
                   ag_logf (StartFailed ''command_read'' err)
                     (s\<lparr>ag_sandboxMgr := Some m, ag_heap := heap\<rparr>))
              | (Inr addr, m, heap) \<Rightarrow>
                  (Inr \<lparr>wt_execID = sv_execID v, wt_addr = addr, wt_timeoutMs = timeoutMs\<rparr>,
                   try_RecordStart eng (start_of h p ''read'' (sv_execID v) (heap ! addr))
                     (s\<lparr>ag_sandboxMgr := Some m, ag_heap := heap\<rparr>)))))"

section \<open>After the wait\<close>

definition recordEndEventually :: "string \<Rightarrow> nat \<Rightarrow> 'db agent \<Rightarrow> 'db agent" where
  "recordEndEventually execID addr s = s\<lparr>ag_background := ag_background s @ [(execID, addr)]\<rparr>"

text \<open>The body of a background goroutine, once \<open>rec.Wait\<close> without a deadline has returned.\<close>

definition background_end :: "'db sql_engine \<Rightarrow> string \<times> nat \<Rightarrow> utc \<Rightarrow> 'db agent \<Rightarrow> 'db agent" where
  "background_end eng job now s =
     (case job of (execID, addr) \<Rightarrow>
        try_RecordEnd eng execID now (rec_ExitCode (ag_heap s ! addr))
          (s\<lparr>ag_background := remove1 job (ag_background s)\<rparr>))"

text \<open>Both handlers continue alike: \<open>(exitCode, timedOut)\<close> is the result of \<open>rec.Wait\<close>.\<close>

definition after_wait ::
    "'db sql_engine \<Rightarrow> waiting \<Rightarrow> int option \<times> bool \<Rightarrow> utc \<Rightarrow> 'db agent \<Rightarrow> 'db agent" where
  "after_wait eng w wait_result now s =
     (case wait_result of (exitCode, timedOut) \<Rightarrow>
        if \<not> timedOut then try_RecordEnd eng (wt_execID w) now exitCode s
        else recordEndEventually (wt_execID w) (wt_addr w) s)"

section \<open>The answer\<close>

text \<open>
  \<open>r1\<close> to \<open>r4\<close> are the record as the two \<open>ReadFrom\<close> and the two \<open>Len\<close> calls find it; \<open>None\<close> is
  a panic of \<open>ReadFrom\<close>.
\<close>

definition Exec_result ::
    "process_record \<Rightarrow> process_record \<Rightarrow> process_record \<Rightarrow> process_record \<Rightarrow> int option \<times> bool \<Rightarrow>
     command_result option" where
  "Exec_result r1 r2 r3 r4 wait_result =
     (case wait_result of (exitCode, timedOut) \<Rightarrow>
     (case rb_ReadFrom (pr_Stdout r1) 0 MaxCommandOutputBytes of
        None \<Rightarrow> None
      | Some (stdout, stdoutNext, _) \<Rightarrow>
     (case rb_ReadFrom (pr_Stderr r2) 0 MaxCommandOutputBytes of
        None \<Rightarrow> None
      | Some (stderr, stderrNext, _) \<Rightarrow> Some
          \<lparr>cr_ProcessID = pr_ID r2, cr_OSPID = pr_OSPID r2, cr_Stdout = stdout, cr_Stderr = stderr,
           cr_ExitCode = exitCode, cr_TimedOut = timedOut, cr_SandboxViolation = False,
           cr_StdoutTruncated = (stdoutNext < rb_Len (pr_Stdout r3)),
           cr_StderrTruncated = (stderrNext < rb_Len (pr_Stderr r4))\<rparr>)))"

text \<open>
  \<open>r0\<close> is the record as the check of the sandbox setup finds it; the error is the first
  component's left value.
\<close>

definition Read_result ::
    "process_record \<Rightarrow> process_record \<Rightarrow> process_record \<Rightarrow> process_record \<Rightarrow> process_record \<Rightarrow>
     int option \<times> bool \<Rightarrow> (rpc_error + command_result) option" where
  "Read_result r0 r1 r2 r3 r4 wait_result =
     (case wait_result of (exitCode, timedOut) \<Rightarrow>
      if \<not> timedOut \<and> rec_SandboxSetupFailed r0
      then Some (Inl (RPCErr ErrSandboxViolation ''sandbox setup failed for this call''))
      else
     (case rb_ReadFrom (pr_Stdout r1) 0 MaxCommandOutputBytes of
        None \<Rightarrow> None
      | Some (stdout, stdoutNext, _) \<Rightarrow>
     (case rb_ReadFrom (pr_Stderr r2) 0 MaxCommandOutputBytes of
        None \<Rightarrow> None
      | Some (stderr, stderrNext, _) \<Rightarrow> Some (Inr
          \<lparr>cr_ProcessID = pr_ID r2, cr_OSPID = pr_OSPID r2, cr_Stdout = stdout, cr_Stderr = stderr,
           cr_ExitCode = exitCode, cr_TimedOut = timedOut,
           cr_SandboxViolation = (\<not> timedOut \<and> exitCode \<noteq> None \<and> the exitCode \<noteq> 0),
           cr_StdoutTruncated = (stdoutNext < rb_Len (pr_Stdout r3)),
           cr_StderrTruncated = (stderrNext < rb_Len (pr_Stderr r4))\<rparr>))))"

text \<open>The log line of \<open>Read\<close> for a failed sandbox setup.\<close>

definition Read_log :: "process_record \<Rightarrow> waiting \<Rightarrow> bool \<Rightarrow> 'db agent \<Rightarrow> 'db agent" where
  "Read_log r0 w timedOut s =
     (if \<not> timedOut \<and> rec_SandboxSetupFailed r0 then ag_logf (SandboxFailure (wt_execID w)) s else s)"

section \<open>What a one-shot read returns\<close>

text \<open>The bytes of a stream that a buffer of the given capacity still holds.\<close>

definition retained :: "int \<Rightarrow> bytes \<Rightarrow> bytes" where
  "retained c s = drop (length s - nat c) s"

lemma retained_oldest: "0 \<le> c \<Longrightarrow> drop (nat (oldest c s)) s = retained c s"
  by (simp add: retained_def oldest_def max_def nat_diff_distrib')

lemma length_retained: "0 \<le> c \<Longrightarrow> int (length (retained c s)) = int (length s) - oldest c s"
  by (simp add: retained_def oldest_def)

lemma one_shot_read:
  assumes rep: "rb_rep rb s" and len: "int (length s) < 2 ^ 62"
  obtains next_off tr where
    "rb_ReadFrom rb 0 MaxCommandOutputBytes =
       Some (take (nat MaxCommandOutputBytes) (retained (rb_cap rb) s), next_off, tr)"
    "next_off < rb_Len rb \<longleftrightarrow> MaxCommandOutputBytes < int (length (retained (rb_cap rb) s))"
proof -
  have cap: "0 \<le> rb_cap rb" using rep by (rule ring.capacity_nonneg)
  have n: "0 < MaxCommandOutputBytes" "int (length s) + MaxCommandOutputBytes < 2 ^ 63"
    using len by (simp_all add: MaxCommandOutputBytes_def)
  obtain next_off tr where rd: "rb_ReadFrom rb 0 MaxCommandOutputBytes =
      Some (take (nat MaxCommandOutputBytes) (retained (rb_cap rb) s), next_off, tr)"
    using ring.read_from_start [OF rep n] cap by (simp add: Let_def retained_oldest)
  then show ?thesis
    using that ring.cut_off_iff [OF rep n rd] length_retained [OF cap, of s] by simp
qed

text \<open>What the four reads of an answer find once the process has exited: the same two buffers.\<close>

lemma exited_buffers:
  assumes run: "proc_run (new_record pid ospid now c1 c2) evs r" and ex: "rec_Exited r"
    and c: "0 \<le> c1" "c1 < 2 ^ 63" "0 \<le> c2" "c2 < 2 ^ 63"
    and len: "int (length (out_bytes evs)) < 2 ^ 62" "int (length (err_bytes evs)) < 2 ^ 62"
    and later: "proc_run r evs' r'"
  shows "pr_Stdout r' = pr_Stdout r \<and> pr_Stderr r' = pr_Stderr r \<and>
    rb_rep (pr_Stdout r) (out_bytes evs) \<and> rb_rep (pr_Stderr r) (err_bytes evs) \<and>
    rb_cap (pr_Stdout r) = c1 \<and> rb_cap (pr_Stderr r) = c2 \<and>
    rec_ExitCode r' = rec_ExitCode r \<and> rec_SandboxSetupFailed r' = rec_SandboxSetupFailed r \<and>
    pr_ID r' = pid \<and> pr_OSPID r' = ospid"
proof -
  have inv: "proc_inv r" using run proc_inv_new by (rule proc_inv_run)
  have w: "pr_waiter r = Finished" using inv ex by (simp add: proc_inv_def rec_Exited_def)
  have stuck: "r' = r" using later inv w
  proof (induction rule: proc_run.induct)
    case (run_snoc r evs r' ev r'')
    then show ?case using sealed_step [OF run_snoc.hyps(2)] by (auto elim: proc_stepE simp: proc_inv_def)
  qed simp
  show ?thesis
    using run_reps [OF run refl c] len proc_run_caps [OF run] proc_run_ids [OF run]
    by (simp add: stuck new_record_def NewRingBuffer_def)
qed

lemma waited_done: "rec_Wait r ctxDone ArmDone = Some w \<longleftrightarrow> rec_Exited r \<and> w = (rec_ExitCode r, False)"
  by (auto simp: rec_Wait_def rec_Exited_def)

lemma exec_result_exited:
  assumes run: "proc_run (new_record pid ospid now c1 c2) evs r" and ex: "rec_Exited r"
    and c: "0 \<le> c1" "c1 < 2 ^ 63" "0 \<le> c2" "c2 < 2 ^ 63"
    and len: "int (length (out_bytes evs)) < 2 ^ 62" "int (length (err_bytes evs)) < 2 ^ 62"
    and later: "\<forall>r' \<in> {r1, r2, r3, r4}. \<exists>evs'. proc_run r evs' r'"
  shows "Exec_result r1 r2 r3 r4 (code, False) = Some
    \<lparr>cr_ProcessID = pid, cr_OSPID = ospid,
     cr_Stdout = take (nat MaxCommandOutputBytes) (retained c1 (out_bytes evs)),
     cr_Stderr = take (nat MaxCommandOutputBytes) (retained c2 (err_bytes evs)),
     cr_ExitCode = code, cr_TimedOut = False, cr_SandboxViolation = False,
     cr_StdoutTruncated = (MaxCommandOutputBytes < int (length (retained c1 (out_bytes evs)))),
     cr_StderrTruncated = (MaxCommandOutputBytes < int (length (retained c2 (err_bytes evs))))\<rparr>"
proof -
  note buffers = exited_buffers [OF run ex c len]
  have "proc_run r [] r" by (rule proc_run.run_nil)
  note b = buffers [OF this]
  have same: "pr_Stdout r' = pr_Stdout r \<and> pr_Stderr r' = pr_Stderr r \<and> pr_ID r' = pid \<and> pr_OSPID r' = ospid"
    if "r' \<in> {r1, r2, r3, r4}" for r'
    using that later buffers by blast
  obtain n1 t1 where o: "rb_ReadFrom (pr_Stdout r) 0 MaxCommandOutputBytes =
      Some (take (nat MaxCommandOutputBytes) (retained c1 (out_bytes evs)), n1, t1)"
    "n1 < rb_Len (pr_Stdout r) \<longleftrightarrow> MaxCommandOutputBytes < int (length (retained c1 (out_bytes evs)))"
    using one_shot_read [of "pr_Stdout r" "out_bytes evs"] b len by metis
  obtain n2 t2 where e: "rb_ReadFrom (pr_Stderr r) 0 MaxCommandOutputBytes =
      Some (take (nat MaxCommandOutputBytes) (retained c2 (err_bytes evs)), n2, t2)"
    "n2 < rb_Len (pr_Stderr r) \<longleftrightarrow> MaxCommandOutputBytes < int (length (retained c2 (err_bytes evs)))"
    using one_shot_read [of "pr_Stderr r" "err_bytes evs"] b len by metis
  have eq: "pr_Stdout r1 = pr_Stdout r" "pr_Stderr r2 = pr_Stderr r" "pr_Stdout r3 = pr_Stdout r"
    "pr_Stderr r4 = pr_Stderr r" "pr_ID r2 = pid" "pr_OSPID r2 = ospid"
    using same by blast+
  show ?thesis
    unfolding Exec_result_def by (simp only: eq o e prod.case option.case)
qed

lemma Read_result_exec:
  "Read_result r0 r1 r2 r3 r4 (code, timedOut) =
   (if \<not> timedOut \<and> rec_SandboxSetupFailed r0
    then Some (Inl (RPCErr ErrSandboxViolation ''sandbox setup failed for this call''))
    else map_option (\<lambda>cr. Inr (cr\<lparr>cr_SandboxViolation := (\<not> timedOut \<and> code \<noteq> None \<and> the code \<noteq> 0)\<rparr>))
      (Exec_result r1 r2 r3 r4 (code, timedOut)))"
  by (cases "rb_ReadFrom (pr_Stdout r1) 0 MaxCommandOutputBytes";
      cases "rb_ReadFrom (pr_Stderr r2) 0 MaxCommandOutputBytes")
    (simp_all add: Read_result_def Exec_result_def split_beta)

section \<open>Properties\<close>

text \<open>
  C20. The answer of command.exec for a command that ended in time. Whatever the output goroutines
  did, it carries the exit code, and for each stream the first 2 MiB of what its buffer
  retained of everything the process wrote. The truncation flag says exactly that more than
  2 MiB were retained; so, with buffers larger than 2 MiB (the default is 4 MiB), the flag is
  clear exactly when the stream is returned in full.
\<close>

theorem command_exec_output:
  assumes "proc_run (new_record pid ospid now c1 c2) evs r"
    and "rec_Wait r ctxDone ArmDone = Some wait_result"
    and "0 \<le> c1" "c1 < 2 ^ 63" "0 \<le> c2" "c2 < 2 ^ 63"
    and "int (length (out_bytes evs)) < 2 ^ 62" "int (length (err_bytes evs)) < 2 ^ 62"
    and "\<forall>r' \<in> {r1, r2, r3, r4}. \<exists>evs'. proc_run r evs' r'"
  shows "\<exists>res. Exec_result r1 r2 r3 r4 wait_result = Some res \<and>
    cr_ExitCode res = rec_ExitCode r \<and> \<not> cr_TimedOut res \<and> \<not> cr_SandboxViolation res \<and>
    cr_Stdout res = take (nat MaxCommandOutputBytes) (retained c1 (out_bytes evs)) \<and>
    cr_Stderr res = take (nat MaxCommandOutputBytes) (retained c2 (err_bytes evs)) \<and>
    (cr_StdoutTruncated res \<longleftrightarrow> MaxCommandOutputBytes < int (length (retained c1 (out_bytes evs)))) \<and>
    (MaxCommandOutputBytes < c1 \<longrightarrow>
       (\<not> cr_StdoutTruncated res \<longleftrightarrow> cr_Stdout res = out_bytes evs)) \<and>
    (MaxCommandOutputBytes < c2 \<longrightarrow>
       (\<not> cr_StderrTruncated res \<longleftrightarrow> cr_Stderr res = err_bytes evs))"
proof -
  have full: "\<not> MaxCommandOutputBytes < int (length (retained c s)) \<longleftrightarrow>
      take (nat MaxCommandOutputBytes) (retained c s) = s" if "MaxCommandOutputBytes < c" for c s
  proof
    assume "\<not> MaxCommandOutputBytes < int (length (retained c s))"
    then show "take (nat MaxCommandOutputBytes) (retained c s) = s"
      using that by (auto simp: retained_def MaxCommandOutputBytes_def)
  next
    assume eq: "take (nat MaxCommandOutputBytes) (retained c s) = s"
    have "length s \<le> nat MaxCommandOutputBytes"
      by (subst (1) eq [symmetric]) simp
    then show "\<not> MaxCommandOutputBytes < int (length (retained c s))"
      by (simp add: retained_def MaxCommandOutputBytes_def)
  qed
  have ex: "rec_Exited r" and w: "wait_result = (rec_ExitCode r, False)"
    using assms(2) by (simp_all add: waited_done)
  show ?thesis
    using exec_result_exited [OF assms(1) ex assms(3-9), of "rec_ExitCode r"]
    by (simp add: w full)
qed

text \<open>
  C21. The verdict of command.read on a sandboxed command that ended in time, from the end of the
  child to the answer. If the child wrote anything to its status pipe, the sandbox could not be
  set up and the answer is the error sandbox_violation, whatever the exit code; otherwise it is a
  success that carries the child's exit code, -1 for a child a signal killed, and its
  violation flag is set exactly when the child did not exit with 0.
\<close>

theorem command_read_verdict:
  assumes "proc_run (new_record pid ospid now c1 c2) evs r"
    and "ExitSeen (fst (sandbox_wait h (Inr status) statusData remove_err w)) \<in> set evs"
    and "rec_Wait r ctxDone ArmDone = Some wait_result"
    and "0 \<le> c1" "c1 < 2 ^ 63" "0 \<le> c2" "c2 < 2 ^ 63"
    and "int (length (out_bytes evs)) < 2 ^ 62" "int (length (err_bytes evs)) < 2 ^ 62"
    and "\<forall>r' \<in> {r0, r1, r2, r3, r4}. \<exists>evs'. proc_run r evs' r'"
  shows "case Read_result r0 r1 r2 r3 r4 wait_result of
      None \<Rightarrow> False
    | Some (Inl err) \<Rightarrow> statusData \<noteq> [] \<and> rpc_Code err = ErrSandboxViolation
    | Some (Inr res) \<Rightarrow> statusData = [] \<and> \<not> cr_TimedOut res \<and>
        cr_ExitCode res = Some (case status of Exited n \<Rightarrow> n | Signaled s \<Rightarrow> -1) \<and>
        (cr_SandboxViolation res \<longleftrightarrow> status \<noteq> Exited 0)"
proof -
  let ?er = "fst (sandbox_wait h (Inr status) statusData remove_err w)"
  have er: "er_Err ?er = None" "er_ExitCode ?er = status_ExitCode status"
    "er_SandboxSetupFailed ?er \<longleftrightarrow> statusData \<noteq> []"
    by (auto simp: sandbox_wait_def Let_def)
  have ex: "rec_Exited r" and wr: "wait_result = (rec_ExitCode r, False)"
    using assms(3) by (simp_all add: waited_done)
  have inv: "proc_inv r" using assms(1) proc_inv_new by (rule proc_inv_run)
  have "carries ?er r" using carries_run [OF assms(1) proc_inv_new assms(2)] .
  then have code: "rec_ExitCode r = Some (status_ExitCode status)"
    and su: "rec_SandboxSetupFailed r \<longleftrightarrow> statusData \<noteq> []"
    using done_published [OF inv ex] er by (auto simp: carries_def)
  have su0: "rec_SandboxSetupFailed r0 \<longleftrightarrow> statusData \<noteq> []"
    using assms(10) exited_buffers [OF assms(1) ex assms(4-9)] su by blast
  have "\<forall>r' \<in> {r1, r2, r3, r4}. \<exists>evs'. proc_run r evs' r'" using assms(10) by blast
  from exec_result_exited [OF assms(1) ex assms(4-9) this, of "Some (status_ExitCode status)"]
  obtain cr where "Exec_result r1 r2 r3 r4 (Some (status_ExitCode status), False) = Some cr"
    "cr_ExitCode cr = Some (status_ExitCode status)" "\<not> cr_TimedOut cr"
    by simp
  then show ?thesis
    by (cases status) (auto simp: wr Read_result_exec su0 code)
qed

text \<open>
  command.read never runs a command outside the sandbox. Whatever its parameters and whatever
  fails, the plain Manager is untouched; without a sandbox Manager nothing changes at all and
  the answer is unsupported; and when a command was started, its process is tracked by the
  sandbox Manager alone.
\<close>

lemma command_read_only_sandboxed:
  assumes "Read_start eng h parsed v s = (res, s')"
  shows "ag_mgr s' = ag_mgr s \<and>
    (ag_sandboxMgr s = None \<longrightarrow>
       s' = s \<and> (\<exists>msg. res = Inl (RPCErr ErrUnsupported msg))) \<and>
    (\<forall>wt. res = Inr wt \<longrightarrow> (\<exists>m m'. ag_sandboxMgr s = Some m \<and> ag_sandboxMgr s' = Some m' \<and>
       mgr_Get m' (sv_pid v) = Some (wt_addr wt) \<and> wt_addr wt = length (ag_heap s) \<and>
       (mgr_Get (ag_mgr s) (sv_pid v) = None \<longrightarrow> mgr_Get (ag_mgr s') (sv_pid v) = None)))"
  using assms
  by (auto simp: Read_start_def mgr_Start_def try_RecordStart_def ag_logf_def Let_def mgr_Get_def mgr_put_def
      split: option.splits sum.splits prod.splits)

text \<open>
  No caller can hold a handler open without bound: the timeout of every command.exec and
  command.read that starts a command lies between 1 ms and 5 minutes, whatever the request and
  the configured default; a request inside that range is honoured as it is.
\<close>

theorem command_timeout_bounded:
  assumes "h = NewCommandHandlers deviceID defaultTimeoutMs"
    and "Exec_start eng h (Inr p) v s = (Inr w, s') \<or> Read_start eng h (Inr p) v s = (Inr w, s')"
  shows "1 \<le> wt_timeoutMs w \<and> wt_timeoutMs w \<le> 300000 \<and>
    (1 \<le> cp_TimeoutMs p \<and> cp_TimeoutMs p \<le> 300000 \<longrightarrow> wt_timeoutMs w = cp_TimeoutMs p)"
proof -
  have "wt_timeoutMs w = clampTimeoutMs (cp_TimeoutMs p) (ch_defaultTimeoutMs h)"
    using assms(2)
    by (auto simp: Exec_start_def Read_start_def Let_def split: prod.splits sum.splits option.splits)
  then show ?thesis
    by (auto simp: assms(1) NewCommandHandlers_def clampTimeoutMs_def maxExecTimeoutMs_def
        defaultExecTimeoutMs_def Let_def)
qed

text \<open>
  The answer of command.exec after a timeout: the process goes on writing while the answer is
  assembled. It carries no exit code and the first 2 MiB of what each buffer retained when it
  was read; the truncation flag says that, by the time the length is taken, the process had
  written anything beyond the bytes returned, be it one byte of a tiny output that arrived in
  between: unlike the documentation of the field, it does not imply that 2 MiB were exceeded.
\<close>

theorem command_timeout_output:
  assumes "proc_run (new_record pid ospid now c1 c2) evs r1"
    and "proc_run r1 evs2 r2" and "proc_run r2 evs3 r3" and "proc_run r3 evs4 r4"
    and "0 \<le> c1" "c1 < 2 ^ 63" "0 \<le> c2" "c2 < 2 ^ 63"
    and "int (length (out_bytes (evs @ evs2 @ evs3 @ evs4))) < 2 ^ 62"
    and "int (length (err_bytes (evs @ evs2 @ evs3 @ evs4))) < 2 ^ 62"
  shows "\<exists>res. Exec_result r1 r2 r3 r4 (None, True) = Some res \<and>
    cr_TimedOut res \<and> cr_ExitCode res = None \<and>
    cr_Stdout res = take (nat MaxCommandOutputBytes) (retained c1 (out_bytes evs)) \<and>
    cr_Stderr res = take (nat MaxCommandOutputBytes) (retained c2 (err_bytes (evs @ evs2))) \<and>
    (cr_StdoutTruncated res \<longleftrightarrow>
       max 0 (int (length (out_bytes evs)) - c1) + int (length (cr_Stdout res)) <
       int (length (out_bytes (evs @ evs2 @ evs3))))"
proof -
  have run2: "proc_run (new_record pid ospid now c1 c2) (evs @ evs2) r2"
    using assms(2,1) by (rule proc_run_trans)
  have run3: "proc_run (new_record pid ospid now c1 c2) ((evs @ evs2) @ evs3) r3"
    using assms(3) run2 by (rule proc_run_trans)
  have rep1: "rb_rep (pr_Stdout r1) (out_bytes evs)" "rb_cap (pr_Stdout r1) = c1"
    and rep2: "rb_rep (pr_Stderr r2) (err_bytes (evs @ evs2))" "rb_cap (pr_Stderr r2) = c2"
    and rep3: "rb_rep (pr_Stdout r3) (out_bytes ((evs @ evs2) @ evs3))"
    using run_reps [OF assms(1) refl assms(5-8)] run_reps [OF run2 refl assms(5-8)]
      run_reps [OF run3 refl assms(5-8)] assms(9,10) proc_run_caps [OF assms(1)] proc_run_caps [OF run2]
    by (simp_all add: new_record_def NewRingBuffer_def)
  have small: "int (length (out_bytes evs)) < 2 ^ 62" "int (length (err_bytes (evs @ evs2))) < 2 ^ 62"
    using assms(9,10) by simp_all
  have "0 < MaxCommandOutputBytes" "int (length (out_bytes evs)) + MaxCommandOutputBytes < 2 ^ 63"
    using small by (simp_all add: MaxCommandOutputBytes_def)
  from ring.read_from_start [OF rep1(1) this]
  obtain tr where o: "rb_ReadFrom (pr_Stdout r1) 0 MaxCommandOutputBytes =
      Some (take (nat MaxCommandOutputBytes) (retained c1 (out_bytes evs)),
        oldest c1 (out_bytes evs) + int (length (take (nat MaxCommandOutputBytes) (retained c1 (out_bytes evs)))), tr)"
    by (simp only: rep1(2) retained_oldest [OF assms(5)] Let_def)
  obtain n2 t2 where e: "rb_ReadFrom (pr_Stderr r2) 0 MaxCommandOutputBytes =
      Some (take (nat MaxCommandOutputBytes) (retained c2 (err_bytes (evs @ evs2))), n2, t2)"
    using one_shot_read [OF rep2(1) small(2)] rep2(2) by metis
  have "rb_Len (pr_Stdout r3) = int (length (out_bytes ((evs @ evs2) @ evs3)))"
    using rep3 by (rule ring.rep_len)
  then show ?thesis
    by (simp add: Exec_result_def o e oldest_def del: length_take)
qed

lemma try_RecordStart_frame [simp]:
  "ag_mgr (try_RecordStart eng e s) = ag_mgr s"
  "ag_sandboxMgr (try_RecordStart eng e s) = ag_sandboxMgr s"
  "ag_heap (try_RecordStart eng e s) = ag_heap s"
  "ag_background (try_RecordStart eng e s) = ag_background s"
  "set (ag_log s) \<subseteq> set (ag_log (try_RecordStart eng e s))"
  "ag_db (try_RecordStart eng e s) = snd (RecordStart eng (ag_db s) e)"
  by (auto simp: try_RecordStart_def ag_logf_def split: prod.splits option.splits)


subsection \<open>Witnesses\<close>

abbreviation big_record :: process_record where
  "big_record \<equiv> new_record sample_pid 4242 sample_now 4194304 4194304"

lemma big_exec:
  obtains r where "proc_run big_record (sample_schedule @ [CloseDone]) r" "rec_ExitCode r = Some 3" "rec_Exited r"
proof -
  let ?r = "the (proc_exec big_record (sample_schedule @ [CloseDone]))"
  have "proc_exec big_record (sample_schedule @ [CloseDone]) = Some ?r \<and> rec_ExitCode ?r = Some 3 \<and> rec_Exited ?r"
    by (simp add: sample_schedule_def new_record_def NewRingBuffer_def rb_Write_def
        publish_def rec_ExitCode_def rec_Exited_def i64_def)
  then show ?thesis using that proc_exec_run by blast
qed

lemma sample_bytes [simp]:
  "out_bytes sample_schedule = ''hello''" "err_bytes sample_schedule = []"
  by (simp_all add: sample_schedule_def)

theorem command_exec_output_witness:
  "\<exists>r res. proc_run big_record (sample_schedule @ [CloseDone]) r \<and>
     Exec_result r r r r (Some 3, False) = Some res \<and> cr_ExitCode res = Some 3 \<and>
     cr_Stdout res = ''hello'' \<and> \<not> cr_StdoutTruncated res"
proof (rule big_exec)
  fix r
  assume r: "proc_run big_record (sample_schedule @ [CloseDone]) r" "rec_ExitCode r = Some 3" "rec_Exited r"
  then have "rec_Wait r False ArmDone = Some (Some 3, False)" by (simp add: waited_done)
  moreover have "\<forall>r' \<in> {r, r, r, r}. \<exists>evs'. proc_run r evs' r'" using proc_run.run_nil by blast
  ultimately show ?thesis
    using command_exec_output [OF r(1), of False "(Some 3, False)" r r r r] r
    by (auto simp: retained_def MaxCommandOutputBytes_def)
qed

theorem command_read_verdict_witness:
  "\<exists>r. proc_run big_record (sample_schedule @ [CloseDone]) r \<and>
     (case Read_result r r r r r (Some 3, False) of
        Some (Inr res) \<Rightarrow> cr_ExitCode res = Some 3 \<and> cr_SandboxViolation res | _ \<Rightarrow> False)"
proof (rule big_exec)
  fix r
  assume r: "proc_run big_record (sample_schedule @ [CloseDone]) r" "rec_ExitCode r = Some 3" "rec_Exited r"
  let ?h = "\<lparr>sh_pid = 4242, sh_io = \<lparr>io_stdout = 0, io_stderr = 1, io_stdin = 2\<rparr>, sh_status = 3, sh_scratchDir = ''/tmp/s''\<rparr>"
  let ?w = "\<lparr>ow_scratch = [''/tmp/s''], ow_open = [ReadEnd 3], ow_pipes = 4\<rparr>"
  have "ExitSeen (fst (sandbox_wait ?h (Inr (Exited 3)) [] None ?w)) \<in> set (sample_schedule @ [CloseDone])"
    by (simp add: sandbox_wait_def sample_schedule_def Let_def)
  moreover have "rec_Wait r False ArmDone = Some (Some 3, False)" using r by (simp add: waited_done)
  moreover have "\<forall>r' \<in> {r, r, r, r, r}. \<exists>evs'. proc_run r evs' r'" using proc_run.run_nil by blast
  ultimately show ?thesis
    using command_read_verdict [OF r(1), of ?h "Exited 3" "[]" None ?w False "(Some 3, False)" r r r r r] r
    by (intro exI [of _ r]) (auto split: option.split_asm sum.split_asm)
qed

definition sample_params :: command_params where
  "sample_params = \<lparr>cp_Command = ''make'', cp_Cwd = [], cp_Env = [], cp_TimeoutMs = 999999999,
     cp_ClientContextID = [], cp_ClientSubject = []\<rparr>"

definition sample_env :: start_env where
  "sample_env = \<lparr>sv_backend = (\<lambda>opts. Inr 4242), sv_pid_random = sample_random, sv_now = sample_now, sv_exec_random = sample_random\<rparr>"

abbreviation sample_execID :: string where
  "sample_execID \<equiv> newExecutionID sample_random"

lemma sample_execID_neq [simp]: "length x \<noteq> 32 \<Longrightarrow> x \<noteq> sample_execID \<and> sample_execID \<noteq> x"
  by (auto simp: newExecutionID_def sample_random_def)

lemmas sample_env_defs = sample_env_def sv_pid_def sv_execID_def

definition sample_agent :: "mem_db agent" where
  "sample_agent = \<lparr>ag_mgr = NewManager 4 4 10, ag_sandboxMgr = Some (NewManager 4 4 10), ag_heap = [],
     ag_db = sample_db, ag_background = [], ag_log = []\<rparr>"

lemma sample_Read_start:
  obtains s' where "Read_start mem_engine (NewCommandHandlers ''dev'' 0) (Inr sample_params) sample_env sample_agent =
    (Inr \<lparr>wt_execID = sample_execID, wt_addr = 0, wt_timeoutMs = 300000\<rparr>, s')"
  by (simp add: Read_start_def sample_agent_def sample_env_defs sample_params_def mgr_Start_def NewCommandHandlers_def
      clampTimeoutMs_def maxExecTimeoutMs_def Let_def)

theorem command_timeout_bounded_witness:
  "\<exists>wt s'. Read_start mem_engine (NewCommandHandlers ''dev'' 0) (Inr sample_params) sample_env sample_agent = (Inr wt, s') \<and>
     1 \<le> wt_timeoutMs wt \<and> wt_timeoutMs wt \<le> 300000"
proof (rule sample_Read_start)
  fix s'
  assume r: "Read_start mem_engine (NewCommandHandlers ''dev'' 0) (Inr sample_params) sample_env sample_agent =
    (Inr \<lparr>wt_execID = sample_execID, wt_addr = 0, wt_timeoutMs = 300000\<rparr>, s')"
  show ?thesis using command_timeout_bounded [OF refl disjI2 [OF r]] r by auto
qed

text \<open>Three bytes in all, the last one between the read and the length: flagged as truncated.\<close>

theorem command_timeout_output_witness:
  "\<exists>r1 r3 res. proc_run big_record [OutChunk ''ab''] r1 \<and> proc_run r1 [OutChunk ''c''] r3 \<and>
     Exec_result r1 r1 r3 r3 (None, True) = Some res \<and> cr_Stdout res = ''ab'' \<and> cr_StdoutTruncated res"
proof -
  let ?r1 = "the (proc_exec big_record [OutChunk ''ab''])"
  let ?r3 = "the (proc_exec ?r1 [OutChunk ''c''])"
  have "proc_exec big_record [OutChunk ''ab''] = Some ?r1" "proc_exec ?r1 [OutChunk ''c''] = Some ?r3"
    by (simp_all add: new_record_def NewRingBuffer_def rb_Write_def i64_def)
  note runs = this [THEN proc_exec_run]
  show ?thesis
    using command_timeout_output [OF runs(1) proc_run.run_nil runs(2) proc_run.run_nil] runs
    by (auto simp: retained_def MaxCommandOutputBytes_def)
qed


end
