(* ===== verification/Processes.thy ===== *)
theory Processes
  imports Commands
begin

text \<open>
  The handlers of process.start, read, write, wait, terminate and list
  (agent/handlers_process.go) over the shared state of theory Commands, and of execution.list
  and execution.get (agent/handlers_execution.go).
\<close>

section \<open>Parameters and results\<close>

record process_start_params =
  ps_Command :: string
  ps_Cwd :: string
  ps_Env :: "(string, string) gomap"
  ps_ClientContextID :: string
  ps_ClientSubject :: string

record process_start_result =
  psr_ProcessID :: string
  psr_OSPID :: int

record process_read_params =
  prp_ProcessID :: string
  prp_StdoutOffset :: int
  prp_StderrOffset :: int
  prp_MaxBytes :: int

record process_read_result =
  prr_Stdout :: bytes
  prr_Stderr :: bytes
  prr_NextStdoutOffset :: int
  prr_NextStderrOffset :: int
  prr_StdoutTruncatedBefore :: bool
  prr_StderrTruncatedBefore :: bool
  prr_ExitCode :: "int option"

record process_write_params =
  pwp_ProcessID :: string
  pwp_Data :: bytes

record process_wait_params =
  pwt_ProcessID :: string
  pwt_TimeoutMs :: int

record process_wait_result =
  pwr_ExitCode :: "int option"
  pwr_TimedOut :: bool

record process_terminate_params =
  ptp_ProcessID :: string
  ptp_GraceMs :: int

record process_summary =
  psm_ProcessID :: string
  psm_OSPID :: int
  psm_State :: string
  psm_ExitCode :: "int option"
  psm_StartedAt :: string

definition defaultWaitTimeoutMs :: int where "defaultWaitTimeoutMs = 30000"
definition defaultGraceMs :: int where "defaultGraceMs = 5000"

definition notFound :: "string \<Rightarrow> rpc_error" where
  "notFound msg = RPCErr ErrProcessNotFound msg"

section \<open>Finding a process\<close>

text \<open>Which Manager tracks a process.\<close>

datatype owner = PlainMgr | SandboxMgr

definition find_process :: "'db agent \<Rightarrow> string \<Rightarrow> (nat \<times> owner) option" where
  "find_process s pid =
     (case mgr_Get (ag_mgr s) pid of
        Some addr \<Rightarrow> Some (addr, PlainMgr)
      | None \<Rightarrow>
          (case ag_sandboxMgr s of
             None \<Rightarrow> None
           | Some m \<Rightarrow> (case mgr_Get m pid of None \<Rightarrow> None | Some addr \<Rightarrow> Some (addr, SandboxMgr))))"

definition owner_mgr :: "'db agent \<Rightarrow> owner \<Rightarrow> manager" where
  "owner_mgr s who = (case who of PlainMgr \<Rightarrow> ag_mgr s | SandboxMgr \<Rightarrow> the (ag_sandboxMgr s))"

definition not_found_msg :: "string \<Rightarrow> string" where
  "not_found_msg pid = ''process_id not found: '' @ pid"

section \<open>process.start\<close>

definition process_Start ::
    "'db sql_engine \<Rightarrow> string \<Rightarrow> string + process_start_params \<Rightarrow> start_env \<Rightarrow> 'db agent \<Rightarrow>
     (rpc_error + process_start_result) \<times> 'db agent" where
  "process_Start eng deviceID parsed v s =
     (case parsed of
        Inl err \<Rightarrow> (Inl (RPCErr ErrInvalidRequest err), s)
      | Inr p \<Rightarrow>
          (case mgr_Start (ag_mgr s) (ag_heap s)
                  (sv_backend v \<lparr>so_Command = ps_Command p, so_Cwd = ps_Cwd p, so_Env = ps_Env p\<rparr>)
                  (sv_pid v) (sv_now v) of
             (Inl err, m, heap) \<Rightarrow>
               (Inl (RPCErr ErrInternal err), s\<lparr>ag_mgr := m, ag_heap := heap\<rparr>)
           | (Inr addr, m, heap) \<Rightarrow>
               let r = heap ! addr;
                   e = \<lparr>es_ExecutionID = sv_execID v, es_ProcessID = pr_ID r, es_DeviceID = deviceID,
                        es_Mode = ''process'', es_Command = ps_Command p, es_Cwd = ps_Cwd p,
                        es_StartedAt = t_wall (pr_StartedAt r),
                        es_ClientContextID = ps_ClientContextID p, es_ClientSubject = ps_ClientSubject p\<rparr>;
                   s1 = try_RecordStart eng e (s\<lparr>ag_mgr := m, ag_heap := heap\<rparr>)
               in (Inr \<lparr>psr_ProcessID = pr_ID r, psr_OSPID = pr_OSPID r\<rparr>,
                   s1\<lparr>ag_background := ag_background s1 @ [(sv_execID v, addr)]\<rparr>)))"

section \<open>process.read\<close>

definition clampMaxBytes :: "int \<Rightarrow> int" where
  "clampMaxBytes requested =
     (if requested \<le> 0 \<or> requested > MaxCommandOutputBytes then MaxCommandOutputBytes else requested)"

text \<open>
  The record as the three reads of it find it: the output goroutines run between them. \<open>None\<close> is
  a panic of \<open>ReadFrom\<close>.
\<close>

definition process_Read_answer ::
    "process_read_params \<Rightarrow> process_record \<Rightarrow> process_record \<Rightarrow> process_record \<Rightarrow>
     process_read_result option" where
  "process_Read_answer p r1 r2 r3 =
     (let maxBytes = clampMaxBytes (prp_MaxBytes p) in
     (case rb_ReadFrom (pr_Stdout r1) (prp_StdoutOffset p) maxBytes of
        None \<Rightarrow> None
      | Some (stdout, nextOut, truncOut) \<Rightarrow>
     (case rb_ReadFrom (pr_Stderr r2) (prp_StderrOffset p) maxBytes of
        None \<Rightarrow> None
      | Some (stderr, nextErr, truncErr) \<Rightarrow> Some
          \<lparr>prr_Stdout = stdout, prr_Stderr = stderr,
           prr_NextStdoutOffset = nextOut, prr_NextStderrOffset = nextErr,
           prr_StdoutTruncatedBefore = truncOut, prr_StderrTruncatedBefore = truncErr,
           prr_ExitCode = rec_ExitCode r3\<rparr>)))"

text \<open>
  \<open>view1\<close> to \<open>view3\<close> give the record at an address as the handler finds it at each access.
\<close>

definition process_Read ::
    "string + process_read_params \<Rightarrow> 'db agent \<Rightarrow>
     (nat \<Rightarrow> process_record) \<Rightarrow> (nat \<Rightarrow> process_record) \<Rightarrow> (nat \<Rightarrow> process_record) \<Rightarrow>
     (rpc_error + process_read_result) option" where
  "process_Read parsed s view1 view2 view3 =
     (case parsed of
        Inl err \<Rightarrow> Some (Inl (RPCErr ErrInvalidRequest err))
      | Inr p \<Rightarrow>
          (case find_process s (prp_ProcessID p) of
             None \<Rightarrow> Some (Inl (notFound (not_found_msg (prp_ProcessID p))))
           | Some (addr, _) \<Rightarrow>
               map_option Inr (process_Read_answer p (view1 addr) (view2 addr) (view3 addr))))"

section \<open>process.write\<close>

text \<open>\<open>stdin_write addr data\<close> is the error of the write to the pipe, which blocks until it is taken.\<close>

definition process_Write ::
    "string + process_write_params \<Rightarrow> (nat \<Rightarrow> bytes \<Rightarrow> string option) \<Rightarrow> 'db agent \<Rightarrow>
     (rpc_error + unit) \<times> 'db agent" where
  "process_Write parsed stdin_write s =
     (case parsed of
        Inl err \<Rightarrow> (Inl (RPCErr ErrInvalidRequest err), s)
      | Inr p \<Rightarrow>
          (case find_process s (pwp_ProcessID p) of
             None \<Rightarrow> (Inl (notFound (not_found_msg (pwp_ProcessID p))), s)
           | Some (addr, _) \<Rightarrow>
               (case stdin_write addr (pwp_Data p) of
                  Some err \<Rightarrow> (Inl (RPCErr ErrInternal err), ag_logf (StdinWriteFailed (pwp_ProcessID p) err) s)
                | None \<Rightarrow> (Inr (), s))))"

section \<open>process.wait\<close>

text \<open>Up to the blocking point: the record waited for and the timeout in milliseconds.\<close>

definition process_Wait_start ::
    "string + process_wait_params \<Rightarrow> 'db agent \<Rightarrow> rpc_error + nat \<times> int" where
  "process_Wait_start parsed s =
     (case parsed of
        Inl err \<Rightarrow> Inl (RPCErr ErrInvalidRequest err)
      | Inr p \<Rightarrow>
          (case find_process s (pwt_ProcessID p) of
             None \<Rightarrow> Inl (notFound (not_found_msg (pwt_ProcessID p)))
           | Some (addr, _) \<Rightarrow> Inr (addr, clampTimeoutMs (pwt_TimeoutMs p) defaultWaitTimeoutMs)))"

definition process_Wait_answer :: "int option \<times> bool \<Rightarrow> process_wait_result" where
  "process_Wait_answer wait_result =
     \<lparr>pwr_ExitCode = fst wait_result, pwr_TimedOut = snd wait_result\<rparr>"

section \<open>process.terminate\<close>

definition effective_grace :: "int \<Rightarrow> int" where
  "effective_grace graceMs = (if graceMs \<le> 0 then defaultGraceMs else graceMs)"

text \<open>
  \<open>s'\<close> is the state when the Manager looks the id up again; \<open>kill\<close> answers the signals to the
  process at an address and \<open>arms\<close> is what the select loop sees for a grace period in
  nanoseconds; \<open>errno_text\<close> is the text of an error number. \<open>None\<close>: the call has not returned yet. The last component is the signals sent.
\<close>

definition process_Terminate ::
    "(errno \<Rightarrow> string) \<Rightarrow> string + process_terminate_params \<Rightarrow> (nat \<Rightarrow> nat \<Rightarrow> signal \<Rightarrow> errno option) \<Rightarrow>
     (int \<Rightarrow> select_arm list) \<Rightarrow> 'db agent \<Rightarrow> 'db agent \<Rightarrow>
     ((rpc_error + bool) \<times> 'db agent \<times> signal list) option" where
  "process_Terminate errno_text parsed kill arms s s' =
     (case parsed of
        Inl err \<Rightarrow> Some (Inl (RPCErr ErrInvalidRequest err), s, [])
      | Inr p \<Rightarrow>
          let graceMs = effective_grace (ptp_GraceMs p); pid = ptp_ProcessID p
          in (case find_process s pid of
                None \<Rightarrow> Some (Inl (notFound (not_found_msg pid)), s, [])
              | Some (_, who) \<Rightarrow>
                  (case mgr_Terminate (owner_mgr s' who) pid
                          (\<lambda>n sig. kill (the (mgr_Get (owner_mgr s' who) pid)) n sig)
                          (arms (grace_ns graceMs)) of
                     None \<Rightarrow> None
                   | Some (None, sigs) \<Rightarrow> Some (Inr True, s', sigs)
                   | Some (Some ProcessNotFound, sigs) \<Rightarrow>
                       Some (Inl (notFound ''process_not_found''), s', sigs)
                   | Some (Some (KillFailed e), sigs) \<Rightarrow>
                       Some (Inl (RPCErr ErrInternal (errno_text e)), ag_logf (TerminateFailed pid e) s', sigs))))"

section \<open>process.list\<close>

definition summary_of :: "process_record \<Rightarrow> process_record \<Rightarrow> process_summary" where
  "summary_of r1 r2 =
     \<lparr>psm_ProcessID = pr_ID r1, psm_OSPID = pr_OSPID r1,
      psm_State = (if rec_Exited r2 then ''exited'' else ''running''),
      psm_ExitCode = rec_ExitCode r1, psm_StartedAt = fmt_rfc3339 (t_wall (pr_StartedAt r1))\<rparr>"

text \<open>
  \<open>view1\<close> and \<open>view2\<close> are the records as the loop reads their exit code and, after that, whether
  they exited.
\<close>

definition process_List ::
    "'db agent \<Rightarrow> (nat \<Rightarrow> process_record) \<Rightarrow> (nat \<Rightarrow> process_record) \<Rightarrow> process_summary list" where
  "process_List s view1 view2 =
     (let recs = mgr_List (ag_mgr s);
          recs = (case ag_sandboxMgr s of None \<Rightarrow> recs | Some m \<Rightarrow> recs @ mgr_List m)
      in map (\<lambda>a. summary_of (view1 a) (view2 a)) recs)"

section \<open>execution.list and execution.get\<close>

definition defaultExecutionListLimit :: int where "defaultExecutionListLimit = 100"

text \<open>\<open>err_text\<close> is the \<open>Error()\<close> text of a history error.\<close>

definition execution_List ::
    "'db sql_engine \<Rightarrow> (history_error \<Rightarrow> string) \<Rightarrow> string + int \<Rightarrow> 'db agent \<Rightarrow>
     (rpc_error + execution list) \<times> 'db agent" where
  "execution_List eng err_text parsed s =
     (case parsed of
        Inl err \<Rightarrow> (Inl (RPCErr ErrInvalidRequest err), s)
      | Inr requested \<Rightarrow>
          let limit = (if requested \<le> 0 then defaultExecutionListLimit else requested)
          in (case hist_List eng (ag_db s) limit of
                Inl err \<Rightarrow> (Inl (RPCErr ErrInternal (err_text err)), ag_logf (HistoryListFailed err) s)
              | Inr es \<Rightarrow> (Inr es, s)))"

definition execution_Get ::
    "'db sql_engine \<Rightarrow> (history_error \<Rightarrow> string) \<Rightarrow> string + string \<Rightarrow> 'db agent \<Rightarrow>
     (rpc_error + execution) \<times> 'db agent" where
  "execution_Get eng err_text parsed s =
     (case parsed of
        Inl err \<Rightarrow> (Inl (RPCErr ErrInvalidRequest err), s)
      | Inr execID \<Rightarrow>
          (case hist_Get eng (ag_db s) execID of
             Inl err \<Rightarrow>
               if err = HSql ErrNoRows
               then (Inl (RPCErr ErrInvalidRequest (''execution_id not found: '' @ execID)), s)
               else (Inl (RPCErr ErrInternal (err_text err)), ag_logf (HistoryGetFailed execID err) s)
           | Inr e \<Rightarrow> (Inr e, s)))"

section \<open>Properties\<close>

lemma clampMaxBytes_bounds: "1 \<le> clampMaxBytes n \<and> clampMaxBytes n \<le> MaxCommandOutputBytes"
  by (auto simp: clampMaxBytes_def MaxCommandOutputBytes_def)

text \<open>
  A page of a stream: what a read of at most \<open>n\<close> bytes from \<open>off\<close> gives when the last \<open>c\<close> bytes of
  the stream are kept: the bytes, the offset to go on from, and whether older bytes were dropped.
\<close>

definition stream_page :: "int \<Rightarrow> int \<Rightarrow> bytes \<Rightarrow> int \<Rightarrow> bytes \<times> int \<times> bool" where
  "stream_page n c s off =
     (let first_kept = max 0 (int (length s) - c);
          frm = max off first_kept;
          out = take (nat n) (drop (nat frm) s)
      in (out, frm + int (length out), off < first_kept))"


text \<open>
  Every process is reachable for process.read, write, wait and terminate by the same lookup,
  whichever Manager runs it: an id the plain Manager tracks is found there, one that only the
  sandbox Manager tracks is found there, and every other id gives each of the four calls the
  error process_not_found and changes nothing.
\<close>

theorem process_lookup_uniform:
  "(case find_process s pid of
      Some (a, who) \<Rightarrow> mgr_Get (owner_mgr s who) pid = Some a \<and>
        (who = SandboxMgr \<longrightarrow> ag_sandboxMgr s \<noteq> None \<and> mgr_Get (ag_mgr s) pid = None)
    | None \<Rightarrow> mgr_Get (ag_mgr s) pid = None \<and>
        (\<forall>m. ag_sandboxMgr s = Some m \<longrightarrow> mgr_Get m pid = None) \<and>
        (let err = RPCErr ErrProcessNotFound (''process_id not found: '' @ pid) in
         process_Read (Inr \<lparr>prp_ProcessID = pid, prp_StdoutOffset = o1, prp_StderrOffset = o2, prp_MaxBytes = n\<rparr>)
           s v1 v2 v3 = Some (Inl err) \<and>
         process_Write (Inr \<lparr>pwp_ProcessID = pid, pwp_Data = bs\<rparr>) stdin_write s = (Inl err, s) \<and>
         process_Wait_start (Inr \<lparr>pwt_ProcessID = pid, pwt_TimeoutMs = t\<rparr>) s = Inl err \<and>
         process_Terminate errno_text (Inr \<lparr>ptp_ProcessID = pid, ptp_GraceMs = t\<rparr>) kill arms s s' =
           Some (Inl err, s, [])))"
  by (auto simp: find_process_def owner_mgr_def process_Read_def process_Write_def process_Wait_start_def
      process_Terminate_def notFound_def not_found_msg_def Let_def split: option.splits)

text \<open>
  C37. process.terminate always returns, after a SIGTERM and at most one SIGKILL, as its last
  signal: for a process that is tracked when the call starts and still tracked when the
  Manager looks it up, and any number of ticks before the grace period ends. It answers
  \<open>terminated\<close> unless the kernel refused a signal for a reason other than an empty group, and
  then the refusal is logged and the answer is internal_error. A process the garbage collector
  forgot in between gives process_not_found, and no signal.
\<close>

theorem process_terminate_outcome:
  assumes "find_process s pid = Some (a, who)" and "\<forall>ns. \<exists>ticks. arms ns = arms_for ticks"
  shows "\<exists>res s'' sigs. process_Terminate errno_text (Inr \<lparr>ptp_ProcessID = pid, ptp_GraceMs = g\<rparr>) kill arms s s' =
      Some (res, s'', sigs) \<and>
    (case mgr_Get (owner_mgr s' who) pid of
       None \<Rightarrow> res = Inl (RPCErr ErrProcessNotFound ''process_not_found'') \<and> sigs = [] \<and> s'' = s'
     | Some b \<Rightarrow> hd sigs = SIGTERM \<and> SIGKILL \<notin> set (butlast sigs) \<and>
         (res = Inr True \<and> s'' = s' \<or>
          (\<exists>e n sig. kill b n sig = Some e \<and> e \<noteq> ESRCH \<and> res = Inl (RPCErr ErrInternal (errno_text e)) \<and>
             s'' = ag_logf (TerminateFailed pid e) s')))"
proof (cases "mgr_Get (owner_mgr s' who) pid")
  case None
  then show ?thesis
    using assms(1) by (simp add: process_Terminate_def mgr_Terminate_def notFound_def Let_def)
next
  case (Some b)
  obtain ticks where arms: "arms (grace_ns (effective_grace g)) = arms_for ticks"
    using assms(2) by blast
  obtain err sigs where t: "handle_Terminate (kill b) (arms_for ticks) = Some (err, sigs)"
    and sig: "hd sigs = SIGTERM" "SIGKILL \<notin> set (butlast sigs)"
    and err: "err = None \<or> (\<exists>e n sg. kill b n sg = Some e \<and> e \<noteq> ESRCH \<and> err = Some e)"
    using handle_Terminate_summary [of "kill b" ticks] by blast
  show ?thesis
  proof (cases err)
    case None
    then show ?thesis
      using assms(1) Some arms t sig by (simp add: process_Terminate_def mgr_Terminate_def Let_def)
  next
    case err': (Some e)
    then have "\<exists>n sg. kill b n sg = Some e" "e \<noteq> ESRCH" using err by auto
    then show ?thesis
      using assms(1) Some arms t sig err' by (auto simp: process_Terminate_def mgr_Terminate_def Let_def)
  qed
qed

subsection \<open>Witnesses\<close>


theorem process_lookup_uniform_witness:
  "find_process sample_agent ''p9'' = None \<and>
   process_Wait_start (Inr \<lparr>pwt_ProcessID = ''p9'', pwt_TimeoutMs = 0\<rparr>) sample_agent =
     Inl (RPCErr ErrProcessNotFound ''process_id not found: p9'')"
proof -
  have "find_process sample_agent ''p9'' = None"
    by (simp add: find_process_def sample_agent_def mgr_Get_def NewManager_def)
  then show ?thesis
    using process_lookup_uniform [where s = sample_agent and pid = "''p9''" and t = 0] by (simp add: Let_def)
qed

theorem process_terminate_outcome_witness:
  "let s = sample_agent\<lparr>ag_mgr := mgr_put ''p1'' 0 (ag_mgr sample_agent)\<rparr>; kill = (\<lambda>a n sig. if n < 2 then None else Some ESRCH)
   in \<exists>sigs. process_Terminate (\<lambda>e. []) (Inr \<lparr>ptp_ProcessID = ''p1'', ptp_GraceMs = 0\<rparr>) kill (\<lambda>ns. arms_for 250) s s =
      Some (Inr True, s, sigs) \<and> hd sigs = SIGTERM"
proof -
  let ?s = "sample_agent\<lparr>ag_mgr := mgr_put ''p1'' 0 (ag_mgr sample_agent)\<rparr>"
  let ?kill = "\<lambda>(a::nat) n (sig::signal). if n < (2::nat) then None else Some ESRCH"
  have f: "find_process ?s ''p1'' = Some (0, PlainMgr)" and g: "mgr_Get (owner_mgr ?s PlainMgr) ''p1'' = Some 0"
    by (simp_all add: find_process_def mgr_Get_def mgr_put_def owner_mgr_def)
  obtain res s'' sigs where t: "process_Terminate (\<lambda>e. []) (Inr \<lparr>ptp_ProcessID = ''p1'', ptp_GraceMs = 0\<rparr>) ?kill (\<lambda>ns. arms_for 250) ?s ?s =
      Some (res, s'', sigs)"
    and out: "hd sigs = SIGTERM" "res = Inr True \<and> s'' = ?s \<or> (\<exists>e n sig. ?kill 0 n sig = Some e \<and> e \<noteq> ESRCH)"
    using process_terminate_outcome [OF f, of "\<lambda>ns. arms_for 250" "\<lambda>e. []" 0 ?kill ?s] unfolding g option.case by blast
  from out(2) have "res = Inr True \<and> s'' = ?s" by (auto split: if_splits)
  then show ?thesis using t out(1) by (auto simp: Let_def)
qed

end
