(* ===== verification/Paths.thy ===== *)
theory Paths
  imports Prelude
begin

text \<open>
  What the program uses of package path/filepath on Unix: \<open>Clean\<close>, \<open>Join\<close>, \<open>Abs\<close>, \<open>Base\<close> and \<open>Dir\<close>, as functions
  on the components between slashes, and the normal form their results have. The working
  directory that \<open>Abs\<close> asks the operating system for is a parameter.
\<close>

section \<open>The functions\<close>

fun split_on :: "char \<Rightarrow> string \<Rightarrow> string list" where
  "split_on sep [] = [[]]"
| "split_on sep (c # cs) =
     (if c = sep then [] # split_on sep cs
      else (case split_on sep cs of
              [] \<Rightarrow> [[c]]
            | w # ws \<Rightarrow> (c # w) # ws))"

fun join_with :: "string \<Rightarrow> string list \<Rightarrow> string" where
  "join_with sep [] = []"
| "join_with sep [w] = w"
| "join_with sep (w # ws) = w @ sep @ join_with sep ws"

text \<open>\<open>stack\<close> holds the components kept so far, the last one first.\<close>

definition clean_step :: "bool \<Rightarrow> string \<Rightarrow> string list \<Rightarrow> string list" where
  "clean_step rooted seg stack =
     (if seg = [] \<or> seg = ''.'' then stack
      else if seg = ''..'' then
        (case stack of
           [] \<Rightarrow> if rooted then [] else [''..'']
         | last_seg # rest \<Rightarrow> if last_seg = ''..'' then ''..'' # stack else rest)
      else seg # stack)"

definition path_components :: "bool \<Rightarrow> string \<Rightarrow> string list" where
  "path_components rooted p = rev (fold (clean_step rooted) (split_on CHR ''/'' p) [])"

definition IsAbs :: "string \<Rightarrow> bool" where
  "IsAbs p \<longleftrightarrow> has_prefix p ''/''"

definition path_Clean :: "string \<Rightarrow> string" where
  "path_Clean p =
     (if p = [] then ''.''
      else if IsAbs p then ''/'' @ join_with ''/'' (path_components True p)
      else (let comps = path_components False p
            in if comps = [] then ''.'' else join_with ''/'' comps))"

definition path_Join :: "string list \<Rightarrow> string" where
  "path_Join elems =
     (case dropWhile (\<lambda>e. e = []) elems of
        [] \<Rightarrow> []
      | es \<Rightarrow> path_Clean (join_with ''/'' es))"

text \<open>\<open>wd\<close> is the result of \<open>os.Getwd\<close>.\<close>

definition path_Abs :: "string + string \<Rightarrow> string \<Rightarrow> string + string" where
  "path_Abs wd p =
     (if IsAbs p then Inr (path_Clean p)
      else (case wd of Inl err \<Rightarrow> Inl err | Inr d \<Rightarrow> Inr (path_Join [d, p])))"

definition path_Base :: "string \<Rightarrow> string" where
  "path_Base p =
     (if p = [] then ''.''
      else (let q = dropWhile (\<lambda>c. c = CHR ''/'') (rev p);
                b = rev (takeWhile (\<lambda>c. c \<noteq> CHR ''/'') q)
            in if b = [] then ''/'' else b))"

definition path_Dir :: "string \<Rightarrow> string" where
  "path_Dir p = path_Clean (rev (dropWhile (\<lambda>c. c \<noteq> CHR ''/'') (rev p)))"

section \<open>Normal paths\<close>

definition plain_component :: "string \<Rightarrow> bool" where
  "plain_component w \<longleftrightarrow> w \<noteq> [] \<and> w \<noteq> ''.'' \<and> w \<noteq> ''..'' \<and> CHR ''/'' \<notin> set w"

definition normal_path :: "string \<Rightarrow> bool" where
  "normal_path p \<longleftrightarrow> (\<exists>ws. p = ''/'' @ join_with ''/'' ws \<and> (\<forall>w \<in> set ws. plain_component w))"

lemma split_on_no_sep: "w \<in> set (split_on sep p) \<Longrightarrow> sep \<notin> set w"
  by (induction p arbitrary: w rule: split_on.induct) (auto split: if_splits list.splits)

lemma split_on_chars: "w \<in> set (split_on sep p) \<Longrightarrow> set w \<subseteq> set p"
  by (induction p arbitrary: w rule: split_on.induct) (fastforce split: if_splits list.splits)+

lemma split_on_neq_Nil [simp]: "split_on sep p \<noteq> []"
  by (induction p rule: split_on.induct) (auto split: list.splits)

lemma split_on_word: "sep \<notin> set w \<Longrightarrow> split_on sep w = [w]"
  by (induction w) auto

lemma split_on_append: "sep \<notin> set w \<Longrightarrow> split_on sep (w @ sep # p) = w # split_on sep p"
  by (induction w) auto

lemma split_join:
  "ws \<noteq> [] \<Longrightarrow> \<forall>w \<in> set ws. sep \<notin> set w \<Longrightarrow> split_on sep (join_with [sep] ws) = ws"
  by (induction "[sep]" ws rule: join_with.induct) (auto simp: split_on_word split_on_append)

lemma clean_fold_plain:
  "\<forall>w \<in> set ws. CHR ''/'' \<notin> set w \<Longrightarrow> \<forall>w \<in> set stack. plain_component w \<Longrightarrow>
   \<forall>w \<in> set (fold (clean_step True) ws stack). plain_component w"
proof (induction ws arbitrary: stack)
  case (Cons w ws)
  have "\<forall>v \<in> set (clean_step True w stack). plain_component v"
    using Cons.prems by (cases stack) (simp_all add: clean_step_def plain_component_def)
  then show ?case using Cons by simp
qed simp

lemma clean_fold_chars:
  "w \<in> set (fold (clean_step rooted) ws stack) \<Longrightarrow> w \<in> set ws \<union> set stack \<union> {''..''}"
proof (induction ws arbitrary: stack)
  case (Cons v ws)
  have "set (clean_step rooted v stack) \<subseteq> insert v (set stack) \<union> {''..''}"
    by (cases stack) (auto simp: clean_step_def)
  moreover have "w \<in> set ws \<union> set (clean_step rooted v stack) \<union> {''..''}"
    using Cons.IH [of "clean_step rooted v stack"] Cons.prems by simp
  ultimately show ?case by auto
qed simp

lemma components_plain: "w \<in> set (path_components True p) \<Longrightarrow> plain_component w"
proof -
  assume w: "w \<in> set (path_components True p)"
  have "\<forall>v \<in> set (split_on CHR ''/'' p). CHR ''/'' \<notin> set v"
    by (intro ballI split_on_no_sep)
  moreover have "\<forall>v \<in> set []. plain_component v" by simp
  ultimately show "plain_component w"
    using w clean_fold_plain unfolding path_components_def set_rev by blast
qed

lemma normal_Clean: "IsAbs p \<Longrightarrow> normal_path (path_Clean p)"
  using components_plain by (auto simp: path_Clean_def normal_path_def IsAbs_def has_prefix_def)

lemma IsAbs_append: "IsAbs p \<Longrightarrow> IsAbs (p @ q)"
  by (cases p) (auto simp: IsAbs_def has_prefix_def)

lemma IsAbs_neq_Nil: "IsAbs p \<Longrightarrow> p \<noteq> []"
  by (auto simp: IsAbs_def has_prefix_def)

lemma normal_Abs:
  assumes "path_Abs wd p = Inr q" and "\<And>d. wd = Inr d \<Longrightarrow> IsAbs d"
  shows "normal_path q"
proof (cases "IsAbs p")
  case True
  then show ?thesis using assms(1) normal_Clean [OF True] by (simp add: path_Abs_def)
next
  case False
  then obtain d where d: "wd = Inr d" "q = path_Join [d, p]"
    using assms(1) by (auto simp: path_Abs_def split: sum.splits)
  then have "IsAbs d" "d \<noteq> []" using assms(2) IsAbs_neq_Nil by auto
  then show ?thesis
    using d(2) normal_Clean [OF IsAbs_append, of d] by (simp add: path_Join_def)
qed

text \<open>Cleaning a normal path changes nothing.\<close>

lemma clean_step_plain: "plain_component w \<Longrightarrow> clean_step r w stack = w # stack"
  by (auto simp: plain_component_def clean_step_def)

lemma clean_fold_id: "\<forall>w \<in> set ws. plain_component w \<Longrightarrow> fold (clean_step r) ws stack = rev ws @ stack"
  by (induction ws arbitrary: stack) (auto simp: clean_step_plain)

lemma Clean_normal: "normal_path p \<Longrightarrow> path_Clean p = p"
proof -
  assume "normal_path p"
  then obtain ws where p: "p = ''/'' @ join_with ''/'' ws" and ws: "\<forall>w \<in> set ws. plain_component w"
    by (auto simp: normal_path_def)
  have abs: "IsAbs p" by (simp add: p IsAbs_def has_prefix_def)
  have "path_components True p = ws"
  proof (cases "ws = []")
    case True
    then show ?thesis by (simp add: p path_components_def clean_step_def)
  next
    case False
    have "split_on CHR ''/'' (join_with ''/'' ws) = ws"
      using ws by (intro split_join [OF False]) (auto simp: plain_component_def)
    then show ?thesis
      using clean_fold_id [OF ws, of True "[]"] by (simp add: p path_components_def clean_step_def)
  qed
  then show ?thesis using abs IsAbs_neq_Nil [OF abs] by (simp add: path_Clean_def) (simp add: p)
qed

lemma normal_not_option: "normal_path p \<Longrightarrow> \<not> has_prefix p ''-''"
  by (auto simp: normal_path_def has_prefix_def)

text \<open>No character appears that neither the path nor the working directory has, but a slash or a dot.\<close>

lemma join_chars: "set (join_with sep ws) \<subseteq> set sep \<union> \<Union> (set ` set ws)"
  by (induction sep ws rule: join_with.induct) auto

lemma components_chars: "w \<in> set (path_components r p) \<Longrightarrow> set w \<subseteq> insert CHR ''.'' (set p)"
  using clean_fold_chars [of w r "split_on CHR ''/'' p" "[]"] split_on_chars [of w "CHR ''/''" p]
  by (auto simp: path_components_def)

lemma Clean_chars: "set (path_Clean p) \<subseteq> {CHR ''/'', CHR ''.''} \<union> set p"
proof -
  have "set (join_with ''/'' (path_components r p)) \<subseteq> {CHR ''/'', CHR ''.''} \<union> set p" for r
    using join_chars [of "''/''" "path_components r p"] components_chars [of _ r p] by fastforce
  then show ?thesis by (auto simp: path_Clean_def Let_def)
qed

lemma Abs_chars:
  assumes "path_Abs wd p = Inr q" and "\<And>d. wd = Inr d \<Longrightarrow> \<not> contains_nul d" and "\<not> contains_nul p"
  shows "\<not> contains_nul q"
proof (cases "IsAbs p")
  case True
  then show ?thesis using assms(1,3) Clean_chars [of p] by (auto simp: path_Abs_def contains_nul_def)
next
  case False
  then obtain d where d: "wd = Inr d" "q = path_Join [d, p]"
    using assms(1) by (auto simp: path_Abs_def split: sum.splits)
  then have "\<not> contains_nul d" using assms(2) by blast
  moreover have "set q \<subseteq> {CHR ''/'', CHR ''.''} \<union> set d \<union> set p"
    using Clean_chars [of "d @ ''/'' @ p"] Clean_chars [of p]
    by (auto simp: d(2) path_Join_def)
  ultimately show ?thesis using assms(3) by (auto simp: contains_nul_def)
qed

end
