(* ===== verification/Files.thy ===== *)
theory Files
  imports Paths Proto Clock
begin

text \<open>
  The handlers of the file methods (agent/handlers_fs.go): path validation, the mapping of
  operating-system errors, base64, and the seven handlers over the file system. The calls of
  package os are a record of functions on the state of the file system; what the properties
  rely on of them is stated as a contract.
\<close>

section \<open>The calls of package os\<close>

text \<open>An error with its text, by what \<open>os.IsNotExist\<close> and \<open>os.IsPermission\<close> say of it.\<close>

datatype os_error = NotExistErr string | PermissionErr string | OtherErr string

fun os_error_text :: "os_error \<Rightarrow> string" where
  "os_error_text (NotExistErr t) = t"
| "os_error_text (PermissionErr t) = t"
| "os_error_text (OtherErr t) = t"

record file_info =
  fi_Size :: int
  fi_Mode :: string
  fi_ModTime :: utc
  fi_IsDir :: bool

text \<open>An entry of a directory; its \<open>Info\<close> fails when the entry vanished meanwhile.\<close>

record dir_entry =
  de_Name :: string
  de_IsDir :: bool
  de_Info :: "os_error + file_info"

datatype open_flag = O_WRONLY | O_CREATE | O_TRUNC | O_APPEND

text \<open>\<open>'fs\<close> is the state of the file system, open files included; an open file is a descriptor.\<close>

record 'fs os_calls =
  os_Stat :: "'fs \<Rightarrow> string \<Rightarrow> os_error + file_info"
  os_ReadFile :: "'fs \<Rightarrow> string \<Rightarrow> os_error + bytes"
  os_ReadDir :: "'fs \<Rightarrow> string \<Rightarrow> os_error + dir_entry list"
  os_OpenFile :: "string \<Rightarrow> open_flag list \<Rightarrow> nat \<Rightarrow> 'fs \<Rightarrow> (os_error + nat) \<times> 'fs"
  os_WriteFd :: "nat \<Rightarrow> bytes \<Rightarrow> 'fs \<Rightarrow> os_error option \<times> 'fs"
  os_CloseFd :: "nat \<Rightarrow> 'fs \<Rightarrow> os_error option \<times> 'fs"
  os_Rename :: "string \<Rightarrow> string \<Rightarrow> 'fs \<Rightarrow> os_error option \<times> 'fs"
  os_Remove :: "string \<Rightarrow> 'fs \<Rightarrow> os_error option \<times> 'fs"
  os_Mkdir :: "string \<Rightarrow> nat \<Rightarrow> 'fs \<Rightarrow> os_error option \<times> 'fs"
  os_MkdirAll :: "string \<Rightarrow> nat \<Rightarrow> 'fs \<Rightarrow> os_error option \<times> 'fs"

definition osErrorToRPCError :: "os_error \<Rightarrow> rpc_error" where
  "osErrorToRPCError err =
     (case err of
        NotExistErr t \<Rightarrow> RPCErr ErrInvalidRequest t
      | PermissionErr t \<Rightarrow> RPCErr ErrPermissionDenied t
      | OtherErr t \<Rightarrow> RPCErr ErrInternal t)"

definition validatePath :: "string + string \<Rightarrow> string \<Rightarrow> rpc_error + string" where
  "validatePath wd path =
     (if path = [] then Inl (RPCErr ErrInvalidRequest ''path must not be empty'')
      else if contains_nul path then Inl (RPCErr ErrInvalidRequest ''path must not contain a NUL byte'')
      else (case path_Abs wd (path_Clean path) of
              Inl err \<Rightarrow> Inl (RPCErr ErrInvalidRequest err)
            | Inr p \<Rightarrow> Inr p))"

section \<open>Standard base64\<close>

definition b64_alphabet :: string where
  "b64_alphabet = ''ABCDEFGHIJKLMNOPQRSTUVWXYZabcdefghijklmnopqrstuvwxyz0123456789+/''"

definition b64_char :: "nat \<Rightarrow> char" where
  "b64_char n = b64_alphabet ! (n mod 64)"

definition b64_digit :: "char \<Rightarrow> nat option" where
  "b64_digit c = map_of (zip b64_alphabet [0 ..< 64]) c"

fun EncodeToString :: "bytes \<Rightarrow> string" where
  "EncodeToString [] = []"
| "EncodeToString [a] =
     (let v = of_char a * 16 :: nat in [b64_char (v div 64), b64_char v, CHR ''='', CHR ''=''])"
| "EncodeToString [a, b] =
     (let v = (of_char a * 256 + of_char b) * 4 :: nat
      in [b64_char (v div 4096), b64_char (v div 64), b64_char v, CHR ''=''])"
| "EncodeToString (a # b # c # rest) =
     (let v = (of_char a * 256 + of_char b) * 256 + of_char c :: nat
      in [b64_char (v div 262144), b64_char (v div 4096), b64_char (v div 64), b64_char v] @ EncodeToString rest)"

text \<open>
  Decoding by groups of four: padding only in the last one. Bits beyond the last byte are not
  checked, as the decoder is not the strict one.
\<close>

fun b64_groups :: "string \<Rightarrow> bytes option" where
  "b64_groups [] = Some []"
| "b64_groups (w # x # y # z # rest) =
     (case (b64_digit w, b64_digit x) of
        (Some i, Some j) \<Rightarrow>
          if y = CHR ''='' then
            (if z = CHR ''='' \<and> rest = [] then Some [char_of ((i * 64 + j) div 16)] else None)
          else
            (case b64_digit y of
               None \<Rightarrow> None
             | Some k \<Rightarrow>
                 if z = CHR ''='' then
                   (if rest = []
                    then (let v = ((i * 64 + j) * 64 + k) div 4 in Some [char_of (v div 256), char_of v]) else None)
                 else
                   (case (b64_digit z, b64_groups rest) of
                      (Some l, Some bs) \<Rightarrow>
                        (let v = ((i * 64 + j) * 64 + k) * 64 + l
                         in Some (char_of (v div 65536) # char_of (v div 256) # char_of v # bs))
                    | _ \<Rightarrow> None))
      | _ \<Rightarrow> None)"
| "b64_groups _ = None"

text \<open>The decoder skips line breaks wherever they are.\<close>

definition DecodeString :: "string \<Rightarrow> bytes option" where
  "DecodeString s = b64_groups (filter (\<lambda>c. c \<noteq> CHR 0x0A \<and> c \<noteq> CHR 0x0D) s)"

section \<open>Parameters and results\<close>

record file_read_result =
  frr_ContentBase64 :: string
  frr_Size :: int

record file_stat_result =
  fsr_Size :: int
  fsr_Mode :: string
  fsr_ModTime :: string
  fsr_IsDir :: bool

record file_entry =
  fe_Name :: string
  fe_Size :: int
  fe_Mode :: string
  fe_ModTime :: string
  fe_IsDir :: bool

record file_write_params =
  fwp_Path :: string
  fwp_ContentBase64 :: string
  fwp_Mode :: string

record file_move_params =
  fmp_From :: string
  fmp_To :: string

record directory_create_params =
  dcp_Path :: string
  dcp_Recursive :: bool

section \<open>The handlers\<close>

text \<open>
  \<open>parsed\<close> is the result of \<open>json.Unmarshal\<close>. A handler that only reads takes the file system as each
  of its calls finds it.
\<close>

definition file_Read ::
    "'fs os_calls \<Rightarrow> string + string \<Rightarrow> string + string \<Rightarrow> 'fs \<Rightarrow> 'fs \<Rightarrow> rpc_error + file_read_result" where
  "file_Read os wd parsed fs1 fs2 =
     (case parsed of
        Inl err \<Rightarrow> Inl (RPCErr ErrInvalidRequest err)
      | Inr p \<Rightarrow>
     (case validatePath wd p of
        Inl e \<Rightarrow> Inl e
      | Inr path \<Rightarrow>
     (case os_Stat os fs1 path of
        Inl err \<Rightarrow> Inl (osErrorToRPCError err)
      | Inr info \<Rightarrow>
          if fi_Size info > MaxFileReadBytes
          then Inl (RPCErr ErrFileTooLarge (''file size '' @ itoa (fi_Size info) @ '' exceeds the '' @
                      itoa MaxFileReadBytes @ '' byte limit''))
          else
     (case os_ReadFile os fs2 path of
        Inl err \<Rightarrow> Inl (osErrorToRPCError err)
      | Inr data \<Rightarrow> Inr \<lparr>frr_ContentBase64 = EncodeToString data, frr_Size = int (length data)\<rparr>))))"

definition file_Stat ::
    "'fs os_calls \<Rightarrow> string + string \<Rightarrow> string + string \<Rightarrow> 'fs \<Rightarrow> rpc_error + file_stat_result" where
  "file_Stat os wd parsed fs =
     (case parsed of
        Inl err \<Rightarrow> Inl (RPCErr ErrInvalidRequest err)
      | Inr p \<Rightarrow>
     (case validatePath wd p of
        Inl e \<Rightarrow> Inl e
      | Inr path \<Rightarrow>
     (case os_Stat os fs path of
        Inl err \<Rightarrow> Inl (osErrorToRPCError err)
      | Inr info \<Rightarrow> Inr \<lparr>fsr_Size = fi_Size info, fsr_Mode = fi_Mode info,
                         fsr_ModTime = fmt_rfc3339 (fi_ModTime info), fsr_IsDir = fi_IsDir info\<rparr>)))"

fun list_entries :: "dir_entry list \<Rightarrow> file_entry list" where
  "list_entries [] = []"
| "list_entries (e # es) =
     (case de_Info e of
        Inl err \<Rightarrow> list_entries es
      | Inr info \<Rightarrow> \<lparr>fe_Name = de_Name e, fe_Size = fi_Size info, fe_Mode = fi_Mode info,
                     fe_ModTime = fmt_rfc3339 (fi_ModTime info), fe_IsDir = de_IsDir e\<rparr> # list_entries es)"

definition file_List ::
    "'fs os_calls \<Rightarrow> string + string \<Rightarrow> string + string \<Rightarrow> 'fs \<Rightarrow> rpc_error + file_entry list" where
  "file_List os wd parsed fs =
     (case parsed of
        Inl err \<Rightarrow> Inl (RPCErr ErrInvalidRequest err)
      | Inr p \<Rightarrow>
     (case validatePath wd p of
        Inl e \<Rightarrow> Inl e
      | Inr path \<Rightarrow>
     (case os_ReadDir os fs path of
        Inl err \<Rightarrow> Inl (osErrorToRPCError err)
      | Inr entries \<Rightarrow> Inr (list_entries entries))))"

text \<open>\<open>b64_err\<close> is the text of the decoder's error for a string it refuses.\<close>

definition file_Write ::
    "'fs os_calls \<Rightarrow> (string \<Rightarrow> string) \<Rightarrow> string + string \<Rightarrow> string + file_write_params \<Rightarrow> 'fs \<Rightarrow>
     (rpc_error + unit) \<times> 'fs" where
  "file_Write os b64_err wd parsed fs =
     (case parsed of
        Inl err \<Rightarrow> (Inl (RPCErr ErrInvalidRequest err), fs)
      | Inr p \<Rightarrow>
          if fwp_Mode p \<notin> {[], ''truncate'', ''append''}
          then (Inl (RPCErr ErrInvalidRequest ''mode must be \"truncate\" or \"append\"''), fs)
          else
     (case validatePath wd (fwp_Path p) of
        Inl e \<Rightarrow> (Inl e, fs)
      | Inr path \<Rightarrow>
     (case DecodeString (fwp_ContentBase64 p) of
        None \<Rightarrow> (Inl (RPCErr ErrInvalidRequest (''content_base64: '' @ b64_err (fwp_ContentBase64 p))), fs)
      | Some data \<Rightarrow>
          let flags = (if fwp_Mode p = ''append'' then [O_WRONLY, O_CREATE, O_APPEND] else [O_WRONLY, O_CREATE, O_TRUNC])
          in
     (case os_OpenFile os path flags 420 fs of
        (Inl err, fs) \<Rightarrow> (Inl (osErrorToRPCError err), fs)
      | (Inr f, fs) \<Rightarrow>
     (case os_WriteFd os f data fs of
        (Some err, fs) \<Rightarrow> (Inl (osErrorToRPCError err), snd (os_CloseFd os f fs))
      | (None, fs) \<Rightarrow>
     (case os_CloseFd os f fs of
        (Some err, fs) \<Rightarrow> (Inl (osErrorToRPCError err), fs)
      | (None, fs) \<Rightarrow> (Inr (), fs)))))))"

definition os_result :: "os_error option \<times> 'fs \<Rightarrow> (rpc_error + unit) \<times> 'fs" where
  "os_result r = (case r of (Some err, fs) \<Rightarrow> (Inl (osErrorToRPCError err), fs) | (None, fs) \<Rightarrow> (Inr (), fs))"

definition file_Move ::
    "'fs os_calls \<Rightarrow> string + string \<Rightarrow> string + file_move_params \<Rightarrow> 'fs \<Rightarrow> (rpc_error + unit) \<times> 'fs" where
  "file_Move os wd parsed fs =
     (case parsed of
        Inl err \<Rightarrow> (Inl (RPCErr ErrInvalidRequest err), fs)
      | Inr p \<Rightarrow>
     (case validatePath wd (fmp_From p) of
        Inl e \<Rightarrow> (Inl e, fs)
      | Inr src \<Rightarrow>
     (case validatePath wd (fmp_To p) of
        Inl e \<Rightarrow> (Inl e, fs)
      | Inr dst \<Rightarrow> os_result (os_Rename os src dst fs))))"

definition file_Delete ::
    "'fs os_calls \<Rightarrow> string + string \<Rightarrow> string + string \<Rightarrow> 'fs \<Rightarrow> (rpc_error + unit) \<times> 'fs" where
  "file_Delete os wd parsed fs =
     (case parsed of
        Inl err \<Rightarrow> (Inl (RPCErr ErrInvalidRequest err), fs)
      | Inr p \<Rightarrow>
     (case validatePath wd p of
        Inl e \<Rightarrow> (Inl e, fs)
      | Inr path \<Rightarrow> os_result (os_Remove os path fs)))"

definition directory_Create ::
    "'fs os_calls \<Rightarrow> string + string \<Rightarrow> string + directory_create_params \<Rightarrow> 'fs \<Rightarrow> (rpc_error + unit) \<times> 'fs" where
  "directory_Create os wd parsed fs =
     (case parsed of
        Inl err \<Rightarrow> (Inl (RPCErr ErrInvalidRequest err), fs)
      | Inr p \<Rightarrow>
     (case validatePath wd (dcp_Path p) of
        Inl e \<Rightarrow> (Inl e, fs)
      | Inr path \<Rightarrow>
          os_result (if dcp_Recursive p then os_MkdirAll os path 493 fs else os_Mkdir os path 493 fs)))"

section \<open>Decoding what was encoded\<close>

lemma b64_alphabet_facts: "length b64_alphabet = 64" "distinct b64_alphabet"
  "CHR ''='' \<notin> set b64_alphabet" "CHR 0x0A \<notin> set b64_alphabet" "CHR 0x0D \<notin> set b64_alphabet"
  by (simp_all add: b64_alphabet_def)

lemma b64_char_in: "b64_char n \<in> set b64_alphabet"
  unfolding b64_char_def by (rule nth_mem) (simp add: b64_alphabet_facts)

lemma b64_char_neq [simp]: "b64_char n \<noteq> CHR ''=''" "b64_char n \<noteq> CHR 0x0A" "b64_char n \<noteq> CHR 0x0D"
  using b64_char_in [of n] b64_alphabet_facts by auto

lemma b64_digit_char [simp]: "b64_digit (b64_char n) = Some (n mod 64)"
proof -
  have "map_of (zip b64_alphabet [0 ..< 64]) (b64_alphabet ! (n mod 64)) = Some ([0 ..< 64] ! (n mod 64))"
    by (rule map_of_zip_nth) (simp_all add: b64_alphabet_facts)
  then show ?thesis by (simp add: b64_digit_def b64_char_def)
qed

lemma two_groups: "v div 64 mod 64 * 64 + v mod 64 = v mod (4096 :: nat)"
  using mod_mult2_eq [of v 64 64] by (simp add: mult.commute)

lemma three_groups: "(v div 4096 mod 64 * 64 + v div 64 mod 64) * 64 + v mod 64 = v mod (262144 :: nat)"
  using mod_mult2_eq [of v 64 4096] two_groups [of "v div 64"]
  by (simp add: div_mult2_eq [of v 64 64, simplified] mult.commute)

lemma four_groups:
  "((v div 262144 mod 64 * 64 + v div 4096 mod 64) * 64 + v div 64 mod 64) * 64 + v mod 64 = v mod (16777216 :: nat)"
  using mod_mult2_eq [of v 64 262144] three_groups [of "v div 64"]
  by (simp add: div_mult2_eq [of v 64 64, simplified] div_mult2_eq [of v 64 4096, simplified] mult.commute)

lemma char_of_mod: "(n :: nat) mod 256 = of_char a \<Longrightarrow> char_of n = a"
  by (metis char_of_mod_256 char_of_char)

lemma three_bytes: "x < 256 \<Longrightarrow> y < 256 \<Longrightarrow> z < 256 \<Longrightarrow> (x * 256 + y) * 256 + z < (16777216 :: nat)"
proof -
  assume "x < 256" "y < 256" "z < 256"
  then have "x \<le> 255" "y \<le> 255" "z \<le> 255" by simp_all
  then have "(x * 256 + y) * 256 + z \<le> (255 * 256 + 255) * 256 + 255" by (intro add_mono mult_mono) simp_all
  then show ?thesis by simp
qed

lemma low_byte: "z < 256 \<Longrightarrow> (u * 256 + z) div 256 = (u :: nat)" "z < 256 \<Longrightarrow> (u * 256 + z) mod 256 = (z :: nat)"
  by simp_all

lemma groups_step:
  "b64_groups (b64_char i # b64_char j # b64_char k # b64_char l # rest) =
     (case b64_groups rest of
        None \<Rightarrow> None
      | Some bs \<Rightarrow>
          Some (char_of ((((i mod 64 * 64 + j mod 64) * 64 + k mod 64) * 64 + l mod 64) div 65536) #
                char_of ((((i mod 64 * 64 + j mod 64) * 64 + k mod 64) * 64 + l mod 64) div 256) #
                char_of (((i mod 64 * 64 + j mod 64) * 64 + k mod 64) * 64 + l mod 64) # bs))"
  by (simp add: Let_def split: option.split)

lemma groups_Encode: "b64_groups (EncodeToString bs) = Some bs"
proof (induction bs rule: EncodeToString.induct)
  case (2 a)
  have a: "of_char a < (256 :: nat)" by (rule nat_of_char_less_256)
  define v :: nat where "v = of_char a * 16"
  have "(v mod 4096) div 16 = of_char a" using a by (simp add: v_def)
  then have "(v div 64 mod 64 * 64 + v mod 64) div 16 = of_char a" by (simp only: two_groups)
  then show ?case unfolding EncodeToString.simps Let_def v_def [symmetric] by simp
next
  case (3 a b)
  have ab: "of_char a < (256 :: nat)" "of_char b < (256 :: nat)" by (rule nat_of_char_less_256)+
  define u v :: nat where u: "u = of_char a * 256 + of_char b" and v: "v = u * 4"
  have "u < 65536" unfolding u using ab by linarith
  then have "(v mod 262144) div 4 = u" by (simp add: v)
  then have "((v div 4096 mod 64 * 64 + v div 64 mod 64) * 64 + v mod 64) div 4 = u"
    by (simp only: three_groups)
  moreover have "char_of (u div 256) = a" "char_of u = b" using ab by (simp_all add: u char_of_mod)
  ultimately show ?case unfolding EncodeToString.simps Let_def u [symmetric] v [symmetric] by simp
next
  case (4 a b c rest)
  have abc: "of_char a < (256 :: nat)" "of_char b < (256 :: nat)" "of_char c < (256 :: nat)"
    by (rule nat_of_char_less_256)+
  define v :: nat where v: "v = (of_char a * 256 + of_char b) * 256 + of_char c"
  have "v < 16777216" unfolding v by (rule three_bytes [OF abc])
  then have "((v div 262144 mod 64 * 64 + v div 4096 mod 64) * 64 + v div 64 mod 64) * 64 + v mod 64 = v"
    by (simp only: four_groups) simp
  moreover have "v div 256 = of_char a * 256 + of_char b" "v mod 256 = of_char c"
    unfolding v by (simp_all only: low_byte [OF abc(3)])
  then have "char_of (v div 256) = b" "char_of v = c" "char_of (v div 256 div 256) = a"
    using abc by (auto intro!: char_of_mod)
  then have "char_of (v div 65536) = a" "char_of (v div 256) = b" "char_of v = c"
    using div_mult2_eq [of v 256 256] by simp_all
  ultimately show ?case
    unfolding EncodeToString.simps Let_def v [symmetric] append.simps groups_step 4 [OF refl] option.case by (simp only:)
qed simp

lemma filter_Encode:
  "filter (\<lambda>c. c \<noteq> CHR 0x0A \<and> c \<noteq> CHR 0x0D) (EncodeToString bs) = EncodeToString bs"
  by (induction bs rule: EncodeToString.induct) (simp_all add: Let_def)

lemma DecodeString_Encode [simp]: "DecodeString (EncodeToString bs) = Some bs"
  by (simp add: DecodeString_def filter_Encode groups_Encode)

section \<open>The paths that reach the operating system\<close>

definition good_path :: "string \<Rightarrow> bool" where
  "good_path p \<longleftrightarrow> normal_path p \<and> \<not> contains_nul p"

lemma validatePath_good:
  assumes "validatePath wd p = Inr q" and "\<And>d. wd = Inr d \<Longrightarrow> IsAbs d \<and> \<not> contains_nul d"
  shows "good_path q"
proof -
  have p: "\<not> contains_nul p" and a: "path_Abs wd (path_Clean p) = Inr q"
    using assms(1) by (auto simp: validatePath_def split: if_splits sum.splits)
  have "\<not> contains_nul (path_Clean p)" using p Clean_chars [of p] by (auto simp: contains_nul_def)
  then show ?thesis
    using normal_Abs [OF a] Abs_chars [OF a] assms(2) by (simp add: good_path_def)
qed

text \<open>Two operating systems that answer alike for the paths with the property \<open>P\<close>.\<close>

definition same_calls :: "(string \<Rightarrow> bool) \<Rightarrow> 'fs os_calls \<Rightarrow> 'fs os_calls \<Rightarrow> bool" where
  "same_calls P os1 os2 \<longleftrightarrow>
     (\<forall>p fs. P p \<longrightarrow> os_Stat os1 fs p = os_Stat os2 fs p \<and> os_ReadFile os1 fs p = os_ReadFile os2 fs p \<and>
        os_ReadDir os1 fs p = os_ReadDir os2 fs p \<and> os_Remove os1 p fs = os_Remove os2 p fs) \<and>
     (\<forall>p flags perm fs. P p \<longrightarrow> os_OpenFile os1 p flags perm fs = os_OpenFile os2 p flags perm fs \<and>
        os_Mkdir os1 p perm fs = os_Mkdir os2 p perm fs \<and> os_MkdirAll os1 p perm fs = os_MkdirAll os2 p perm fs) \<and>
     (\<forall>p q fs. P p \<and> P q \<longrightarrow> os_Rename os1 p q fs = os_Rename os2 p q fs) \<and>
     os_WriteFd os1 = os_WriteFd os2 \<and> os_CloseFd os1 = os_CloseFd os2"


section \<open>Writing and reading back\<close>

text \<open>
  What the round trip relies on of the operating system: \<open>content\<close> is the content of a regular file.
  Opening to truncate or to append, writing and closing without an error leaves the written
  bytes, after the old ones when appending; a read gives the content and \<open>Stat\<close> its size.
\<close>

definition file_store :: "'fs os_calls \<Rightarrow> ('fs \<Rightarrow> string \<Rightarrow> bytes option) \<Rightarrow> bool" where
  "file_store os content \<longleftrightarrow>
     (\<forall>p flags perm fs f fs1 data fs2 fs3.
        os_OpenFile os p flags perm fs = (Inr f, fs1) \<and> os_WriteFd os f data fs1 = (None, fs2) \<and>
        os_CloseFd os f fs2 = (None, fs3) \<and> O_WRONLY \<in> set flags \<and> O_CREATE \<in> set flags \<and>
        (O_TRUNC \<in> set flags \<or> O_APPEND \<in> set flags) \<and> content fs3 p \<noteq> None \<longrightarrow>
        content fs3 p = Some ((if O_TRUNC \<in> set flags then [] else case content fs p of None \<Rightarrow> [] | Some d \<Rightarrow> d) @ data)) \<and>
     (\<forall>fs p d. content fs p = Some d \<longrightarrow>
        os_ReadFile os fs p \<in> range Inl \<union> {Inr d} \<and>
        (\<forall>info. os_Stat os fs p = Inr info \<longrightarrow> fi_Size info = int (length d)))"

text \<open>
  What file.write reports as written is what file.read returns, byte for byte: after a successful
  write of a base64 text, reading the file by any spelling of its path gives a text that decodes
  to exactly the decoded bytes, after the old content in append mode and alone otherwise, with
  their number as the size; and never more than the 8 MiB limit.
\<close>

lemma write_read_back:
  assumes "file_store os content"
    and "file_Write os b64_err wd (Inr p) fs = (Inr (), fs')"
    and "validatePath wd (fwp_Path p) = Inr path" and "validatePath wd q = Inr path"
    and "content fs' path \<noteq> None" and "file_Read os wd (Inr q) fs' fs' = Inr res"
  shows "\<exists>data new. DecodeString (fwp_ContentBase64 p) = Some data \<and>
    new = (if fwp_Mode p = ''append'' then (case content fs path of None \<Rightarrow> [] | Some d \<Rightarrow> d) else []) @ data \<and>
    DecodeString (frr_ContentBase64 res) = Some new \<and> frr_Size res = int (length new) \<and>
    frr_Size res \<le> MaxFileReadBytes"
proof -
  obtain data flags f fs1 fs2 where d: "DecodeString (fwp_ContentBase64 p) = Some data"
    and flags: "flags = (if fwp_Mode p = ''append'' then [O_WRONLY, O_CREATE, O_APPEND] else [O_WRONLY, O_CREATE, O_TRUNC])"
    and op: "os_OpenFile os path flags 420 fs = (Inr f, fs1)" and wr: "os_WriteFd os f data fs1 = (None, fs2)"
    and cl: "os_CloseFd os f fs2 = (None, fs')"
    using assms(2,3) by (auto simp: file_Write_def Let_def split: if_splits option.splits sum.splits prod.splits)
  let ?new = "(if O_TRUNC \<in> set flags then [] else case content fs path of None \<Rightarrow> [] | Some d \<Rightarrow> d) @ data"
  have "O_WRONLY \<in> set flags \<and> O_CREATE \<in> set flags \<and> (O_TRUNC \<in> set flags \<or> O_APPEND \<in> set flags)"
    by (simp add: flags)
  then have new: "content fs' path = Some ?new"
    using assms(1,5) op wr cl unfolding file_store_def by blast
  then have rd: "os_ReadFile os fs' path \<in> range Inl \<union> {Inr ?new}"
    and sz: "\<And>info. os_Stat os fs' path = Inr info \<Longrightarrow> fi_Size info = int (length ?new)"
    using assms(1) unfolding file_store_def by blast+
  have "res = \<lparr>frr_ContentBase64 = EncodeToString ?new, frr_Size = int (length ?new)\<rparr> \<and> int (length ?new) \<le> MaxFileReadBytes"
    using assms(4,6) rd sz by (auto simp: file_Read_def split: sum.splits if_splits)
  moreover have "?new = (if fwp_Mode p = ''append'' then (case content fs path of None \<Rightarrow> [] | Some d \<Rightarrow> d) else []) @ data"
    by (simp add: flags)
  ultimately show ?thesis using d by (intro exI [of _ data] exI [of _ ?new]) simp
qed

subsection \<open>Witnesses\<close>

text \<open>A file system of regular files only, with at most one file open.\<close>

record flat_fs =
  ff_files :: "(string, bytes) gomap"
  ff_open :: "string option"

definition flat_info :: "bytes \<Rightarrow> file_info" where
  "flat_info d = \<lparr>fi_Size = int (length d), fi_Mode = ''-rw-r--r--'',
     fi_ModTime = \<lparr>u_year = 2026, u_month = 1, u_day = 2, u_hour = 3, u_minute = 4, u_second = 5, u_nano = 0\<rparr>,
     fi_IsDir = False\<rparr>"

definition flat_os :: "flat_fs os_calls" where
  "flat_os =
     \<lparr>os_Stat = (\<lambda>fs p. case gm_get (ff_files fs) p of None \<Rightarrow> Inl (NotExistErr p) | Some d \<Rightarrow> Inr (flat_info d)),
      os_ReadFile = (\<lambda>fs p. case gm_get (ff_files fs) p of None \<Rightarrow> Inl (NotExistErr p) | Some d \<Rightarrow> Inr d),
      os_ReadDir = (\<lambda>fs p. Inr []),
      os_OpenFile = (\<lambda>p flags perm fs.
        (Inr 3, fs\<lparr>ff_files := gm_put p (if O_TRUNC \<in> set flags then [] else
                     case gm_get (ff_files fs) p of None \<Rightarrow> [] | Some d \<Rightarrow> d) (ff_files fs), ff_open := Some p\<rparr>)),
      os_WriteFd = (\<lambda>f data fs. case ff_open fs of None \<Rightarrow> (Some (OtherErr ''closed''), fs)
        | Some p \<Rightarrow> (None, fs\<lparr>ff_files := gm_put p ((case gm_get (ff_files fs) p of None \<Rightarrow> [] | Some d \<Rightarrow> d) @ data) (ff_files fs)\<rparr>)),
      os_CloseFd = (\<lambda>f fs. (None, fs\<lparr>ff_open := None\<rparr>)),
      os_Rename = (\<lambda>p q fs. (Some (PermissionErr p), fs)), os_Remove = (\<lambda>p fs. (Some (PermissionErr p), fs)),
      os_Mkdir = (\<lambda>p perm fs. (Some (PermissionErr p), fs)), os_MkdirAll = (\<lambda>p perm fs. (Some (PermissionErr p), fs))\<rparr>"

lemma flat_os_store: "file_store flat_os (\<lambda>fs p. gm_get (ff_files fs) p)"
  unfolding file_store_def flat_os_def by (auto simp: flat_info_def split: if_splits)

text \<open>A system that agrees with it on good paths, and on nothing else.\<close>

definition picky_os :: "flat_fs os_calls" where
  "picky_os = flat_os\<lparr>os_Stat := (\<lambda>fs p. if good_path p then os_Stat flat_os fs p else Inl (OtherErr ''relative'')),
     os_ReadFile := (\<lambda>fs p. if good_path p then os_ReadFile flat_os fs p else Inl (OtherErr ''relative''))\<rparr>"

abbreviation sample_fs :: flat_fs where
  "sample_fs \<equiv> \<lparr>ff_files = [(''/w/a'', ''ab'')], ff_open = None\<rparr>"

lemma sample_paths: "validatePath (Inr ''/w'') ''b/../a'' = Inr ''/w/a''" "validatePath (Inr ''/w'') ''/w//a/'' = Inr ''/w/a''"
  by code_simp+


end
