(* ===== verification/Json.thy ===== *)
theory Json
  imports Prelude
begin

text \<open>
  The JSON the program's messages travel as (package encoding/json): UTF-8, string literals with
  Go's escapes, values, their text and its parser. Strings are byte sequences, as in Go; the
  encoder writes U+FFFD for every byte that is no part of a UTF-8 sequence. A text with more than 10000
  nested arrays and objects is refused.
\<close>

section \<open>UTF-8\<close>

definition in_range :: "nat \<Rightarrow> nat \<Rightarrow> char \<Rightarrow> bool" where
  "in_range lo hi c \<longleftrightarrow> lo \<le> of_char c \<and> of_char c \<le> hi"

text \<open>
  A first byte: how many bytes follow it and the bounds of the second. The length of the sequence a
  string begins with, as \<open>utf8.DecodeRune\<close> accepts it.
\<close>

definition lead_byte :: "char \<Rightarrow> (nat \<times> nat \<times> nat) option" where
  "lead_byte c =
     (if in_range 0 0x7F c then Some (0, 0x80, 0xBF)
      else if in_range 0xC2 0xDF c then Some (1, 0x80, 0xBF)
      else if in_range 0xE0 0xEF c then
        Some (2, if c = CHR 0xE0 then 0xA0 else 0x80, if c = CHR 0xED then 0x9F else 0xBF)
      else if in_range 0xF0 0xF4 c then
        Some (3, if c = CHR 0xF0 then 0x90 else 0x80, if c = CHR 0xF4 then 0x8F else 0xBF)
      else None)"

fun rune_length :: "bytes \<Rightarrow> nat option" where
  "rune_length [] = None"
| "rune_length (c # s) =
     (case lead_byte c of
        None \<Rightarrow> None
      | Some (k, lo, hi) \<Rightarrow>
          if k \<le> length s \<and> (k \<noteq> 0 \<longrightarrow> in_range lo hi (hd s)) \<and> list_all (in_range 0x80 0xBF) (take k s)
          then Some (Suc k) else None)"

lemma rune_length_bounds: "rune_length s = Some n \<Longrightarrow> 0 < n \<and> n \<le> length s"
  by (cases s) (auto split: if_splits option.splits)

text \<open>A string cut into its sequences; a byte that begins none stands alone.\<close>

definition first_rune :: "bytes \<Rightarrow> nat" where
  "first_rune s = (case rune_length s of Some n \<Rightarrow> n | None \<Rightarrow> 1)"

lemma first_rune_bounds: "s \<noteq> [] \<Longrightarrow> 0 < first_rune s \<and> first_rune s \<le> length s"
  using rune_length_bounds by (cases s) (auto simp: first_rune_def split: option.split)

function runes :: "bytes \<Rightarrow> bytes list" where
  "runes s = (if s = [] then [] else take (first_rune s) s # runes (drop (first_rune s) s))"
  by auto
termination
  by (relation "measure length") (use first_rune_bounds in auto)

declare runes.simps [simp del]

definition valid_rune :: "bytes \<Rightarrow> bool" where
  "valid_rune r \<longleftrightarrow> rune_length r = Some (length r)"

definition valid_utf8 :: "bytes \<Rightarrow> bool" where
  "valid_utf8 s \<longleftrightarrow> list_all valid_rune (runes s)"

text \<open>What a string becomes on its way: U+FFFD in place of each byte that stands alone.\<close>

definition replacement :: bytes where
  "replacement = [CHR 0xEF, CHR 0xBF, CHR 0xBD]"

definition clean_rune :: "bytes \<Rightarrow> bytes" where
  "clean_rune r = (if valid_rune r then r else replacement)"

definition clean :: "bytes \<Rightarrow> bytes" where
  "clean s = concat (map clean_rune (runes s))"

lemma runes_Nil [simp]: "runes [] = []"
  by (simp add: runes.simps)

lemma concat_runes [simp]: "concat (runes s) = s"
proof (induction s rule: runes.induct)
  case (1 s)
  then show ?case by (cases "s = []") (simp_all add: runes.simps [of s])
qed

lemma clean_valid: "valid_utf8 s \<Longrightarrow> clean s = s"
proof -
  assume "valid_utf8 s"
  then have "map clean_rune (runes s) = runes s"
    by (intro map_idI) (auto simp: valid_utf8_def list_all_iff clean_rune_def)
  then show ?thesis by (simp add: clean_def)
qed

text \<open>A sequence is recognised by its own bytes, whatever follows.\<close>

lemma rune_length_append: "rune_length r = Some n \<Longrightarrow> rune_length (r @ s) = Some n"
  by (cases r) (auto simp: hd_append split: if_splits option.splits)

lemma rune_length_take: "rune_length s = Some n \<Longrightarrow> rune_length (take n s) = Some n"
  by (cases s) (auto split: if_splits option.splits)

lemma valid_rune_append: "valid_rune r \<Longrightarrow> runes (r @ s) = r # runes s"
proof -
  assume r: "valid_rune r"
  then have "rune_length (r @ s) = Some (length r)" "0 < length r"
    using rune_length_append rune_length_bounds [of r] by (auto simp: valid_rune_def)
  then show ?thesis by (subst runes.simps) (simp add: first_rune_def)
qed

text \<open>The first sequence of a nonempty string is valid, or a single byte that is not ASCII.\<close>

lemma first_rune_cases:
  assumes "s \<noteq> []"
  obtains (valid) "valid_rune (take (first_rune s) s)"
  | (lone) c t where "s = c # t" "first_rune s = 1" "\<not> valid_rune [c]" "\<not> in_range 0 0x7F c"
proof (cases "rune_length s")
  case (Some n)
  then have "valid_rune (take (first_rune s) s)"
    using rune_length_take [OF Some] rune_length_bounds [OF Some] by (simp add: valid_rune_def first_rune_def min_def)
  then show ?thesis by (rule valid)
next
  case None
  obtain c t where c: "s = c # t" using assms by (cases s) auto
  have "\<not> valid_rune [c]"
  proof
    assume "valid_rune [c]"
    then have "rune_length ([c] @ t) = Some 1" by (intro rune_length_append) (simp add: valid_rune_def)
    then show False using None c by simp
  qed
  moreover from this have "\<not> in_range 0 0x7F c" by (auto simp: valid_rune_def lead_byte_def)
  ultimately show ?thesis using lone c None by (simp add: first_rune_def)
qed

lemma runes_valid_append: "valid_utf8 s \<Longrightarrow> runes (s @ t) = runes s @ runes t"
proof (induction s rule: runes.induct)
  case (1 s)
  show ?case
  proof (cases "s = []")
    case False
    let ?r = "take (first_rune s) s" and ?s = "drop (first_rune s) s"
    have rs: "runes s = ?r # runes ?s" using False by (simp add: runes.simps [of s])
    then have "valid_rune ?r" "valid_utf8 ?s" using 1(2) by (simp_all add: valid_utf8_def)
    then have "runes (?r @ (?s @ t)) = ?r # (runes ?s @ runes t)"
      using valid_rune_append [of ?r "?s @ t"] 1(1) [OF False] by simp
    then show ?thesis using rs by (metis append.assoc append_Cons append_take_drop_id)
  qed simp
qed

text \<open>Text that is cut at the end of a sequence arrives whole.\<close>

lemma clean_append: "valid_utf8 s \<Longrightarrow> clean (s @ t) = s @ clean t"
  using clean_valid [of s] by (simp add: clean_def runes_valid_append)

section \<open>String literals\<close>

abbreviation backslash :: char where
  "backslash \<equiv> CHR 0x5C"

abbreviation quote_mark :: char where
  "quote_mark \<equiv> CHR 0x22"

definition u_escape :: "nat \<Rightarrow> bytes" where
  "u_escape n = [backslash, CHR ''u'', hex_char (n div 4096), hex_char (n div 256 mod 16), hex_char (n div 16 mod 16),
     hex_char (n mod 16)]"

definition escape_char :: "char \<Rightarrow> bytes" where
  "escape_char c =
     (if c = quote_mark \<or> c = backslash then [backslash, c]
      else if c = CHR 0x08 then [backslash, CHR ''b'']
      else if c = CHR 0x0C then [backslash, CHR ''f'']
      else if c = CHR 0x0A then [backslash, CHR ''n'']
      else if c = CHR 0x0D then [backslash, CHR ''r'']
      else if c = CHR 0x09 then [backslash, CHR ''t'']
      else if in_range 0 0x1F c \<or> c \<in> set ''<>&'' then u_escape (of_char c)
      else [c])"

fun escape_rune :: "bytes \<Rightarrow> bytes" where
  "escape_rune [c] = (if in_range 0 0x7F c then escape_char c else u_escape 0xFFFD)"
| "escape_rune r =
     (if r = [CHR 0xE2, CHR 0x80, CHR 0xA8] then u_escape 0x2028
      else if r = [CHR 0xE2, CHR 0x80, CHR 0xA9] then u_escape 0x2029
      else r)"

definition json_quote :: "bytes \<Rightarrow> bytes" where
  "json_quote s = quote_mark # concat (map escape_rune (runes s)) @ [quote_mark]"

text \<open>Reading a literal back, from behind its opening quote.\<close>

definition hex_val :: "char \<Rightarrow> nat option" where
  "hex_val c =
     (if in_range 48 57 c then Some (of_char c - 48)
      else if in_range 97 102 c then Some (of_char c - 87)
      else if in_range 65 70 c then Some (of_char c - 55)
      else None)"

definition read_hex4 :: "bytes \<Rightarrow> (nat \<times> bytes) option" where
  "read_hex4 s =
     (case s of
        a # b # c # d # t \<Rightarrow>
          (case (hex_val a, hex_val b, hex_val c, hex_val d) of
             (Some w, Some x, Some y, Some z) \<Rightarrow> Some (((w * 16 + x) * 16 + y) * 16 + z, t)
           | _ \<Rightarrow> None)
      | _ \<Rightarrow> None)"

definition utf8_encode :: "nat \<Rightarrow> bytes" where
  "utf8_encode n =
     (if n < 0x80 then [char_of n]
      else if n < 0x800 then [char_of (0xC0 + n div 64), char_of (0x80 + n mod 64)]
      else if n < 0x10000 then
        [char_of (0xE0 + n div 4096), char_of (0x80 + n div 64 mod 64), char_of (0x80 + n mod 64)]
      else
        [char_of (0xF0 + n div 262144), char_of (0x80 + n div 4096 mod 64), char_of (0x80 + n div 64 mod 64),
         char_of (0x80 + n mod 64)])"

text \<open>A \<open>u\<close> escape with the surrogate that may follow; a surrogate alone gives U+FFFD.\<close>

definition unquote_unicode :: "bytes \<Rightarrow> (bytes \<times> bytes) option" where
  "unquote_unicode s =
     (case read_hex4 s of
        None \<Rightarrow> None
      | Some (n, t) \<Rightarrow>
          if 0xD800 \<le> n \<and> n < 0xDC00 then
            (case t of
               b # u # t' \<Rightarrow>
                 (case read_hex4 t' of
                    Some (m, t'') \<Rightarrow>
                      if b = backslash \<and> u = CHR ''u'' \<and> 0xDC00 \<le> m \<and> m < 0xE000
                      then Some (utf8_encode (0x10000 + (n - 0xD800) * 1024 + (m - 0xDC00)), t'')
                      else Some (replacement, t)
                  | None \<Rightarrow> Some (replacement, t))
             | _ \<Rightarrow> Some (replacement, t))
          else if 0xDC00 \<le> n \<and> n < 0xE000 then Some (replacement, t)
          else Some (utf8_encode n, t))"

definition unquote_simple :: "char \<Rightarrow> char option" where
  "unquote_simple e =
     (if e = quote_mark \<or> e = backslash \<or> e = CHR ''/'' then Some e
      else if e = CHR ''b'' then Some (CHR 0x08) else if e = CHR ''f'' then Some (CHR 0x0C)
      else if e = CHR ''n'' then Some (CHR 0x0A) else if e = CHR ''r'' then Some (CHR 0x0D)
      else if e = CHR ''t'' then Some (CHR 0x09) else None)"

definition unquote_step :: "bytes \<Rightarrow> (bytes \<times> bytes) option" where
  "unquote_step s =
     (case s of
        [] \<Rightarrow> None
      | c # t \<Rightarrow>
          if c = backslash then
            (case t of
               [] \<Rightarrow> None
             | e # t' \<Rightarrow>
                 if e = CHR ''u'' then unquote_unicode t'
                 else map_option (\<lambda>x. ([x], t')) (unquote_simple e))
          else if in_range 0 0x1F c then None
          else Some (clean_rune (take (first_rune s) s), drop (first_rune s) s))"

lemma read_hex4_shorter: "read_hex4 s = Some (n, t) \<Longrightarrow> length t < length s"
  by (auto simp: read_hex4_def split: list.splits option.splits)

lemma unquote_step_shorter: "unquote_step s = Some (x, t) \<Longrightarrow> length t < length s"
  using first_rune_bounds [of s]
  by (auto simp: unquote_step_def unquote_unicode_def split: list.splits if_splits option.splits dest!: read_hex4_shorter)

function unquote :: "bytes \<Rightarrow> (bytes \<times> bytes) option" where
  "unquote s =
     (case s of
        [] \<Rightarrow> None
      | c # t \<Rightarrow>
          if c = quote_mark then Some ([], t)
          else (case unquote_step s of
                  None \<Rightarrow> None
                | Some (x, r) \<Rightarrow> (case unquote r of None \<Rightarrow> None | Some (y, q) \<Rightarrow> Some (x @ y, q))))"
  by auto
termination
  by (relation "measure length") (auto dest: unquote_step_shorter)

declare unquote.simps [simp del]

lemma hex_val_hex_char [simp]: "n < 16 \<Longrightarrow> hex_val (hex_char n) = Some n"
  by (auto simp: hex_val_def in_range_def of_char_hex_char)

lemma hex_digits: "((n div 4096 * 16 + n div 256 mod 16) * 16 + n div 16 mod 16) * 16 + n mod 16 = (n :: nat)"
proof -
  have "n div 256 = n div 16 div 16" "n div 4096 = n div 16 div 16 div 16" by (simp_all add: div_mult2_eq [symmetric])
  then show ?thesis by simp
qed

lemma unquote_u_escape:
  assumes "n < 65536" and "\<not> (0xD800 \<le> n \<and> n < 0xE000)"
  shows "unquote_step (u_escape n @ t) = Some (utf8_encode n, t)"
proof -
  have "n div 4096 < 16" using assms(1) by auto
  then have "read_hex4 ([hex_char (n div 4096), hex_char (n div 256 mod 16), hex_char (n div 16 mod 16),
      hex_char (n mod 16)] @ t) = Some (n, t)"
    using hex_digits [of n] by (simp add: read_hex4_def)
  then show ?thesis
    using assms(2) unfolding u_escape_def by (auto simp: unquote_step_def unquote_unicode_def)
qed

text \<open>Every escaped sequence is read back.\<close>

lemma ascii_rune: "in_range 0 0x7F c \<Longrightarrow> valid_rune [c]"
  by (simp add: valid_rune_def lead_byte_def)

lemma lone_rune: "\<not> in_range 0 0x7F c \<Longrightarrow> \<not> valid_rune [c]"
  by (simp add: valid_rune_def lead_byte_def)

lemma unquote_plain:
  assumes "valid_rune r" and "hd r \<noteq> backslash" and "\<not> in_range 0 0x1F (hd r)"
  shows "unquote_step (r @ t) = Some (r, t)"
proof -
  obtain c u where r: "r = c # u" using assms(1) by (cases r) (auto simp: valid_rune_def)
  have "rune_length (r @ t) = Some (length r)" using assms(1) by (auto simp: valid_rune_def intro: rune_length_append)
  then have "first_rune (r @ t) = length r" by (simp add: first_rune_def)
  then show ?thesis using assms by (simp add: unquote_step_def r clean_rune_def)
qed

lemma escape_char_back:
  assumes "in_range 0 0x7F c"
  shows "unquote_step (escape_char c @ t) = Some ([c], t) \<and> hd (escape_char c @ t) \<noteq> quote_mark"
proof -
  have "escape_char c = u_escape (of_char c) \<or>
      escape_char c = [c] \<and> c \<noteq> quote_mark \<and> c \<noteq> backslash \<and> \<not> in_range 0 0x1F c"
    if "c \<notin> {quote_mark, backslash, CHR 0x08, CHR 0x0C, CHR 0x0A, CHR 0x0D, CHR 0x09}"
    using that by (auto simp: escape_char_def)
  then consider "c \<in> {quote_mark, backslash, CHR 0x08, CHR 0x0C, CHR 0x0A, CHR 0x0D, CHR 0x09}"
    | "escape_char c = u_escape (of_char c)" | "escape_char c = [c]" "c \<noteq> quote_mark" "c \<noteq> backslash" "\<not> in_range 0 0x1F c"
    by blast
  then show ?thesis
  proof cases
    case 1
    then show ?thesis by (auto simp: escape_char_def unquote_step_def unquote_simple_def)
  next
    case 2
    have n: "(of_char c :: nat) < 128" using assms by (simp add: in_range_def)
    then have "utf8_encode (of_char c) = [c]" by (simp add: utf8_encode_def)
    then show ?thesis using 2 n unquote_u_escape [of "of_char c" t] by (simp add: u_escape_def)
  next
    case 3
    then show ?thesis using unquote_plain [OF ascii_rune [OF assms]] by simp
  qed
qed

lemma valid_rune_hd: "valid_rune (c # d # u) \<Longrightarrow> \<not> in_range 0 0x7F c"
  by (auto simp: valid_rune_def lead_byte_def)

lemma escape_rune_back:
  assumes "valid_rune r \<or> (\<exists>c. r = [c] \<and> \<not> in_range 0 0x7F c)"
  shows "unquote_step (escape_rune r @ t) = Some (clean_rune r, t) \<and> hd (escape_rune r @ t) \<noteq> quote_mark"
proof (cases r rule: escape_rune.cases [case_names single empty several])
  case (single c)
  show ?thesis
  proof (cases "in_range 0 0x7F c")
    case True
    then show ?thesis using escape_char_back [OF True, of t] ascii_rune [OF True] by (simp add: single clean_rune_def)
  next
    case False
    have "utf8_encode 0xFFFD = replacement" by (simp add: utf8_encode_def replacement_def char_of_def bit_iff_odd)
    then show ?thesis
      using unquote_u_escape [of "0xFFFD" t] lone_rune [OF False] False by (simp add: single clean_rune_def u_escape_def)
  qed
next
  case empty
  then show ?thesis using assms by (simp add: valid_rune_def)
next
  case r: (several c d u)
  then have v: "valid_rune r" "\<not> in_range 0 0x7F c" using assms valid_rune_hd r by auto
  have sep: "utf8_encode 0x2028 = [CHR 0xE2, CHR 0x80, CHR 0xA8]" "utf8_encode 0x2029 = [CHR 0xE2, CHR 0x80, CHR 0xA9]"
    by (simp_all add: utf8_encode_def char_of_def bit_iff_odd)
  have h: "hd r \<noteq> quote_mark" "hd r \<noteq> backslash" "\<not> in_range 0 0x1F (hd r)"
    using v(2) by (auto simp: r in_range_def)
  have "escape_rune r = r" if "r \<noteq> [CHR 0xE2, CHR 0x80, CHR 0xA8]" "r \<noteq> [CHR 0xE2, CHR 0x80, CHR 0xA9]"
    unfolding r escape_rune.simps using that by (simp only: r if_False)
  then consider "r = [CHR 0xE2, CHR 0x80, CHR 0xA8]" | "r = [CHR 0xE2, CHR 0x80, CHR 0xA9]" | "escape_rune r = r"
    by blast
  then show ?thesis
  proof cases
    case 3
    then show ?thesis using unquote_plain [OF v(1) h(2,3)] h(1) v(1) r by (simp add: clean_rune_def)
  qed (use v(1) sep unquote_u_escape [of "0x2028" t] unquote_u_escape [of "0x2029" t] in \<open>auto simp: clean_rune_def u_escape_def\<close>)
qed

lemma runes_shape: "r \<in> set (runes s) \<Longrightarrow> valid_rune r \<or> (\<exists>c. r = [c] \<and> \<not> in_range 0 0x7F c)"
proof (induction s rule: runes.induct)
  case (1 s)
  show ?case
  proof (cases "s = []")
    case False
    then have "r = take (first_rune s) s \<or> r \<in> set (runes (drop (first_rune s) s))"
      using 1(2) by (simp add: runes.simps [of s])
    then show ?thesis
      using 1(1) [OF False] by (cases rule: first_rune_cases [OF False]) auto
  qed (use 1 in simp)
qed

lemma unquote_escaped:
  "\<forall>r \<in> set rs. valid_rune r \<or> (\<exists>c. r = [c] \<and> \<not> in_range 0 0x7F c) \<Longrightarrow>
   unquote (concat (map escape_rune rs) @ quote_mark # t) = Some (concat (map clean_rune rs), t)"
proof (induction rs)
  case Nil
  then show ?case by (subst unquote.simps) simp
next
  case (Cons r rs)
  let ?t = "concat (map escape_rune rs) @ quote_mark # t"
  have b: "unquote_step (escape_rune r @ ?t) = Some (clean_rune r, ?t)" "hd (escape_rune r @ ?t) \<noteq> quote_mark"
    using escape_rune_back [of r ?t] Cons.prems by simp_all
  then obtain c u where c: "escape_rune r @ ?t = c # u" "c \<noteq> quote_mark"
    by (cases "escape_rune r @ ?t") (auto simp: unquote_step_def)
  have "unquote (escape_rune r @ ?t) = Some (clean_rune r @ concat (map clean_rune rs), t)"
    by (subst unquote.simps) (use b(1) c Cons in simp)
  then show ?case by simp
qed

lemma unquote_quote: "unquote (tl (json_quote s) @ t) = Some (clean s, t)"
  using unquote_escaped [of "runes s" t] runes_shape [of _ s] by (simp add: json_quote_def clean_def)

section \<open>Values\<close>

text \<open>Numbers are kept as their text.\<close>

datatype json =
  JNull | JBool bool | JNum bytes | JStr bytes | JArr "json list" | JObj "(bytes \<times> json) list"

definition number_char :: "char \<Rightarrow> bool" where
  "number_char c \<longleftrightarrow> is_digit c \<or> c \<in> set ''+-.eE''"

definition valid_exponent :: "bytes \<Rightarrow> bool" where
  "valid_exponent s =
     (case s of
        [] \<Rightarrow> True
      | c # t \<Rightarrow> c \<in> set ''eE'' \<and>
          (let ds = (if t \<noteq> [] \<and> hd t \<in> set ''+-'' then tl t else t) in ds \<noteq> [] \<and> list_all is_digit ds))"

definition valid_number :: "bytes \<Rightarrow> bool" where
  "valid_number s =
     (let s = (if s \<noteq> [] \<and> hd s = CHR ''-'' then tl s else s); ds = takeWhile is_digit s; r = dropWhile is_digit s
      in ds \<noteq> [] \<and> (hd ds = CHR ''0'' \<longrightarrow> length ds = 1) \<and>
         (if r \<noteq> [] \<and> hd r = CHR ''.''
          then takeWhile is_digit (tl r) \<noteq> [] \<and> valid_exponent (dropWhile is_digit (tl r))
          else valid_exponent r))"

text \<open>\<open>json.Marshal\<close>.\<close>

fun commas :: "bytes list \<Rightarrow> bytes" where
  "commas [] = []"
| "commas [x] = x"
| "commas (x # y # xs) = x @ CHR '','' # commas (y # xs)"

primrec json_print :: "json \<Rightarrow> bytes" where
  "json_print JNull = ''null''"
| "json_print (JBool b) = (if b then ''true'' else ''false'')"
| "json_print (JNum n) = n"
| "json_print (JStr s) = json_quote s"
| "json_print (JArr xs) = CHR ''['' # commas (map json_print xs) @ '']''"
| "json_print (JObj fs) =
     CHR ''{'' # commas (map (\<lambda>(k, v). json_quote k @ CHR '':'' # v) (map (map_prod id json_print) fs)) @ ''}''"

text \<open>The parser; the fuel bounds the calls, of which each consumes input.\<close>

definition skip_space :: "bytes \<Rightarrow> bytes" where
  "skip_space s = dropWhile (\<lambda>c. c \<in> {CHR '' '', CHR 0x09, CHR 0x0A, CHR 0x0D}) s"

definition parse_literal :: "bytes \<Rightarrow> (json \<times> bytes) option" where
  "parse_literal s =
     (if has_prefix s ''null'' then Some (JNull, drop 4 s)
      else if has_prefix s ''true'' then Some (JBool True, drop 4 s)
      else if has_prefix s ''false'' then Some (JBool False, drop 5 s)
      else if valid_number (takeWhile number_char s)
      then Some (JNum (takeWhile number_char s), dropWhile number_char s) else None)"

fun parse_value :: "nat \<Rightarrow> bytes \<Rightarrow> (json \<times> bytes) option"
  and parse_elems :: "nat \<Rightarrow> bytes \<Rightarrow> (json list \<times> bytes) option"
  and parse_fields :: "nat \<Rightarrow> bytes \<Rightarrow> ((bytes \<times> json) list \<times> bytes) option" where
  "parse_value 0 s = None"
| "parse_value (Suc f) s =
     (case skip_space s of
        [] \<Rightarrow> None
      | c # t \<Rightarrow>
          if c = quote_mark then map_option (\<lambda>(x, r). (JStr x, r)) (unquote t)
          else if c = CHR ''['' then
            (if has_prefix (skip_space t) '']'' then Some (JArr [], tl (skip_space t))
             else map_option (\<lambda>(xs, r). (JArr xs, r)) (parse_elems f t))
          else if c = CHR ''{'' then
            (if has_prefix (skip_space t) ''}'' then Some (JObj [], tl (skip_space t))
             else map_option (\<lambda>(fs, r). (JObj fs, r)) (parse_fields f t))
          else parse_literal (c # t))"
| "parse_elems 0 s = None"
| "parse_elems (Suc f) s =
     (case parse_value f s of
        None \<Rightarrow> None
      | Some (x, r) \<Rightarrow>
          (case skip_space r of
             [] \<Rightarrow> None
           | c # t \<Rightarrow>
               if c = CHR '']'' then Some ([x], t)
               else if c = CHR '','' then map_option (\<lambda>(xs, q). (x # xs, q)) (parse_elems f t)
               else None))"
| "parse_fields 0 s = None"
| "parse_fields (Suc f) s =
     (case skip_space s of
        [] \<Rightarrow> None
      | c # t \<Rightarrow>
          if c \<noteq> quote_mark then None
          else (case unquote t of
                  None \<Rightarrow> None
                | Some (k, r) \<Rightarrow>
                    if \<not> has_prefix (skip_space r) '':'' then None
                    else (case parse_value f (tl (skip_space r)) of
                            None \<Rightarrow> None
                          | Some (v, r) \<Rightarrow>
                              (case skip_space r of
                                 [] \<Rightarrow> None
                               | c # t \<Rightarrow>
                                   if c = CHR ''}'' then Some ([(k, v)], t)
                                   else if c = CHR '','' then map_option (\<lambda>(fs, q). ((k, v) # fs, q)) (parse_fields f t)
                                   else None))))"

primrec json_depth :: "json \<Rightarrow> nat" where
  "json_depth JNull = 0"
| "json_depth (JBool b) = 0"
| "json_depth (JNum n) = 0"
| "json_depth (JStr s) = 0"
| "json_depth (JArr xs) = Suc (foldr max (map json_depth xs) 0)"
| "json_depth (JObj fs) = Suc (foldr max (map snd (map (map_prod id json_depth) fs)) 0)"

definition maxNestingDepth :: nat where "maxNestingDepth = 10000"

definition json_parse :: "bytes \<Rightarrow> json option" where
  "json_parse s =
     (case parse_value (Suc (length s)) s of
        None \<Rightarrow> None
      | Some (j, r) \<Rightarrow> if skip_space r = [] \<and> json_depth j \<le> maxNestingDepth then Some j else None)"

text \<open>What a value becomes: its strings are cleaned, its numbers must be numbers.\<close>

primrec json_clean :: "json \<Rightarrow> json" where
  "json_clean JNull = JNull"
| "json_clean (JBool b) = JBool b"
| "json_clean (JNum n) = JNum n"
| "json_clean (JStr s) = JStr (clean s)"
| "json_clean (JArr xs) = JArr (map json_clean xs)"
| "json_clean (JObj fs) = JObj (map (\<lambda>(k, v). (clean k, v)) (map (map_prod id json_clean) fs))"

primrec numbers_ok :: "json \<Rightarrow> bool" where
  "numbers_ok JNull = True"
| "numbers_ok (JBool b) = True"
| "numbers_ok (JNum n) = (valid_number n \<and> list_all number_char n)"
| "numbers_ok (JStr s) = True"
| "numbers_ok (JArr xs) = list_all id (map numbers_ok xs)"
| "numbers_ok (JObj fs) = list_all snd (map (map_prod id numbers_ok) fs)"

declare parse_value.simps [simp del] parse_elems.simps [simp del] parse_fields.simps [simp del]

text \<open>
  Fuel: a value, the elements of an array or the fields of an object are found with as much fuel as they
  have characters, so the length of a text is enough for whatever any fuel finds in it.
\<close>

lemma skip_shorter: "skip_space s = c # t \<Longrightarrow> length t < length s"
proof -
  assume "skip_space s = c # t"
  then have "length (c # t) \<le> length s" unfolding skip_space_def by (metis length_dropWhile_le)
  then show ?thesis by simp
qed

lemma unquote_shorter: "unquote s = Some (x, r) \<Longrightarrow> length r < length s"
proof (induction s arbitrary: x r rule: unquote.induct)
  case (1 s)
  obtain c t where s: "s = c # t" using "1.prems" by (cases s) (auto simp: unquote.simps)
  show ?case
  proof (cases "c = quote_mark")
    case True
    then show ?thesis using "1.prems" unfolding s True unquote.simps [of "quote_mark # t"] by simp
  next
    case False
    then obtain y q z where u: "unquote_step s = Some (y, q)" "unquote q = Some (z, r)"
      using "1.prems" by (auto simp: s unquote.simps [of "c # t"] split: option.splits)
    then have "length r < length q" using "1.IH" [OF s False u(1) refl] by blast
    then show ?thesis using unquote_step_shorter [OF u(1)] by simp
  qed
qed

lemma parse_literal_shorter: "parse_literal s = Some (j, r) \<Longrightarrow> length r < length s"
proof -
  assume p: "parse_literal s = Some (j, r)"
  have "s \<noteq> []" using p by (auto simp: parse_literal_def has_prefix_def valid_number_def Let_def split: if_splits)
  moreover have "takeWhile number_char s \<noteq> [] \<Longrightarrow> length (dropWhile number_char s) < length s"
    by (cases s) (auto simp: le_imp_less_Suc length_dropWhile_le split: if_splits)
  moreover have "valid_number (takeWhile number_char s) \<Longrightarrow> takeWhile number_char s \<noteq> []" by (auto simp: valid_number_def)
  ultimately show ?thesis using p by (auto simp: parse_literal_def split: if_splits)
qed

lemma fuel_enough:
  "parse_value f s = Some (j, r) \<Longrightarrow> length r < length s \<and> (\<forall>g. length s - length r \<le> g \<longrightarrow> parse_value g s = Some (j, r))"
  "parse_elems f s = Some (xs, r) \<Longrightarrow> length r < length s \<and> (\<forall>g. length s - length r \<le> g \<longrightarrow> parse_elems g s = Some (xs, r))"
  "parse_fields f s = Some (fs, r) \<Longrightarrow> length r < length s \<and> (\<forall>g. length s - length r \<le> g \<longrightarrow> parse_fields g s = Some (fs, r))"
proof (induction f s and f s and f s arbitrary: j r and xs r and fs r rule: parse_value_parse_elems_parse_fields.induct)
  case (2 f s)
  obtain c t where ct: "skip_space s = c # t" using "2.prems" by (auto simp: parse_value.simps split: list.splits)
  have len: "length t < length s" "length (tl (skip_space t)) \<le> length t"
    using skip_shorter [OF ct] length_dropWhile_le [of _ t] by (auto simp: skip_space_def intro: le_trans [OF diff_le_self])
  have at: "parse_value (Suc g) s = (if c = quote_mark then map_option (\<lambda>(x, r). (JStr x, r)) (unquote t)
          else if c = CHR ''['' then
            (if has_prefix (skip_space t) '']'' then Some (JArr [], tl (skip_space t))
             else map_option (\<lambda>(xs, r). (JArr xs, r)) (parse_elems g t))
          else if c = CHR ''{'' then
            (if has_prefix (skip_space t) ''}'' then Some (JObj [], tl (skip_space t))
             else map_option (\<lambda>(fs, r). (JObj fs, r)) (parse_fields g t))
          else parse_literal (c # t))" for g
    by (simp add: parse_value.simps ct)
  consider (str) "c = quote_mark" | (arr) xs where "c = CHR ''[''" "\<not> has_prefix (skip_space t) '']''" "parse_elems f t = Some (xs, r)"
    | (obj) fs where "c = CHR ''{''" "\<not> has_prefix (skip_space t) ''}''" "parse_fields f t = Some (fs, r)"
    | (lit) "c \<notin> {quote_mark, CHR ''['', CHR ''{''}"
    | (nil) "r = tl (skip_space t)" "c = CHR ''['' \<and> has_prefix (skip_space t) '']'' \<or> c = CHR ''{'' \<and> has_prefix (skip_space t) ''}''"
    using "2.prems" unfolding at by (auto split: if_splits)
  moreover have plain: ?case if "length r < length s" "\<And>g. parse_value (Suc g) s = parse_value (Suc f) s"
  proof -
    have "parse_value g s = Some (j, r)" if "length s - length r \<le> g" for g
      using that \<open>length r < length s\<close> "2.prems" \<open>\<And>g. parse_value (Suc g) s = parse_value (Suc f) s\<close> by (cases g) auto
    then show ?thesis using that(1) by simp
  qed
  ultimately show ?case
  proof cases
    case str
    then have "length r < length t" using "2.prems" by (auto simp: at dest: unquote_shorter)
    then show ?thesis using len str by (intro plain) (simp_all add: at)
  next
    case arr
    have ih: "length r < length t" "\<And>g. length t - length r \<le> g \<Longrightarrow> parse_elems g t = Some (xs, r)"
      using "2.IH"(1) [OF ct _ _ _ arr(3)] arr(1,2) by auto
    have "parse_value g s = Some (j, r)" if g: "length s - length r \<le> g" for g
    proof -
      obtain h where h: "g = Suc h" "length t - length r \<le> h" using g ih(1) len by (cases g) auto
      show ?thesis using "2.prems" ih(2) [OF h(2)] arr by (simp add: at h(1))
    qed
    then show ?thesis using ih(1) len by simp
  next
    case obj
    have ih: "length r < length t" "\<And>g. length t - length r \<le> g \<Longrightarrow> parse_fields g t = Some (fs, r)"
      using "2.IH"(2) [OF ct _ _ _ _ obj(3)] obj(1,2) by auto
    have "parse_value g s = Some (j, r)" if g: "length s - length r \<le> g" for g
    proof -
      obtain h where h: "g = Suc h" "length t - length r \<le> h" using g ih(1) len by (cases g) auto
      show ?thesis using "2.prems" ih(2) [OF h(2)] obj by (simp add: at h(1))
    qed
    then show ?thesis using ih(1) len by simp
  next
    case lit
    then have "length r < length (c # t)" using "2.prems" by (auto simp: at dest: parse_literal_shorter)
    then show ?thesis using len lit by (intro plain) (simp_all add: at)
  next
    case nil
    then show ?thesis using len by (intro plain) (auto simp: at)
  qed
next
  case (4 f s)
  obtain x r1 c t where v: "parse_value f s = Some (x, r1)" and ct: "skip_space r1 = c # t"
    using "4.prems" by (auto simp: parse_elems.simps split: option.splits list.splits)
  have iv: "length r1 < length s" "\<And>g. length s - length r1 \<le> g \<Longrightarrow> parse_value g s = Some (x, r1)"
    using "4.IH"(1) [OF v] by auto
  have len: "length t < length r1" by (rule skip_shorter [OF ct])
  consider (close) "c = CHR '']''" "xs = [x]" "r = t" | (more) ys where "c = CHR '',''" "parse_elems f t = Some (ys, r)" "xs = x # ys"
    using "4.prems" by (auto simp: parse_elems.simps v ct split: if_splits)
  then show ?case
  proof cases
    case close
    have "parse_elems g s = Some (xs, r)" if g: "length s - length r \<le> g" for g
    proof -
      obtain h where h: "g = Suc h" "length s - length r1 \<le> h" using g iv(1) len close by (cases g) auto
      show ?thesis using iv(2) [OF h(2)] close by (simp add: parse_elems.simps h(1) ct)
    qed
    then show ?thesis using iv(1) len close by simp
  next
    case more
    have ie: "length r < length t" "\<And>g. length t - length r \<le> g \<Longrightarrow> parse_elems g t = Some (ys, r)"
      using "4.IH"(2) [OF v refl ct _ _ more(2)] more(1) by auto
    have "parse_elems g s = Some (xs, r)" if g: "length s - length r \<le> g" for g
    proof -
      obtain h where h: "g = Suc h" "length s - length r1 \<le> h" "length t - length r \<le> h"
        using g iv(1) len ie(1) by (cases g) auto
      show ?thesis using iv(2) [OF h(2)] ie(2) [OF h(3)] more by (simp add: parse_elems.simps h(1) ct)
    qed
    then show ?thesis using iv(1) len ie(1) by simp
  qed
next
  case (6 f s)
  obtain t0 k r0 where q: "skip_space s = quote_mark # t0" and u: "unquote t0 = Some (k, r0)" and co: "has_prefix (skip_space r0) '':''"
    using "6.prems" by (auto simp: parse_fields.simps split: option.splits list.splits if_splits)
  let ?s = "tl (skip_space r0)"
  have l0: "length ?s < length s"
    using skip_shorter [OF q] unquote_shorter [OF u] length_dropWhile_le [of _ r0] unfolding skip_space_def length_tl
    by (meson diff_le_self le_trans le_less_trans less_trans)
  obtain x r1 c t where v: "parse_value f ?s = Some (x, r1)" and ct: "skip_space r1 = c # t"
    using "6.prems" by (auto simp: parse_fields.simps q u co split: option.splits list.splits)
  have iv: "length r1 < length ?s" "\<And>g. length ?s - length r1 \<le> g \<Longrightarrow> parse_value g ?s = Some (x, r1)"
    using "6.IH"(1) [OF q _ u refl _ v] co by auto
  have len: "length t < length r1" by (rule skip_shorter [OF ct])
  consider (close) "c = CHR ''}''" "fs = [(k, x)]" "r = t" | (more) ys where "c = CHR '',''" "parse_fields f t = Some (ys, r)" "fs = (k, x) # ys"
    using "6.prems" by (auto simp: parse_fields.simps q u co v ct split: if_splits)
  then show ?case
  proof cases
    case close
    have "parse_fields g s = Some (fs, r)" if g: "length s - length r \<le> g" for g
    proof -
      obtain h where h: "g = Suc h" "length ?s - length r1 \<le> h" using g iv(1) len l0 close by (cases g) auto
      show ?thesis using iv(2) [OF h(2)] close by (simp add: parse_fields.simps h(1) q u co ct)
    qed
    then show ?thesis using iv(1) len l0 close by simp
  next
    case more
    have ie: "length r < length t" "\<And>g. length t - length r \<le> g \<Longrightarrow> parse_fields g t = Some (ys, r)"
      using "6.IH"(2) [OF q _ u refl _ v refl ct _ _ more(2)] more(1) co by auto
    have "parse_fields g s = Some (fs, r)" if g: "length s - length r \<le> g" for g
    proof -
      obtain h where h: "g = Suc h" "length ?s - length r1 \<le> h" "length t - length r \<le> h"
        using g iv(1) len l0 ie(1) by (cases g) auto
      show ?thesis using iv(2) [OF h(2)] ie(2) [OF h(3)] more by (simp add: parse_fields.simps h(1) q u co ct)
    qed
    then show ?thesis using iv(1) len l0 ie(1) by simp
  qed
qed (simp_all add: parse_value.simps parse_elems.simps parse_fields.simps)

lemma json_parse_fuel:
  "json_parse s = Some j \<longleftrightarrow>
     (\<exists>f r. parse_value f s = Some (j, r) \<and> skip_space r = [] \<and> json_depth j \<le> maxNestingDepth)"
proof
  assume "json_parse s = Some j"
  then obtain r where "parse_value (Suc (length s)) s = Some (j, r)" "skip_space r = []" "json_depth j \<le> maxNestingDepth"
    unfolding json_parse_def by (cases "parse_value (Suc (length s)) s") (auto split: if_splits)
  then show "\<exists>f r. parse_value f s = Some (j, r) \<and> skip_space r = [] \<and> json_depth j \<le> maxNestingDepth" by blast
next
  assume "\<exists>f r. parse_value f s = Some (j, r) \<and> skip_space r = [] \<and> json_depth j \<le> maxNestingDepth"
  then obtain f r where p: "parse_value f s = Some (j, r)" "skip_space r = []" "json_depth j \<le> maxNestingDepth" by blast
  have "parse_value (Suc (length s)) s = Some (j, r)" using fuel_enough(1) [OF p(1)] by simp
  then show "json_parse s = Some j" using p(2,3) by (simp add: json_parse_def)
qed

lemma depth_clean [simp]: "json_depth (json_clean j) = json_depth j"
proof (induction j)
  case (JArr xs)
  then have "map json_depth (map json_clean xs) = map json_depth xs" by simp
  then show ?case by (simp only: json_clean.simps json_depth.simps)
next
  case (JObj fs)
  then have "map (\<lambda>x. json_depth (json_clean (snd x))) fs = map (\<lambda>x. json_depth (snd x)) fs" by auto
  then have "foldr max (map (\<lambda>x. json_depth (json_clean (snd x))) fs) 0 = foldr max (map (\<lambda>x. json_depth (snd x)) fs) 0"
    by (simp only:)
  then show ?case by (simp add: comp_def case_prod_beta)
qed simp_all

definition plain_start :: "bytes \<Rightarrow> bool" where
  "plain_start s \<longleftrightarrow> s \<noteq> [] \<and> hd s \<notin> {CHR '' '', CHR 0x09, CHR 0x0A, CHR 0x0D, CHR '']'', CHR ''}''}"

lemma skip_plain [simp]: "plain_start s \<Longrightarrow> skip_space (s @ t) = s @ t"
  by (cases s) (auto simp: plain_start_def skip_space_def)

lemma quote_plain [simp]: "plain_start (json_quote s)"
  by (simp add: plain_start_def json_quote_def)

lemma number_plain: "valid_number n \<Longrightarrow> list_all number_char n \<Longrightarrow> plain_start n"
  by (cases n) (auto simp: plain_start_def valid_number_def number_char_def is_digit_def)

lemma print_plain: "numbers_ok j \<Longrightarrow> plain_start (json_print j)"
proof (cases j)
  case (JNum n)
  then show "numbers_ok j \<Longrightarrow> ?thesis" by (simp add: number_plain)
qed (auto simp: plain_start_def json_quote_def)

lemma number_not_literal:
  assumes "valid_number n" "list_all number_char n"
  shows "\<not> has_prefix (n @ t) ''null'' \<and> \<not> has_prefix (n @ t) ''true'' \<and> \<not> has_prefix (n @ t) ''false'' \<and>
    hd n \<notin> {quote_mark, CHR ''['', CHR ''{''}"
  using assms by (cases n) (auto simp: valid_number_def has_prefix_def number_char_def is_digit_def)

text \<open>A text that follows a printed value may not go on with a number.\<close>

definition closed :: "bytes \<Rightarrow> bool" where
  "closed s \<longleftrightarrow> s = [] \<or> \<not> number_char (hd s)"

lemma span_closed: "list_all P n \<Longrightarrow> s = [] \<or> \<not> P (hd s) \<Longrightarrow> takeWhile P (n @ s) = n \<and> dropWhile P (n @ s) = s"
  by (induction n) (cases s; auto)+

lemma parse_number: "valid_number n \<Longrightarrow> list_all number_char n \<Longrightarrow> closed t \<Longrightarrow> parse_literal (n @ t) = Some (JNum n, t)"
  using number_not_literal [of n t] span_closed [of number_char n t] by (simp add: parse_literal_def closed_def)

lemma parse_value_at:
  assumes "plain_start s"
  shows "parse_value (Suc f) (s @ u) =
     (let c = hd s; t = tl s @ u in
      if c = quote_mark then map_option (\<lambda>(x, r). (JStr x, r)) (unquote t)
      else if c = CHR ''['' then
        (if has_prefix (skip_space t) '']'' then Some (JArr [], tl (skip_space t))
         else map_option (\<lambda>(xs, r). (JArr xs, r)) (parse_elems f t))
      else if c = CHR ''{'' then
        (if has_prefix (skip_space t) ''}'' then Some (JObj [], tl (skip_space t))
         else map_option (\<lambda>(fs, r). (JObj fs, r)) (parse_fields f t))
      else parse_literal (s @ u))"
  using assms skip_plain [OF assms, of u] by (cases s) (simp_all add: parse_value.simps plain_start_def)

text \<open>The list loops, given what they need of the elements.\<close>

lemma commas_Cons: "xs \<noteq> [] \<Longrightarrow> commas (x # xs) = x @ CHR '','' # commas xs"
  by (cases xs) simp_all

lemma parse_elems_commas:
  assumes "xs \<noteq> []"
    and "\<And>x f t. x \<in> set xs \<Longrightarrow> closed t \<Longrightarrow> length (pr x) \<le> f \<Longrightarrow> parse_value f (pr x @ t) = Some (v x, t)"
    and "length (commas (map pr xs)) < f"
  shows "parse_elems f (commas (map pr xs) @ CHR '']'' # t) = Some (map v xs, t)"
  using assms
proof (induction xs arbitrary: f)
  case (Cons x xs)
  obtain g where f: "f = Suc g" using Cons.prems(3) by (cases f) auto
  show ?case
  proof (cases "xs = []")
    case True
    have "parse_value g (pr x @ CHR '']'' # t) = Some (v x, CHR '']'' # t)"
      using Cons.prems True f by (simp add: closed_def number_char_def is_digit_def)
    then show ?thesis by (simp add: True f parse_elems.simps skip_space_def)
  next
    case False
    have l: "length (pr x) + length (commas (map pr xs)) < g"
      using Cons.prems(3) False f by (simp add: commas_Cons)
    have "parse_value g (pr x @ CHR '','' # commas (map pr xs) @ CHR '']'' # t) =
        Some (v x, CHR '','' # commas (map pr xs) @ CHR '']'' # t)"
      using Cons.prems(2) l by (simp add: closed_def number_char_def is_digit_def)
    moreover have "parse_elems g (commas (map pr xs) @ CHR '']'' # t) = Some (map v xs, t)"
      using Cons.IH [OF False] Cons.prems(2) l by simp
    ultimately show ?thesis using False by (simp add: f commas_Cons parse_elems.simps skip_space_def)
  qed
qed simp

abbreviation print_field :: "(bytes \<times> bytes) \<Rightarrow> bytes" where
  "print_field \<equiv> (\<lambda>(k, v). json_quote k @ CHR '':'' # v)"

lemma parse_fields_commas:
  assumes "fs \<noteq> []"
    and "\<And>k x f t. (k, x) \<in> set fs \<Longrightarrow> closed t \<Longrightarrow> length (pr x) \<le> f \<Longrightarrow> parse_value f (pr x @ t) = Some (v x, t)"
    and "length (commas (map (\<lambda>(k, x). print_field (k, pr x)) fs)) < f"
  shows "parse_fields f (commas (map (\<lambda>(k, x). print_field (k, pr x)) fs) @ CHR ''}'' # t) =
    Some (map (\<lambda>(k, x). (clean k, v x)) fs, t)"
  using assms
proof (induction fs arbitrary: f)
  case (Cons kx fs)
  obtain k x where kx: "kx = (k, x)" by (cases kx)
  obtain g where f: "f = Suc g" using Cons.prems(3) by (cases f) auto
  have q: "skip_space (json_quote k @ u) = quote_mark # tl (json_quote k) @ u" for u
    by (simp add: json_quote_def skip_space_def)
  have key: "parse_fields (Suc g) (json_quote k @ CHR '':'' # u) =
      (case parse_value g u of
         None \<Rightarrow> None
       | Some (v, r) \<Rightarrow>
           (case skip_space r of
              [] \<Rightarrow> None
            | c # t \<Rightarrow>
                if c = CHR ''}'' then Some ([(clean k, v)], t)
                else if c = CHR '','' then map_option (\<lambda>(fs, q). ((clean k, v) # fs, q)) (parse_fields g t)
                else None))" for u
    by (simp add: parse_fields.simps q unquote_quote) (simp add: skip_space_def has_prefix_def)
  show ?case
  proof (cases "fs = []")
    case True
    have "parse_value g (pr x @ CHR ''}'' # t) = Some (v x, CHR ''}'' # t)"
      using Cons.prems True f kx by (simp add: closed_def number_char_def is_digit_def)
    then show ?thesis by (simp add: True f kx key skip_space_def)
  next
    case False
    let ?rest = "commas (map (\<lambda>(k, x). print_field (k, pr x)) fs)"
    have l: "length (pr x) + length ?rest < g"
      using Cons.prems(3) False f kx by (simp add: commas_Cons)
    have "parse_value g (pr x @ CHR '','' # ?rest @ CHR ''}'' # t) = Some (v x, CHR '','' # ?rest @ CHR ''}'' # t)"
      using Cons.prems(2) [of k x] l kx by (simp add: closed_def number_char_def is_digit_def)
    moreover have "parse_fields g (?rest @ CHR ''}'' # t) = Some (map (\<lambda>(k, x). (clean k, v x)) fs, t)"
      using Cons.IH [OF False, of g] Cons.prems(2) l by auto
    ultimately show ?thesis using False by (simp add: f kx commas_Cons key skip_space_def)
  qed
qed simp

text \<open>What is printed is read back, cleaned.\<close>

lemma has_prefix_hd: "plain_start s \<Longrightarrow> \<not> has_prefix (s @ t) '']'' \<and> \<not> has_prefix (s @ t) ''}''"
  by (cases s) (auto simp: plain_start_def has_prefix_def)

lemma commas_plain: "xs \<noteq> [] \<Longrightarrow> plain_start (hd xs) \<Longrightarrow> plain_start (commas xs)"
  by (induction xs rule: commas.induct) (auto simp: plain_start_def)

lemma parse_printed:
  "numbers_ok j \<Longrightarrow> closed t \<Longrightarrow> length (json_print j) \<le> f \<Longrightarrow> parse_value f (json_print j @ t) = Some (json_clean j, t)"
proof (induction j arbitrary: f t)
  case JNull
  then show ?case
    by (cases f) (simp_all add: parse_value.simps skip_space_def parse_literal_def has_prefix_def)
next
  case (JBool b)
  then show ?case
    by (cases f; cases b) (auto simp: parse_value.simps skip_space_def parse_literal_def has_prefix_def)
next
  case (JNum n)
  then have n: "plain_start n" "hd n \<notin> {quote_mark, CHR ''['', CHR ''{''}" "n \<noteq> []"
    using number_plain number_not_literal [of n] by (auto simp: plain_start_def)
  with JNum obtain g where "f = Suc g" by (cases f) auto
  then show ?case using JNum n parse_number [of n t] by (simp add: parse_value_at Let_def)
next
  case (JStr s)
  then obtain g where f: "f = Suc g" by (cases f) (auto simp: json_quote_def)
  have "hd (json_quote s) = quote_mark" by (simp add: json_quote_def)
  then show ?case using parse_value_at [OF quote_plain, of g s t] by (simp add: f unquote_quote)
next
  case (JArr xs)
  let ?cs = "commas (map json_print xs)"
  obtain g where f: "f = Suc g" using JArr.prems(3) by (cases f) auto
  show ?case
  proof (cases "xs = []")
    case True
    then show ?thesis by (simp add: f parse_value.simps skip_space_def has_prefix_def)
  next
    case False
    have p: "plain_start ?cs"
      using False JArr.prems(1) by (intro commas_plain) (auto simp: hd_map list_all_iff print_plain)
    have "parse_elems g (?cs @ CHR '']'' # t) = Some (map json_clean xs, t)"
      using JArr.prems JArr.IH f by (intro parse_elems_commas [OF False]) (auto simp: list_all_iff)
    then show ?thesis
      using skip_plain [OF p] has_prefix_hd [OF p] by (simp add: f parse_value.simps, simp add: skip_space_def)
  qed
next
  case (JObj fs)
  let ?cs = "commas (map (\<lambda>(k, x). print_field (k, json_print x)) fs)"
  have cs: "commas (map print_field (map (map_prod id json_print) fs)) = ?cs"
    by (rule arg_cong [of _ _ commas]) (induction fs, auto)
  obtain g where f: "f = Suc g" using JObj.prems(3) by (cases f) auto
  show ?case
  proof (cases "fs = []")
    case True
    then show ?thesis by (simp add: f parse_value.simps skip_space_def has_prefix_def)
  next
    case False
    have "plain_start (json_quote k @ u)" for k u by (simp add: json_quote_def plain_start_def)
    then have p: "plain_start ?cs"
      using False by (intro commas_plain) (auto simp: hd_map case_prod_beta)
    have "parse_fields g (?cs @ CHR ''}'' # t) = Some (map (\<lambda>(k, x). (clean k, json_clean x)) fs, t)"
    proof (rule parse_fields_commas [OF False])
      fix k x f' u assume "(k, x) \<in> set fs" "closed u" "length (json_print x) \<le> f'"
      moreover from this have "numbers_ok x" using JObj.prems(1) by (auto simp: list_all_iff)
      ultimately show "parse_value f' (json_print x @ u) = Some (json_clean x, u)"
        using JObj.IH [of "(k, x)" x u f'] by simp
    next
      show "length ?cs < g" using JObj.prems(3) unfolding json_print.simps cs by (simp add: f)
    qed
    then show ?thesis
      using skip_plain [OF p] has_prefix_hd [OF p] unfolding json_print.simps cs
      by (simp add: f parse_value.simps comp_def case_prod_beta, simp add: skip_space_def case_prod_beta)
  qed
qed

lemma parse_print:
  "numbers_ok j \<Longrightarrow> json_depth j \<le> maxNestingDepth \<Longrightarrow> json_parse (json_print j) = Some (json_clean j)"
  using parse_printed [of j "[]" "Suc (length (json_print j))"] by (simp add: json_parse_def closed_def skip_space_def)

section \<open>What was parsed is valid\<close>

text \<open>Every string a parser returns is valid UTF-8, whatever the bytes it read.\<close>

lemma valid_append: "valid_utf8 s \<Longrightarrow> valid_utf8 t \<Longrightarrow> valid_utf8 (s @ t)"
  by (simp add: valid_utf8_def runes_valid_append)

lemma valid_rune_utf8: "valid_rune r \<Longrightarrow> valid_utf8 r"
  using valid_rune_append [of r "[]"] by (simp add: valid_utf8_def)

lemma valid_Nil [simp]: "valid_utf8 []"
  by (simp add: valid_utf8_def)

lemma valid_replacement: "valid_rune replacement"
  by (simp add: valid_rune_def replacement_def lead_byte_def in_range_def)

lemma valid_clean_rune: "valid_rune (clean_rune r)"
  by (simp add: clean_rune_def valid_replacement)

lemma in_range_char_of: "in_range lo hi (char_of n) \<longleftrightarrow> lo \<le> n mod 256 \<and> n mod 256 \<le> hi"
  by (simp add: in_range_def)

lemma char_of_eq: "n < 256 \<Longrightarrow> char_of n = c \<longleftrightarrow> n = (of_char c :: nat)"
  by (auto simp: char_of_eq_iff take_bit_nat_eq_self)

lemma continuation_bound: "n div (m * 64) = q \<Longrightarrow> n < (q * 64 + h) * m \<Longrightarrow> n div m mod 64 < (h :: nat)"
proof -
  assume q: "n div (m * 64) = q" and n: "n < (q * 64 + h) * m"
  have "n div m = q * 64 + n div m mod 64"
    using div_mult_mod_eq [of "n div m" 64] unfolding q [symmetric] div_mult2_eq by simp
  moreover have "n div m < q * 64 + h" using n by (simp add: less_mult_imp_div_less)
  ultimately show ?thesis by linarith
qed

lemma valid_encoded: "n < 0xD800 \<or> 0xE000 \<le> n \<and> n < 0x110000 \<Longrightarrow> valid_rune (utf8_encode n)"
proof -
  assume n: "n < 0xD800 \<or> 0xE000 \<le> n \<and> n < 0x110000"
  consider "n < 0x80" | "0x80 \<le> n" "n < 0x800" | "0x800 \<le> n" "n < 0x10000" | "0x10000 \<le> n" by linarith
  then show ?thesis
  proof cases
    case 1
    then show ?thesis by (simp add: utf8_encode_def valid_rune_def lead_byte_def in_range_char_of)
  next
    case 2
    then have "2 \<le> n div 64" "n div 64 < 32" by auto
    then show ?thesis using 2 by (simp add: utf8_encode_def valid_rune_def lead_byte_def in_range_char_of)
  next
    case 3
    then have "n div 4096 < 16" by auto
    moreover have "n div 64 mod 64 < 32" if "n div 4096 = 13" "n < 0xD800"
      using continuation_bound [of n 64 13 32] that by simp
    ultimately show ?thesis using 3 n
      by (auto simp add: utf8_encode_def valid_rune_def lead_byte_def in_range_char_of char_of_eq)
  next
    case 4
    then have "n div 262144 < 5" using n by auto
    moreover have "n div 4096 mod 64 < 16" if "n div 262144 = 4"
      using continuation_bound [of n 4096 4 16] that n 4 by simp
    ultimately show ?thesis using 4 n
      by (auto simp add: utf8_encode_def valid_rune_def lead_byte_def in_range_char_of char_of_eq)
  qed
qed

lemma hex_val_bound: "hex_val c = Some n \<Longrightarrow> n < 16"
  by (auto simp: hex_val_def in_range_def split: if_splits)

lemma read_hex4_bound: "read_hex4 s = Some (n, t) \<Longrightarrow> n < 0x10000"
  by (auto simp: read_hex4_def split: list.splits option.splits dest!: hex_val_bound)

lemma unquote_unicode_valid: "unquote_unicode s = Some (x, t) \<Longrightarrow> valid_rune x"
  by (auto simp: unquote_unicode_def valid_replacement split: if_splits list.splits option.splits intro!: valid_encoded)
    (arith | drule read_hex4_bound, simp)+

lemma unquote_step_valid: "unquote_step s = Some (x, t) \<Longrightarrow> valid_utf8 x"
  by (rule valid_rune_utf8) (auto simp: unquote_step_def valid_clean_rune unquote_unicode_valid unquote_simple_def
      in_range_def intro!: ascii_rune split: list.splits if_splits)

lemma unquote_valid: "unquote s = Some (x, t) \<Longrightarrow> valid_utf8 x"
proof (induction s arbitrary: x t rule: unquote.induct)
  case (1 s)
  show ?case
    using "1.prems" 1(1) unfolding unquote.simps [of s]
    by (auto split: list.splits if_splits option.splits intro!: valid_append dest: unquote_step_valid)
qed

lemma parse_literal_clean: "parse_literal s = Some (j, r) \<Longrightarrow> json_clean j = j"
  by (auto simp: parse_literal_def split: if_splits)

lemma parse_clean:
  "parse_value f s = Some (j, r) \<Longrightarrow> json_clean j = j"
  "parse_elems f s = Some (xs, r) \<Longrightarrow> map json_clean xs = xs"
  "parse_fields f s = Some (fs, r) \<Longrightarrow> map (\<lambda>(k, v). (clean k, json_clean v)) fs = fs"
proof (induction f s and f s and f s arbitrary: j r and xs r and fs r rule: parse_value_parse_elems_parse_fields.induct)
  case (2 f s)
  show ?case
    using "2.prems" 2(1,2) unfolding parse_value.simps
    by (auto simp: comp_def case_prod_beta clean_valid [OF unquote_valid] dest: parse_literal_clean split: list.splits if_splits)
qed (auto simp: parse_value.simps parse_elems.simps parse_fields.simps clean_valid [OF unquote_valid]
    split: list.splits if_splits option.splits)

lemma json_parse_clean: "json_parse s = Some j \<Longrightarrow> json_clean j = j"
  by (auto simp: json_parse_def dest: parse_clean(1) split: option.splits if_splits)

declare json_print.simps [simp del]

end
