(* ===== verification/Wire.thy ===== *)
theory Wire
  imports Json Proto
begin

text \<open>
  The messages of the connection as text (the struct tags of internal/proto/message.go): what
  \<open>json.Marshal\<close> writes for a hello, a request and a response, and what \<open>json.Unmarshal\<close> makes of any
  text, field by field. A raw message is the value it denotes, \<open>None\<close> for nil.
\<close>

type_synonym raw = "json option"

section \<open>Decoding a struct\<close>

text \<open>
  Keys match field names up to case, by Unicode's simple folding: the long s and the Kelvin sign
  fold to letters.
\<close>

definition ascii_upper :: "char \<Rightarrow> char" where
  "ascii_upper c = (if in_range 97 122 c then char_of (of_char c - 32 :: nat) else c)"

definition fold_rune :: "bytes \<Rightarrow> bytes" where
  "fold_rune r =
     (if r = [CHR 0xC5, CHR 0xBF] then ''S''
      else if r = [CHR 0xE2, CHR 0x84, CHR 0xAA] then ''K''
      else map ascii_upper r)"

definition fold_key :: "bytes \<Rightarrow> bytes" where
  "fold_key s = concat (map fold_rune (runes s))"

text \<open>A struct's fields, each with how a value is stored; \<open>None\<close> is a value of the wrong type.\<close>

type_synonym 's fields = "(string \<times> (json \<Rightarrow> 's \<Rightarrow> 's option)) list"

definition string_field :: "((string \<Rightarrow> string) \<Rightarrow> 's \<Rightarrow> 's) \<Rightarrow> json \<Rightarrow> 's \<Rightarrow> 's option" where
  "string_field update v s =
     (case v of JStr x \<Rightarrow> Some (update (\<lambda>_. x) s) | JNull \<Rightarrow> Some s | _ \<Rightarrow> None)"

definition bool_field :: "((bool \<Rightarrow> bool) \<Rightarrow> 's \<Rightarrow> 's) \<Rightarrow> json \<Rightarrow> 's \<Rightarrow> 's option" where
  "bool_field update v s =
     (case v of JBool b \<Rightarrow> Some (update (\<lambda>_. b) s) | JNull \<Rightarrow> Some s | _ \<Rightarrow> None)"

definition set_field :: "'s fields \<Rightarrow> bytes \<times> json \<Rightarrow> 's \<times> bool \<Rightarrow> 's \<times> bool" where
  "set_field fds = (\<lambda>(k, v) (s, ok).
     (case find (\<lambda>(name, store). fold_key k = fold_key name) fds of
        None \<Rightarrow> (s, ok)
      | Some (name, store) \<Rightarrow> (case store v s of None \<Rightarrow> (s, False) | Some s \<Rightarrow> (s, ok))))"

text \<open>Unknown keys are ignored, later ones win, null changes nothing.\<close>

definition decode_struct :: "'s fields \<Rightarrow> json \<Rightarrow> 's \<Rightarrow> 's option" where
  "decode_struct fds j s =
     (case j of
        JNull \<Rightarrow> Some s
      | JObj fs \<Rightarrow> (case fold (set_field fds) fs (s, True) of (s, ok) \<Rightarrow> if ok then Some s else None)
      | _ \<Rightarrow> None)"

definition json_Unmarshal :: "'s fields \<Rightarrow> 's \<Rightarrow> bytes \<Rightarrow> string + 's" where
  "json_Unmarshal fds zero data =
     (case json_parse data of
        None \<Rightarrow> Inl ''invalid JSON''
      | Some j \<Rightarrow> (case decode_struct fds j zero of None \<Rightarrow> Inl ''wrong type'' | Some s \<Rightarrow> Inr s))"

section \<open>The messages\<close>

definition raw_json :: "raw \<Rightarrow> json" where
  "raw_json raw = (case raw of None \<Rightarrow> JNull | Some j \<Rightarrow> j)"

definition encode_request :: "raw request \<Rightarrow> bytes" where
  "encode_request r = json_print (JObj
     [(''type'', JStr (rq_Type r)), (''request_id'', JStr (rq_RequestID r)), (''method'', JStr (rq_Method r)),
      (''params'', raw_json (rq_Params r))])"

definition request_fields :: "raw request fields" where
  "request_fields =
     [(''type'', string_field rq_Type_update), (''request_id'', string_field rq_RequestID_update),
      (''method'', string_field rq_Method_update), (''params'', \<lambda>v r. Some (r\<lparr>rq_Params := Some v\<rparr>))]"

definition decode_request :: "bytes \<Rightarrow> string + raw request" where
  "decode_request =
     json_Unmarshal request_fields \<lparr>rq_Type = [], rq_RequestID = [], rq_Method = [], rq_Params = None\<rparr>"

definition error_json :: "rpc_error \<Rightarrow> json" where
  "error_json e = JObj [(''code'', JStr (rpc_Code e)), (''message'', JStr (rpc_Message e))]"

definition error_fields :: "rpc_error fields" where
  "error_fields = [(''code'', string_field rpc_Code_update), (''message'', string_field rpc_Message_update)]"

definition encode_response :: "raw response \<Rightarrow> bytes" where
  "encode_response r = json_print (JObj
     ([(''type'', JStr (rs_Type r)), (''request_id'', JStr (rs_RequestID r))] @
      (case rs_Result r of Some (Some j) \<Rightarrow> [(''result'', j)] | _ \<Rightarrow> []) @
      (case rs_Error r of Some e \<Rightarrow> [(''error'', error_json e)] | None \<Rightarrow> [])))"

definition response_fields :: "raw response fields" where
  "response_fields =
     [(''type'', string_field rs_Type_update), (''request_id'', string_field rs_RequestID_update),
      (''result'', \<lambda>v r. Some (r\<lparr>rs_Result := Some (Some v)\<rparr>)),
      (''error'', \<lambda>v r.
         if v = JNull then Some (r\<lparr>rs_Error := None\<rparr>)
         else map_option (\<lambda>e. r\<lparr>rs_Error := Some e\<rparr>) (decode_struct error_fields v
           (case rs_Error r of None \<Rightarrow> \<lparr>rpc_Code = [], rpc_Message = []\<rparr> | Some e \<Rightarrow> e)))]"

definition decode_response :: "bytes \<Rightarrow> string + raw response" where
  "decode_response =
     json_Unmarshal response_fields \<lparr>rs_Type = [], rs_RequestID = [], rs_Result = None, rs_Error = None\<rparr>"

definition capabilities_json :: "capabilities \<Rightarrow> json" where
  "capabilities_json c = JObj
     [(''command_read'', JBool (cap_CommandRead c)), (''command_exec'', JBool (cap_CommandExec c)),
      (''process'', JBool (cap_Process c)), (''filesystem'', JBool (cap_Filesystem c))]"

definition capabilities_fields :: "capabilities fields" where
  "capabilities_fields =
     [(''command_read'', bool_field cap_CommandRead_update), (''command_exec'', bool_field cap_CommandExec_update),
      (''process'', bool_field cap_Process_update), (''filesystem'', bool_field cap_Filesystem_update)]"

definition encode_hello :: "hello \<Rightarrow> bytes" where
  "encode_hello h = json_print (JObj
     [(''type'', JStr (he_Type h)), (''device_id'', JStr (he_DeviceID h)), (''device_secret'', JStr (he_DeviceSecret h)),
      (''agent_version'', JStr (he_AgentVersion h)), (''os'', JStr (he_OS h)), (''arch'', JStr (he_Arch h)),
      (''capabilities'', capabilities_json (he_Capabilities h))])"

definition no_capabilities :: capabilities where
  "no_capabilities = \<lparr>cap_CommandRead = False, cap_CommandExec = False, cap_Process = False, cap_Filesystem = False\<rparr>"

definition hello_fields :: "hello fields" where
  "hello_fields =
     [(''type'', string_field he_Type_update), (''device_id'', string_field he_DeviceID_update),
      (''device_secret'', string_field he_DeviceSecret_update), (''agent_version'', string_field he_AgentVersion_update),
      (''os'', string_field he_OS_update), (''arch'', string_field he_Arch_update),
      (''capabilities'', \<lambda>v h. map_option (\<lambda>c. h\<lparr>he_Capabilities := c\<rparr>)
         (decode_struct capabilities_fields v (he_Capabilities h)))]"

definition decode_hello :: "bytes \<Rightarrow> string + hello" where
  "decode_hello = json_Unmarshal hello_fields
     \<lparr>he_Type = [], he_DeviceID = [], he_DeviceSecret = [], he_AgentVersion = [], he_OS = [], he_Arch = [],
      he_Capabilities = no_capabilities\<rparr>"

section \<open>What arrives\<close>

definition clean_request :: "raw request \<Rightarrow> raw request" where
  "clean_request r =
     \<lparr>rq_Type = clean (rq_Type r), rq_RequestID = clean (rq_RequestID r), rq_Method = clean (rq_Method r),
      rq_Params = Some (json_clean (raw_json (rq_Params r)))\<rparr>"

definition clean_error :: "rpc_error \<Rightarrow> rpc_error" where
  "clean_error e = \<lparr>rpc_Code = clean (rpc_Code e), rpc_Message = clean (rpc_Message e)\<rparr>"

definition clean_response :: "raw response \<Rightarrow> raw response" where
  "clean_response r =
     \<lparr>rs_Type = clean (rs_Type r), rs_RequestID = clean (rs_RequestID r),
      rs_Result = (case rs_Result r of Some (Some j) \<Rightarrow> Some (Some (json_clean j)) | _ \<Rightarrow> None),
      rs_Error = map_option clean_error (rs_Error r)\<rparr>"

definition clean_hello :: "hello \<Rightarrow> hello" where
  "clean_hello h =
     \<lparr>he_Type = clean (he_Type h), he_DeviceID = clean (he_DeviceID h), he_DeviceSecret = clean (he_DeviceSecret h),
      he_AgentVersion = clean (he_AgentVersion h), he_OS = clean (he_OS h), he_Arch = clean (he_Arch h),
      he_Capabilities = he_Capabilities h\<rparr>"

text \<open>ASCII text is its own sequences.\<close>

lemma runes_ascii: "list_all (in_range 0 0x7F) s \<Longrightarrow> runes s = map (\<lambda>c. [c]) s"
proof (induction s)
  case (Cons c s)
  then show ?case using valid_rune_append [OF ascii_rune, of c s] by simp
qed simp

lemma valid_ascii: "list_all (in_range 0 0x7F) s \<Longrightarrow> valid_utf8 s"
  by (auto simp: valid_utf8_def runes_ascii list_all_iff ascii_rune)

lemma fold_ascii: "list_all (in_range 0 0x7F) s \<Longrightarrow> fold_key s = map ascii_upper s"
  by (simp add: fold_key_def runes_ascii fold_rune_def concat_map_singleton comp_def)

text \<open>The field names as they are compared and as they are sent.\<close>

lemma fold_names [simp]:
  "fold_key ''type'' = ''TYPE''"
  "fold_key ''request_id'' = ''REQUEST_ID''"
  "fold_key ''method'' = ''METHOD''"
  "fold_key ''params'' = ''PARAMS''"
  "fold_key ''result'' = ''RESULT''"
  "fold_key ''error'' = ''ERROR''"
  "fold_key ''code'' = ''CODE''"
  "fold_key ''message'' = ''MESSAGE''"
  "fold_key ''device_id'' = ''DEVICE_ID''"
  "fold_key ''device_secret'' = ''DEVICE_SECRET''"
  "fold_key ''agent_version'' = ''AGENT_VERSION''"
  "fold_key ''os'' = ''OS''"
  "fold_key ''arch'' = ''ARCH''"
  "fold_key ''capabilities'' = ''CAPABILITIES''"
  "fold_key ''command_read'' = ''COMMAND_READ''"
  "fold_key ''command_exec'' = ''COMMAND_EXEC''"
  "fold_key ''process'' = ''PROCESS''"
  "fold_key ''filesystem'' = ''FILESYSTEM''"
  by (simp_all add: fold_ascii in_range_def ascii_upper_def char_of_def bit_Suc_0_iff)

lemma clean_names [simp]:
  "clean ''type'' = ''type''"
  "clean ''request_id'' = ''request_id''"
  "clean ''method'' = ''method''"
  "clean ''params'' = ''params''"
  "clean ''result'' = ''result''"
  "clean ''error'' = ''error''"
  "clean ''code'' = ''code''"
  "clean ''message'' = ''message''"
  "clean ''device_id'' = ''device_id''"
  "clean ''device_secret'' = ''device_secret''"
  "clean ''agent_version'' = ''agent_version''"
  "clean ''os'' = ''os''"
  "clean ''arch'' = ''arch''"
  "clean ''capabilities'' = ''capabilities''"
  "clean ''command_read'' = ''command_read''"
  "clean ''command_exec'' = ''command_exec''"
  "clean ''process'' = ''process''"
  "clean ''filesystem'' = ''filesystem''"
  by (simp_all add: clean_valid valid_ascii in_range_def)

text \<open>Values that fit into a message.\<close>

definition embeddable :: "json \<Rightarrow> bool" where
  "embeddable j \<longleftrightarrow> numbers_ok j \<and> json_depth j < maxNestingDepth"

lemma limit [simp]: "0 < maxNestingDepth" "Suc 0 < maxNestingDepth"
  by (simp_all add: maxNestingDepth_def)

lemmas decoding = json_Unmarshal_def parse_print decode_struct_def set_field_def string_field_def bool_field_def

lemma decode_encode_request:
  "embeddable (raw_json (rq_Params r)) \<Longrightarrow> decode_request (encode_request r) = Inr (clean_request r)"
  by (simp add: decode_request_def encode_request_def decoding request_fields_def clean_request_def embeddable_def Suc_le_eq)

definition result_ok :: "raw response \<Rightarrow> bool" where
  "result_ok r \<longleftrightarrow> (case rs_Result r of Some (Some j) \<Rightarrow> embeddable j | _ \<Rightarrow> True)"

lemma decode_encode_response: "result_ok r \<Longrightarrow> decode_response (encode_response r) = Inr (clean_response r)"
  by (cases "rs_Result r"; cases "rs_Error r"; cases "the (rs_Result r)")
    (simp_all add: decode_response_def encode_response_def decoding response_fields_def clean_response_def result_ok_def
      error_json_def error_fields_def clean_error_def embeddable_def Suc_le_eq)

lemma decode_encode_hello: "decode_hello (encode_hello h) = Inr (clean_hello h)"
  by (simp add: decode_hello_def encode_hello_def decoding hello_fields_def clean_hello_def capabilities_json_def
      capabilities_fields_def Suc_le_eq)

text \<open>Messages of valid text arrive as they were.\<close>

primrec json_valid :: "json \<Rightarrow> bool" where
  "json_valid JNull = True"
| "json_valid (JBool b) = True"
| "json_valid (JNum n) = True"
| "json_valid (JStr s) = valid_utf8 s"
| "json_valid (JArr xs) = list_all id (map json_valid xs)"
| "json_valid (JObj fs) = list_all (\<lambda>(k, ok). valid_utf8 k \<and> ok) (map (map_prod id json_valid) fs)"

lemma json_clean_valid: "json_valid j \<Longrightarrow> json_clean j = j"
proof (induction j)
  case (JArr xs)
  then show ?case by (auto simp: list_all_iff intro: map_idI)
next
  case (JObj fs)
  have "(clean k, json_clean v) = (k, v)" if "(k, v) \<in> set fs" for k v
    using JObj.IH [OF that, of v] JObj.prems that by (auto simp: list_all_iff clean_valid)
  then show ?case by (auto intro!: map_idI)
qed (simp_all add: clean_valid)

text \<open>Messages of valid text; a result is there or not, never an empty raw message.\<close>

definition request_valid :: "raw request \<Rightarrow> bool" where
  "request_valid r \<longleftrightarrow> valid_utf8 (rq_Type r) \<and> valid_utf8 (rq_RequestID r) \<and> valid_utf8 (rq_Method r) \<and>
     rq_Params r \<noteq> None \<and> json_valid (raw_json (rq_Params r))"

definition response_valid :: "raw response \<Rightarrow> bool" where
  "response_valid r \<longleftrightarrow> valid_utf8 (rs_Type r) \<and> valid_utf8 (rs_RequestID r) \<and>
     (case rs_Result r of None \<Rightarrow> True | Some None \<Rightarrow> False | Some (Some j) \<Rightarrow> json_valid j) \<and>
     (case rs_Error r of None \<Rightarrow> True | Some e \<Rightarrow> valid_utf8 (rpc_Code e) \<and> valid_utf8 (rpc_Message e))"

definition hello_valid :: "hello \<Rightarrow> bool" where
  "hello_valid h \<longleftrightarrow> valid_utf8 (he_Type h) \<and> valid_utf8 (he_DeviceID h) \<and> valid_utf8 (he_DeviceSecret h) \<and>
     valid_utf8 (he_AgentVersion h) \<and> valid_utf8 (he_OS h) \<and> valid_utf8 (he_Arch h)"

lemma clean_request_valid: "request_valid r \<Longrightarrow> clean_request r = r"
  by (cases r) (auto simp: clean_request_def request_valid_def clean_valid json_clean_valid raw_json_def)

lemma clean_response_valid: "response_valid r \<Longrightarrow> clean_response r = r"
  by (cases r) (auto simp: clean_response_def response_valid_def clean_error_def clean_valid json_clean_valid
      split: option.splits)

lemma clean_hello_valid: "hello_valid h \<Longrightarrow> clean_hello h = h"
  by (cases h) (simp add: clean_hello_def hello_valid_def clean_valid)

text \<open>
  What a page cut costs (\<open>Read\<close> of agent/handlers_process.go): after whole characters the pages of an
  output join to the output, inside one they do not.
\<close>

lemma pages_join: "valid_utf8 page \<Longrightarrow> clean page @ clean rest = clean (page @ rest)"
  by (simp add: clean_append clean_valid)

lemma cut_page_corrupts:
  "clean [CHR 0xC3, CHR 0xA9] = [CHR 0xC3, CHR 0xA9]" "clean [CHR 0xC3] @ clean [CHR 0xA9] = replacement @ replacement"
  by code_simp+

section \<open>Properties\<close>

text \<open>
  C17. What one end sends the other receives: every hello, request and response that either end can
  write is read back by the decoder of the other, field by field, with each string's invalid
  bytes replaced and nothing else changed; a message of valid text comes back as it was, an
  absent result or error stays absent, whatever quotes, control characters, markup or
  multi-byte characters its strings hold.
\<close>

theorem message_roundtrip:
  assumes "embeddable (raw_json (rq_Params req))" and "result_ok resp"
  shows "decode_hello (encode_hello h) = Inr (clean_hello h) \<and>
    decode_request (encode_request req) = Inr (clean_request req) \<and>
    decode_response (encode_response resp) = Inr (clean_response resp) \<and>
    (hello_valid h \<longrightarrow> decode_hello (encode_hello h) = Inr h) \<and>
    (request_valid req \<longrightarrow> decode_request (encode_request req) = Inr req) \<and>
    (response_valid resp \<longrightarrow> decode_response (encode_response resp) = Inr resp)"
  using assms
  by (simp add: decode_encode_hello decode_encode_request decode_encode_response clean_hello_valid clean_request_valid
      clean_response_valid)

subsection \<open>Witness\<close>

theorem message_roundtrip_witness:
  "let req = \<lparr>rq_Type = TypeRequest, rq_RequestID = ''1'', rq_Method = MethodCommandExec,
         rq_Params = Some (JObj [(''command'', JStr [CHR 0x22, CHR 0xC3, CHR 0xA9, CHR 0x0A])])\<rparr>
   in decode_request (encode_request req) = Inr req"
proof -
  let ?req = "\<lparr>rq_Type = TypeRequest, rq_RequestID = ''1'', rq_Method = MethodCommandExec,
         rq_Params = Some (JObj [(''command'', JStr [CHR 0x22, CHR 0xC3, CHR 0xA9, CHR 0x0A])])\<rparr>"
  let ?resp = "\<lparr>rs_Type = TypeResponse, rs_RequestID = ''1'', rs_Result = Some None, rs_Error = None\<rparr>"
  have "valid_utf8 [CHR 0x22, CHR 0xC3, CHR 0xA9, CHR 0x0A]" by code_simp
  then have "request_valid ?req"
    by (simp add: request_valid_def raw_json_def valid_ascii in_range_def TypeRequest_def MethodCommandExec_def)
  moreover have "embeddable (raw_json (rq_Params ?req))" "result_ok ?resp" by (simp_all add: raw_json_def result_ok_def embeddable_def)
  ultimately have "decode_request (encode_request ?req) = Inr ?req" using message_roundtrip [of ?req ?resp] by blast
  then show ?thesis by (simp only: Let_def)
qed

end
