(* ===== verification/AgentServer.thy ===== *)
theory AgentServer
  imports Processes
begin

text \<open>
  The Agent around its handlers: settings (agent/config.go), the dispatcher and device.ping
  (agent/dispatch.go, agent/handlers_device.go), the sandbox probe (agent/sandbox_probe.go),
  how the connection serves a frame and how it reconnects (agent/connection.go), and the handler
  table and shutdown of agent/cmd/main.go. Sockets, JSON and the parser of durations are
  parameters.
\<close>

section \<open>Settings\<close>

definition envOr_agent :: "(string \<Rightarrow> string) \<Rightarrow> string \<Rightarrow> string \<Rightarrow> string" where
  "envOr_agent getenv key fallback = (let v = getenv key in if v \<noteq> [] then v else fallback)"

definition parseShellCommand :: "string \<Rightarrow> string list" where
  "parseShellCommand s = fields_from [] s"

text \<open>\<open>strconv.Atoi\<close>: an optional sign, at least one digit, a value of 64 bits.\<close>

definition atoi :: "string \<Rightarrow> int option" where
  "atoi s =
     (let neg = (s \<noteq> [] \<and> hd s = CHR ''-'');
          ds = (if s \<noteq> [] \<and> (hd s = CHR ''-'' \<or> hd s = CHR ''+'') then tl s else s)
      in if ds = [] \<or> \<not> list_all is_digit ds then None
         else (let v = (if neg then - int (dec_val ds) else int (dec_val ds))
               in if in_i64 v then Some v else None))"

definition envIntOr :: "(string \<Rightarrow> string) \<Rightarrow> string \<Rightarrow> int \<Rightarrow> int" where
  "envIntOr getenv key fallback =
     (let v = getenv key in
      if v \<noteq> [] then (case atoi v of Some n \<Rightarrow> n | None \<Rightarrow> fallback) else fallback)"

definition parse_bool :: "string \<Rightarrow> bool option" where
  "parse_bool s =
     (if s \<in> {''1'', ''t'', ''T'', ''true'', ''TRUE'', ''True''} then Some True
      else if s \<in> {''0'', ''f'', ''F'', ''false'', ''FALSE'', ''False''} then Some False else None)"

definition envBoolOr :: "(string \<Rightarrow> string) \<Rightarrow> string \<Rightarrow> bool \<Rightarrow> bool" where
  "envBoolOr getenv key fallback =
     (let v = getenv key in
      if v \<noteq> [] then (case parse_bool v of Some b \<Rightarrow> b | None \<Rightarrow> fallback) else fallback)"

definition envDurationOr :: "(string \<Rightarrow> int option) \<Rightarrow> (string \<Rightarrow> string) \<Rightarrow> string \<Rightarrow> int \<Rightarrow> int" where
  "envDurationOr parse_duration getenv key fallback =
     (let v = getenv key in
      if v \<noteq> [] then (case parse_duration v of Some d \<Rightarrow> d | None \<Rightarrow> fallback) else fallback)"

record agent_config =
  cf_DeviceID :: string
  cf_DeviceSecret :: string
  cf_GatewayURL :: string
  cf_DefaultShell :: "string list"
  cf_StdoutBufferBytes :: int
  cf_StderrBufferBytes :: int
  cf_FinishedProcessTTL :: int
  cf_HistoryRetention :: int
  cf_AgentVersion :: string
  cf_AutoUpdateEnabled :: bool
  cf_AutoUpdateInterval :: int

definition hour :: int where "hour = 3600 * 10 ^ 9"

definition LoadConfig :: "(string \<Rightarrow> int option) \<Rightarrow> string \<Rightarrow> (string \<Rightarrow> string) \<Rightarrow> agent_config" where
  "LoadConfig parse_duration version getenv =
     \<lparr>cf_DeviceID = getenv ''DEVICE_ID'', cf_DeviceSecret = getenv ''DEVICE_SECRET'',
      cf_GatewayURL = getenv ''GATEWAY_URL'',
      cf_DefaultShell = parseShellCommand (envOr_agent getenv ''DEFAULT_SHELL'' ''/bin/bash -lc''),
      cf_StdoutBufferBytes = envIntOr getenv ''STDOUT_BUFFER_BYTES'' (4 * 2 ^ 20),
      cf_StderrBufferBytes = envIntOr getenv ''STDERR_BUFFER_BYTES'' (4 * 2 ^ 20),
      cf_FinishedProcessTTL = envDurationOr parse_duration getenv ''FINISHED_PROCESS_TTL'' hour,
      cf_HistoryRetention = envDurationOr parse_duration getenv ''HISTORY_RETENTION'' (30 * 24 * hour),
      cf_AgentVersion = version,
      cf_AutoUpdateEnabled = envBoolOr getenv ''AUTO_UPDATE_ENABLED'' True,
      cf_AutoUpdateInterval = envDurationOr parse_duration getenv ''AUTO_UPDATE_INTERVAL'' (6 * hour)\<rparr>"

section \<open>The dispatcher\<close>

text \<open>
  A handler gets the raw parameters and the Agent's state; \<open>None\<close> is a panic. \<open>'v\<close> is the type of
  results, before they are marshalled.
\<close>

type_synonym ('raw, 'v, 's) handler = "'raw \<Rightarrow> 's \<Rightarrow> ((rpc_error + 'v) \<times> 's) option"

type_synonym ('raw, 'v, 's) dispatcher = "(string, ('raw, 'v, 's) handler) gomap"

definition NewDispatcher :: "('raw, 'v, 's) dispatcher" where
  "NewDispatcher = []"

definition disp_Handle ::
    "string \<Rightarrow> ('raw, 'v, 's) handler \<Rightarrow> ('raw, 'v, 's) dispatcher \<Rightarrow> ('raw, 'v, 's) dispatcher" where
  "disp_Handle m h d = gm_put m h d"

definition disp_Dispatch ::
    "('v \<Rightarrow> string + 'raw) \<Rightarrow> ('raw, 'v, 's) dispatcher \<Rightarrow> 'raw request \<Rightarrow> 's \<Rightarrow>
     ('raw response \<times> 's) option" where
  "disp_Dispatch marshal d req s =
     (let resp = \<lparr>rs_Type = TypeResponse, rs_RequestID = rq_RequestID req, rs_Result = None, rs_Error = None\<rparr> in
      case gm_get d (rq_Method req) of
        None \<Rightarrow> Some (resp\<lparr>rs_Error := Some (RPCErr ErrInvalidRequest (''unknown method: '' @ rq_Method req))\<rparr>, s)
      | Some h \<Rightarrow>
          (case h (rq_Params req) s of
             None \<Rightarrow> None
           | Some (Inl e, s') \<Rightarrow> Some (resp\<lparr>rs_Error := Some e\<rparr>, s')
           | Some (Inr result, s') \<Rightarrow>
               (case marshal result of
                  Inl err \<Rightarrow> Some (resp\<lparr>rs_Error := Some (RPCErr ErrInternal err)\<rparr>, s')
                | Inr raw \<Rightarrow> Some (resp\<lparr>rs_Result := Some raw\<rparr>, s'))))"

record ping_result =
  pg_Status :: string

definition device_Ping :: "'raw \<Rightarrow> 's \<Rightarrow> ((rpc_error + ping_result) \<times> 's) option" where
  "device_Ping raw s = Some (Inr \<lparr>pg_Status = ''pong''\<rparr>, s)"

section \<open>The handler table of the Agent\<close>

text \<open>The methods in the order main registers them; \<open>impl\<close> is the handler each name stands for.\<close>

definition agent_methods :: "string list" where
  "agent_methods =
     [MethodExecutionList, MethodExecutionGet, MethodCommandExec, MethodCommandRead, MethodReadQuery,
      MethodProcessStart, MethodProcessRead, MethodProcessWrite, MethodProcessWait, MethodProcessTerminate,
      MethodProcessList, MethodDevicePing, MethodFileRead, MethodFileStat, MethodFileList, MethodFileWrite,
      MethodFileMove, MethodFileDelete, MethodDirectoryCreate]"

definition agent_dispatcher :: "(string \<Rightarrow> ('raw, 'v, 's) handler) \<Rightarrow> ('raw, 'v, 's) dispatcher" where
  "agent_dispatcher impl = fold (\<lambda>m d. disp_Handle m (impl m) d) agent_methods NewDispatcher"

definition agent_capabilities :: "bool \<Rightarrow> capabilities" where
  "agent_capabilities sandboxSupported =
     \<lparr>cap_CommandRead = sandboxSupported, cap_CommandExec = True, cap_Process = True, cap_Filesystem = True\<rparr>"

text \<open>The probe: \<open>started\<close> and \<open>res\<close> are the outcomes of \<open>Start\<close> and \<open>Wait\<close> of the command \<open>true\<close>.\<close>

definition ProbeSandbox :: "string + 'h \<Rightarrow> ('h \<Rightarrow> exit_result) \<Rightarrow> bool" where
  "ProbeSandbox started wait =
     (case started of
        Inl err \<Rightarrow> False
      | Inr h \<Rightarrow> (let res = wait h in er_Err res = None \<and> \<not> er_SandboxSetupFailed res))"

text \<open>The sandbox Manager exists exactly when the probe succeeded.\<close>

definition sandbox_manager :: "agent_config \<Rightarrow> bool \<Rightarrow> manager option" where
  "sandbox_manager cfg supported =
     (if supported
      then Some (NewManager (cf_StdoutBufferBytes cfg) (cf_StderrBufferBytes cfg) (cf_FinishedProcessTTL cfg))
      else None)"

section \<open>Serving a frame\<close>

text \<open>
  What becomes of one frame: skipped when it does not parse; otherwise its goroutine panics and
  recovers, fails to marshal, or writes the answer, and closes the socket when the write fails.
\<close>

datatype frame_outcome = FrameSkipped | Recovered string string | NotMarshalled string | Answered bytes | WriteFailedClose

definition serve_frame ::
    "(bytes \<Rightarrow> string + 'raw request) \<Rightarrow> ('raw request \<Rightarrow> 's \<Rightarrow> ('raw response \<times> 's) option) \<Rightarrow>
     ('raw response \<Rightarrow> string + bytes) \<Rightarrow> (bytes \<Rightarrow> string option) \<Rightarrow> bytes \<Rightarrow> 's \<Rightarrow> frame_outcome \<times> 's" where
  "serve_frame parse dispatch marshal ws_write data s =
     (case parse data of
        Inl err \<Rightarrow> (FrameSkipped, s)
      | Inr req \<Rightarrow>
          (case dispatch req s of
             None \<Rightarrow> (Recovered (rq_RequestID req) (rq_Method req), s)
           | Some (resp, s') \<Rightarrow>
               (case marshal resp of
                  Inl err \<Rightarrow> (NotMarshalled (rq_RequestID req), s')
                | Inr out \<Rightarrow> (case ws_write out of Some err \<Rightarrow> (WriteFailedClose, s') | None \<Rightarrow> (Answered out, s')))))"

definition connection_hello :: "agent_config \<Rightarrow> string \<Rightarrow> string \<Rightarrow> capabilities \<Rightarrow> hello" where
  "connection_hello cfg os arch caps =
     \<lparr>he_Type = TypeHello, he_DeviceID = cf_DeviceID cfg, he_DeviceSecret = cf_DeviceSecret cfg,
      he_AgentVersion = cf_AgentVersion cfg, he_OS = os, he_Arch = arch, he_Capabilities = caps\<rparr>"

section \<open>Reconnecting\<close>

definition second :: int where "second = 10 ^ 9"
definition maxBackoff :: int where "maxBackoff = 30 * second"

definition next_backoff :: "int \<Rightarrow> int" where
  "next_backoff backoff =
     (if backoff < maxBackoff
      then (let b = backoff * 2 in if b > maxBackoff then maxBackoff else b)
      else backoff)"

text \<open>
  The loop of \<open>Run\<close>: for every connection attempt, whether \<open>runOnce\<close> failed, and the random addition
  to the wait, drawn from 0 up to half the backoff. The result is the waits until the context
  ends, which is when the list does.
\<close>

fun reconnect_waits :: "int \<Rightarrow> (string option \<times> int) list \<Rightarrow> int list" where
  "reconnect_waits backoff [] = []"
| "reconnect_waits backoff ((runOnce_err, jitter) # rest) =
     (backoff + jitter) # reconnect_waits (next_backoff backoff) rest"

fun jitters_ok :: "int \<Rightarrow> (string option \<times> int) list \<Rightarrow> bool" where
  "jitters_ok backoff [] = True"
| "jitters_ok backoff ((runOnce_err, jitter) # rest) =
     (0 \<le> jitter \<and> jitter < backoff div 2 + 1 \<and> jitters_ok (next_backoff backoff) rest)"

section \<open>Properties\<close>

lemma agent_dispatcher_get:
  "gm_get (agent_dispatcher impl) m = (if m \<in> set agent_methods then Some (impl m) else None)"
proof -
  have "gm_get (fold (\<lambda>m d. disp_Handle m (impl m) d) ms d) m =
      (if m \<in> set ms then Some (impl m) else gm_get d m)" for ms d
    by (induction ms arbitrary: d) (auto simp: disp_Handle_def)
  then show ?thesis by (simp add: agent_dispatcher_def NewDispatcher_def)
qed


text \<open>
  C39. Reconnecting backs off as intended and is bounded: the wait before the next attempt, whatever the
  attempts' outcomes, lies between \<open>b\<close> and \<open>3/2 b\<close> where \<open>b\<close> doubles from one second with every
  attempt up to 30 seconds. The outcome of an attempt plays no role: a connection that was up for
  days does not start over at one second.
\<close>

theorem reconnect_backoff_bounds:
  assumes "jitters_ok second attempts" and "n < length attempts"
  shows "length (reconnect_waits second attempts) = length attempts \<and>
    (let b = min (2 ^ n * second) maxBackoff; wait = reconnect_waits second attempts ! n
     in b \<le> wait \<and> 2 * wait \<le> 3 * b \<and> wait \<le> 45 * second)"
proof -
  have b: "next_backoff (min (2 ^ k * second) maxBackoff) = min (2 ^ Suc k * second) maxBackoff" for k
    by (auto simp: next_backoff_def maxBackoff_def second_def min_def Let_def)
  have len: "length (reconnect_waits b atts) = length atts" for b atts
    by (induction b atts rule: reconnect_waits.induct) auto
  have "jitters_ok (min (2 ^ k * second) maxBackoff) atts \<Longrightarrow> n < length atts \<Longrightarrow>
      (let b = min (2 ^ (k + n) * second) maxBackoff;
           wait = reconnect_waits (min (2 ^ k * second) maxBackoff) atts ! n
       in b \<le> wait \<and> 2 * wait \<le> 3 * b)" for k n atts
  proof (induction atts arbitrary: k n)
    case (Cons a atts)
    show ?case
    proof (cases n)
      case 0
      then show ?thesis using Cons.prems by (cases a) (auto simp: Let_def)
    next
      case (Suc m)
      then show ?thesis
        using Cons.IH [of "Suc k" m] Cons.prems by (cases a) (simp add: b Let_def)
    qed
  qed simp
  from this [of 0 attempts n] show ?thesis
    using assms len by (auto simp: Let_def maxBackoff_def second_def)
qed

lemma atoi_itoa: "in_i64 n \<Longrightarrow> atoi (itoa n) = Some n"
proof -
  assume n: "in_i64 n"
  have d: "list_all is_digit (dec_digits k)" for k by (auto simp: list_all_iff dec_digits_is_digit)
  then have h: "hd (dec_digits k) \<noteq> CHR ''-'' \<and> hd (dec_digits k) \<noteq> CHR ''+''" for k
    using dec_digits_is_digit [of "hd (dec_digits k)" k] by (auto simp: is_digit_def)
  show ?thesis using n d h by (auto simp: atoi_def itoa_def Let_def)
qed


subsection \<open>Witnesses\<close>


theorem reconnect_backoff_bounds_witness:
  "(let wait = reconnect_waits second [(None, 0), (Some ''lost'', 5), (None, 7)] ! 2
    in 4 * second \<le> wait \<and> 2 * wait \<le> 12 * second)"
proof -
  have "jitters_ok second [(None, 0), (Some ''lost'', 5), (None, 7)]"
    by (simp add: second_def next_backoff_def maxBackoff_def)
  from reconnect_backoff_bounds [OF this, of 2] show ?thesis
    by (simp add: Let_def second_def maxBackoff_def)
qed


end
