(* ===== verification/Payload.thy ===== *)
theory Payload
  imports Wire AgentServer
begin

text \<open>
  Parameters and results as JSON: how \<open>encoding/json\<close> writes and reads Go values, a struct field by
  field as its tags say. A codec says how values of a type are written and read; a field of a struct
  has a key, a codec and the field's getter and update. The locale \<open>json_struct\<close> is the codec of a
  struct over any list of fields, with its round trip.
\<close>

section \<open>Values\<close>

text \<open>The zero value, \<open>json.Marshal\<close>, and \<open>json.Unmarshal\<close> into a variable that holds a value.\<close>

record 'a jcodec =
  jc_zero :: 'a
  jc_enc :: "'a \<Rightarrow> json"
  jc_dec :: "json \<Rightarrow> 'a \<Rightarrow> 'a option"

definition jstring :: "string jcodec" where
  "jstring = \<lparr>jc_zero = [], jc_enc = JStr,
     jc_dec = (\<lambda>j old. case j of JStr x \<Rightarrow> Some x | JNull \<Rightarrow> Some old | _ \<Rightarrow> None)\<rparr>"

definition jbool :: "bool jcodec" where
  "jbool = \<lparr>jc_zero = False, jc_enc = JBool,
     jc_dec = (\<lambda>j old. case j of JBool x \<Rightarrow> Some x | JNull \<Rightarrow> Some old | _ \<Rightarrow> None)\<rparr>"

text \<open>\<open>int\<close> and \<open>int64\<close>: the literal must be an integer of 64 bits; fractions and exponents are refused.\<close>

definition jint :: "int jcodec" where
  "jint = \<lparr>jc_zero = 0, jc_enc = (\<lambda>x. JNum (itoa x)),
     jc_dec = (\<lambda>j old. case j of JNum n \<Rightarrow> atoi n | JNull \<Rightarrow> Some old | _ \<Rightarrow> None)\<rparr>"

text \<open>Pointers: null is nil; anything else is stored behind the pointer.\<close>

definition jptr :: "'a jcodec \<Rightarrow> 'a option jcodec" where
  "jptr c = \<lparr>jc_zero = None, jc_enc = (\<lambda>x. case x of None \<Rightarrow> JNull | Some y \<Rightarrow> jc_enc c y),
     jc_dec = (\<lambda>j old.
       if j = JNull then Some None
       else map_option Some (jc_dec c j (case old of None \<Rightarrow> jc_zero c | Some y \<Rightarrow> y)))\<rparr>"

text \<open>
  Maps of strings, written by key; reading adds to the map. Slices, read into a nil one; \<open>nils\<close> says
  whether the code leaves an empty slice nil.
\<close>

definition map_entry :: "string \<times> json \<Rightarrow> (string, string) gomap option \<Rightarrow> (string, string) gomap option" where
  "map_entry = (\<lambda>(k, j) m. case m of None \<Rightarrow> None | Some m \<Rightarrow> map_option (\<lambda>x. gm_put k x m) (jc_dec jstring j []))"

definition jmap :: "(string, string) gomap jcodec" where
  "jmap = \<lparr>jc_zero = [], jc_enc = (\<lambda>m. JObj (map (map_prod id JStr) (sort_key fst m))),
     jc_dec = (\<lambda>j old. case j of JObj fs \<Rightarrow> fold map_entry fs (Some old) | JNull \<Rightarrow> Some [] | _ \<Rightarrow> None)\<rparr>"

definition jslice :: "bool \<Rightarrow> 'a jcodec \<Rightarrow> 'a list jcodec" where
  "jslice nils c = \<lparr>jc_zero = [], jc_enc = (\<lambda>xs. if xs = [] \<and> nils then JNull else JArr (map (jc_enc c) xs)),
     jc_dec = (\<lambda>j old. case j of
       JArr js \<Rightarrow> those (map (\<lambda>j. jc_dec c j (jc_zero c)) js) | JNull \<Rightarrow> Some [] | _ \<Rightarrow> None)\<rparr>"

text \<open>\<open>time.Time\<close> in UTC, as \<open>time.RFC3339Nano\<close>: a fraction without trailing zeros, none when it is zero.\<close>

definition fmt_fraction :: "nat \<Rightarrow> string" where
  "fmt_fraction n = (if n = 0 then [] else CHR ''.'' # rev (dropWhile (\<lambda>c. c = CHR ''0'') (rev (pad 9 n))))"

definition fmt_rfc3339nano :: "utc \<Rightarrow> string" where
  "fmt_rfc3339nano t = fmt_date_time t @ fmt_fraction (u_nano t) @ ''Z''"

definition jtime :: "utc jcodec" where
  "jtime = \<lparr>jc_zero = t_wall zero_time, jc_enc = (\<lambda>t. JStr (fmt_rfc3339nano t)),
     jc_dec = (\<lambda>j old. case j of JStr x \<Rightarrow> parse_rfc3339 x | JNull \<Rightarrow> Some old | _ \<Rightarrow> None)\<rparr>"

section \<open>Structs\<close>

record 's jfield =
  jf_name :: string
  jf_get :: "'s \<Rightarrow> json option"
  jf_set :: "json \<Rightarrow> 's \<Rightarrow> 's option"

definition field :: "string \<Rightarrow> 'a jcodec \<Rightarrow> ('s \<Rightarrow> 'a) \<Rightarrow> (('a \<Rightarrow> 'a) \<Rightarrow> 's \<Rightarrow> 's) \<Rightarrow> 's jfield" where
  "field name c g u =
     \<lparr>jf_name = name, jf_get = (\<lambda>s. Some (jc_enc c (g s))),
      jf_set = (\<lambda>j s. map_option (\<lambda>x. u (\<lambda>_. x) s) (jc_dec c j (g s)))\<rparr>"

text \<open>With omitempty the zero value is not written.\<close>

definition omitted :: "string \<Rightarrow> 'a jcodec \<Rightarrow> ('s \<Rightarrow> 'a) \<Rightarrow> (('a \<Rightarrow> 'a) \<Rightarrow> 's \<Rightarrow> 's) \<Rightarrow> 's jfield" where
  "omitted name c g u =
     (field name c g u)\<lparr>jf_get := (\<lambda>s. if g s = jc_zero c then None else Some (jc_enc c (g s)))\<rparr>"

definition encode_struct :: "'s jfield list \<Rightarrow> 's \<Rightarrow> json" where
  "encode_struct fds s = JObj (List.map_filter (\<lambda>f. map_option (Pair (jf_name f)) (jf_get f s)) fds)"

definition stores :: "'s jfield list \<Rightarrow> 's fields" where
  "stores fds = map (\<lambda>f. (jf_name f, jf_set f)) fds"

definition jstruct :: "'s jfield list \<Rightarrow> 's \<Rightarrow> 's jcodec" where
  "jstruct fds zero = \<lparr>jc_zero = zero, jc_enc = encode_struct fds, jc_dec = decode_struct (stores fds)\<rparr>"

text \<open>\<open>json.Unmarshal\<close> of a raw message, nil or the text of one value; \<open>why\<close> is its error text.\<close>

definition unmarshal_raw :: "string \<Rightarrow> 's jfield list \<Rightarrow> 's \<Rightarrow> raw \<Rightarrow> string + 's" where
  "unmarshal_raw why fds zero raw =
     (case raw of
        None \<Rightarrow> Inl ''unexpected end of JSON input''
      | Some j \<Rightarrow> (case decode_struct (stores fds) j zero of None \<Rightarrow> Inl why | Some s \<Rightarrow> Inr s))"

text \<open>A \<open>Decoder\<close> after \<open>DisallowUnknownFields\<close>.\<close>

definition known_keys :: "'s jfield list \<Rightarrow> json \<Rightarrow> bool" where
  "known_keys fds j \<longleftrightarrow>
     (case j of
        JObj fs \<Rightarrow> list_all (\<lambda>(k, v). list_ex (\<lambda>f. fold_key k = fold_key (jf_name f)) fds) fs
      | _ \<Rightarrow> True)"

definition decode_strictly :: "string \<Rightarrow> 's jfield list \<Rightarrow> 's \<Rightarrow> raw \<Rightarrow> string + 's" where
  "decode_strictly why fds zero raw =
     (case raw of
        None \<Rightarrow> Inl why
      | Some j \<Rightarrow> if known_keys fds j then unmarshal_raw why fds zero raw else Inl why)"

section \<open>What a codec carries\<close>

text \<open>
  Values in \<open>P\<close> are written as valid JSON at most \<open>d\<close> deep, and what the other end reads into a fresh
  variable, after invalid bytes were replaced on the way, is \<open>received\<close>.
\<close>

definition carries :: "nat \<Rightarrow> 'a jcodec \<Rightarrow> ('a \<Rightarrow> bool) \<Rightarrow> ('a \<Rightarrow> 'a) \<Rightarrow> bool" where
  "carries d c P received \<longleftrightarrow>
     (\<forall>x. P x \<longrightarrow> numbers_ok (jc_enc c x) \<and> json_depth (jc_enc c x) \<le> d \<and>
        jc_dec c (json_clean (jc_enc c x)) (jc_zero c) = Some (received x))"

lemma carries_string: "carries 0 jstring (\<lambda>_. True) clean"
  by (simp add: carries_def jstring_def)

lemma carries_bool: "carries 0 jbool (\<lambda>_. True) id"
  by (simp add: carries_def jbool_def)

lemma takeWhile_digits: "list_all is_digit s \<Longrightarrow> takeWhile is_digit s = s \<and> dropWhile is_digit s = []"
  by (auto simp: list_all_iff takeWhile_eq_all_conv)

lemma no_leading_zero: "hd (dec_digits n) = CHR ''0'' \<Longrightarrow> length (dec_digits n) = 1"
proof (induction n rule: dec_digits.induct)
  case (1 n)
  show ?case
  proof (cases "n < 10")
    case True
    then show ?thesis by (simp add: dec_digits.simps [of n])
  next
    case False
    then have "hd (dec_digits n) = hd (dec_digits (n div 10))"
      by (simp add: dec_digits.simps [of n] hd_append)
    then have l: "length (dec_digits (n div 10)) = 1" "hd (dec_digits (n div 10)) = CHR ''0''"
      using 1 False by auto
    then have "dec_digits (n div 10) = ''0''" by (cases "dec_digits (n div 10)") auto
    then have "dec_val (dec_digits (n div 10)) = 0" by (simp add: dec_val_def digit_val_def)
    then have "n div 10 = 0" by simp
    then show ?thesis using False by simp
  qed
qed

lemma itoa_number: "valid_number (itoa n) \<and> list_all number_char (itoa n)"
proof -
  have d: "list_all is_digit (dec_digits k)" for k by (auto simp: list_all_iff dec_digits_is_digit)
  then have h: "hd (dec_digits k) \<noteq> CHR ''-''" for k
    using dec_digits_is_digit [of "hd (dec_digits k)" k] by (auto simp: is_digit_def)
  have v: "takeWhile is_digit (dec_digits k) = dec_digits k" "dropWhile is_digit (dec_digits k) = []" for k
    using takeWhile_digits [OF d] by auto
  have c: "list_all number_char (dec_digits k)" for k
    using d [of k] by (simp add: list_all_iff number_char_def)
  have n: "valid_number (dec_digits k) \<and> valid_number (CHR ''-'' # dec_digits k)" for k
    using no_leading_zero [of k] by (simp add: valid_number_def v h valid_exponent_def Let_def d [unfolded list_all_iff])
  show ?thesis by (simp add: itoa_def n c) (simp add: number_char_def)
qed

lemma carries_int: "carries 0 jint in_i64 id"
  by (simp add: carries_def jint_def itoa_number atoi_itoa)

lemma carries_ptr:
  assumes "carries d c P received" and "\<And>x. jc_enc c x \<noteq> JNull"
  shows "carries d (jptr c) (pred_option P) (map_option received)"
proof -
  have "json_clean j = JNull \<longleftrightarrow> j = JNull" for j by (cases j) auto
  then show ?thesis using assms by (auto simp: carries_def jptr_def split: option.split)
qed

text \<open>What a map arrives as: cleaned entries, a later one replacing an earlier one of the same key.\<close>

definition received_map :: "(string, string) gomap \<Rightarrow> (string, string) gomap" where
  "received_map m = fold (\<lambda>(k, v). gm_put (clean k) (clean v)) (sort_key fst m) []"

lemma foldr_max_0: "(\<And>x. x \<in> set xs \<Longrightarrow> x = 0) \<Longrightarrow> foldr max xs 0 = (0 :: nat)"
  by (induction xs) auto

lemma carries_map: "carries 1 jmap (\<lambda>_. True) received_map"
proof -
  have "fold map_entry (map (\<lambda>(k, v). (clean k, v)) (map (map_prod id (json_clean \<circ> JStr)) m)) (Some old) =
      Some (fold (\<lambda>(k, v). gm_put (clean k) (clean v)) m old)" for m old
    by (induction m arbitrary: old) (auto simp: map_entry_def jstring_def)
  then show ?thesis
    by (auto simp: carries_def jmap_def received_map_def comp_def map_prod_def case_prod_beta list_all_iff intro!: foldr_max_0)
qed

lemma received_map_get:
  assumes "gm_ok m" and "\<And>k v. (k, v) \<in> set m \<Longrightarrow> valid_utf8 k \<and> valid_utf8 v"
  shows "gm_ok (received_map m) \<and> (\<forall>k. gm_get (received_map m) k = gm_get m k)"
proof -
  have "fold (\<lambda>(k, v). gm_put (clean k) (clean v)) xs acc = fold (\<lambda>(k, v). gm_put k v) xs acc"
    if "set xs \<subseteq> set m" for xs acc
    using that by (induction xs arbitrary: acc) (auto simp: assms(2) clean_valid)
  then have r: "received_map m = fold (\<lambda>(k, v). gm_put k v) (sort_key fst m) []"
    by (simp add: received_map_def)
  have ok: "gm_ok (fold (\<lambda>(k, v). gm_put k v) xs acc)" if "gm_ok acc" for xs acc :: "(string, string) gomap"
    using that by (induction xs arbitrary: acc) auto
  have get: "gm_get (fold (\<lambda>(k, v). gm_put k v) xs acc) k = (case map_of xs k of Some v \<Rightarrow> Some v | None \<Rightarrow> gm_get acc k)"
    if "distinct (map fst xs)" for xs acc k
    using that
  proof (induction xs arbitrary: acc)
    case (Cons x xs)
    then have "map_of xs (fst x) = None" by (simp add: map_of_eq_None_iff)
    then show ?case using Cons by (simp add: case_prod_beta split: option.split)
  qed simp
  have "distinct (map fst (sort_key fst m))" "map_of (sort_key fst m) = map_of m"
    using assms(1) by (auto simp: gm_ok_def distinct_map inj_on_def intro!: map_of_inject_set [THEN iffD2])
  then show ?thesis unfolding r by (simp add: ok get split: option.split)
qed

lemma carries_slice:
  assumes "carries d c P received"
  shows "carries (Suc d) (jslice nils c) (list_all P) (map received)"
proof -
  have "those (map (\<lambda>x. jc_dec c (json_clean (jc_enc c x)) (jc_zero c)) xs) = Some (map received xs) \<and>
      list_all id (map (numbers_ok \<circ> jc_enc c) xs) \<and> foldr max (map (json_depth \<circ> jc_enc c) xs) 0 \<le> d"
    if "list_all P xs" for xs
    using that assms by (induction xs) (auto simp: carries_def)
  then show ?thesis by (auto simp: carries_def jslice_def comp_def)
qed

subsection \<open>Times\<close>

definition ascii :: "string \<Rightarrow> bool" where
  "ascii s \<longleftrightarrow> list_all (in_range 0 0x7F) s"

lemma clean_ascii: "ascii s \<Longrightarrow> clean s = s"
  by (simp add: ascii_def clean_valid valid_ascii)

lemma ascii_simps [simp]:
  "ascii []" "ascii (c # s) \<longleftrightarrow> in_range 0 0x7F c \<and> ascii s" "ascii (s @ t) \<longleftrightarrow> ascii s \<and> ascii t"
  "ascii (dec_digits n)" "ascii (pad w n)"
proof -
  have "list_all (in_range 0 0x7F) (dec_digits n)" for n
    using dec_digits_is_digit [of _ n] by (fastforce simp: list_all_iff in_range_def is_digit_def)
  then show "ascii (dec_digits n)" "ascii (pad w n)" by (auto simp: ascii_def pad_def list_all_iff in_range_def)
qed (simp_all add: ascii_def)

lemma ascii_fmt: "ascii (fmt_rfc3339nano t)"
proof -
  have "ascii s \<Longrightarrow> ascii (rev (dropWhile P (rev s)))" for P s
    by (auto simp: ascii_def list_all_iff dest: set_dropWhileD)
  then show ?thesis
    by (simp add: fmt_rfc3339nano_def fmt_date_time_def append_int_def fmt_fraction_def in_range_def)
qed

lemma dec_val_zeros: "dec_val (s @ replicate z CHR ''0'') = dec_val s * 10 ^ z"
  by (induction z arbitrary: s)
    (simp_all add: dec_val_def digit_val_def replicate_append_same [symmetric] flip: append_assoc)

lemma leading_zeros: "\<exists>z. s = replicate z CHR ''0'' @ dropWhile (\<lambda>c. c = CHR ''0'') s"
proof (induction s)
  case (Cons c s)
  then obtain z where z: "s = replicate z CHR ''0'' @ dropWhile (\<lambda>c. c = CHR ''0'') s" by blast
  show ?case
  proof (cases "c = CHR ''0''")
    case True
    then have "c # s = replicate (Suc z) CHR ''0'' @ dropWhile (\<lambda>c. c = CHR ''0'') (c # s)" using z by simp
    then show ?thesis by (rule exI)
  qed (auto intro: exI [of _ 0])
qed simp

lemma trailing_zeros: "\<exists>z. s = rev (dropWhile (\<lambda>c. c = CHR ''0'') (rev s)) @ replicate z CHR ''0''"
  using leading_zeros [of "rev s"] by (metis rev_append rev_replicate rev_rev_ident)

lemma take_fraction_fmt:
  assumes n: "n < 10 ^ 9"
  shows "take_fraction (fmt_fraction n @ ''Z'') = (n, ''Z'')"
proof (cases "n = 0")
  case False
  obtain ds z where ds: "rev (dropWhile (\<lambda>c. c = CHR ''0'') (rev (padr 9 n))) = ds" and split: "padr 9 n = ds @ replicate z CHR ''0''"
    using trailing_zeros by blast
  have val: "n = dec_val ds * 10 ^ z" using arg_cong [OF split, of dec_val] by (simp only: dec_val_padr [OF n] dec_val_zeros)
  have "length (padr 9 n) = length ds + z" unfolding split by simp
  then have len: "take 9 ds = ds" "9 - length ds = z" by simp_all
  have dig: "c \<in> set ds \<Longrightarrow> is_digit c" for c using padr_digits [of c 9 n] by (simp add: split)
  have "ds \<noteq> []" using val False by (auto simp: dec_val_def)
  then obtain d es where d: "ds = d # es" "is_digit d" using dig by (cases ds) auto
  have "takeWhile is_digit (ds @ ''Z'') = ds" "dropWhile is_digit (ds @ ''Z'') = ''Z''"
    using dig takeWhile_append2 [of ds is_digit "''Z''"] dropWhile_append2 [of ds is_digit "''Z''"]
    by (simp_all add: is_digit_def)
  then have "take_fraction (CHR ''.'' # ds @ ''Z'') = (dec_val (take 9 ds) * 10 ^ (9 - length (take 9 ds)), ''Z'')"
    using d by (simp add: take_fraction_def Let_def)
  then have "take_fraction (CHR ''.'' # ds @ ''Z'') = (n, ''Z'')" unfolding len val [symmetric] .
  then show ?thesis using False by (simp add: fmt_fraction_def pad_eq_padr [OF n] ds)
qed (simp add: fmt_fraction_def take_fraction_def)

lemma parse_rfc3339nano: "recordable t \<Longrightarrow> parse_rfc3339 (fmt_rfc3339nano t) = Some t"
proof -
  assume "recordable t"
  then have t: "valid_utc t" "four_digit_year t" by (simp_all add: recordable_def)
  show ?thesis
    using t valid_bounds [OF t(1)] year_bound [OF t(2)] take_fraction_fmt [of "u_nano t"]
    by (simp add: fmt_rfc3339nano_def fmt_date_time_def append_int_def pad_eq_padr parse_rfc3339_def four_digit_year_def
        Let_def valid_utc_def del: power_numeral)
qed

lemma carries_time: "carries 0 jtime recordable id"
  by (simp add: carries_def jtime_def clean_ascii ascii_fmt parse_rfc3339nano)

section \<open>The codec of a struct\<close>

text \<open>Storing in a variable what another one is written as, field by field.\<close>

fun store_all :: "'s jfield list \<Rightarrow> 's \<Rightarrow> 's \<Rightarrow> 's option" where
  "store_all [] s t = Some t"
| "store_all (f # fs) s t =
     (case jf_get f s of
        None \<Rightarrow> store_all fs s t
      | Some j \<Rightarrow> (case jf_set f (json_clean j) t of None \<Rightarrow> None | Some t \<Rightarrow> store_all fs s t))"

definition sized :: "nat \<Rightarrow> 's \<Rightarrow> 's jfield \<Rightarrow> bool" where
  "sized d s f \<longleftrightarrow> (case jf_get f s of None \<Rightarrow> True | Some j \<Rightarrow> numbers_ok j \<and> json_depth j \<le> d)"

definition good_names :: "string list \<Rightarrow> bool" where
  "good_names ns \<longleftrightarrow> list_all ascii ns \<and> distinct (map fold_key ns)"

lemma good_names_ascii: "good_names ns \<longleftrightarrow> list_all ascii ns \<and> distinct (map (map ascii_upper) ns)"
proof -
  have "list_all ascii ns \<Longrightarrow> map fold_key ns = map (map ascii_upper) ns"
    by (auto simp: list_all_iff ascii_def fold_ascii)
  then show ?thesis unfolding good_names_def by (auto simp del: map_eq_conv)
qed

lemmas checked_names = good_names_ascii in_range_def ascii_upper_def

locale json_struct =
  fixes fds :: "'s jfield list" and zero :: 's and fits :: "'s \<Rightarrow> bool" and received :: "'s \<Rightarrow> 's" and d :: nat
  assumes names: "good_names (map jf_name fds)"
    and sizes: "fits s \<Longrightarrow> list_all (sized d s) fds"
    and stored: "fits s \<Longrightarrow> store_all fds s zero = Some (received s)"
begin

lemma find_field:
  assumes "f \<in> set fds"
  shows "find (\<lambda>(name, store). fold_key (jf_name f) = fold_key name) (stores fds) = Some (jf_name f, jf_set f)"
proof -
  have "find (\<lambda>(name, store). fold_key (jf_name f) = fold_key name) (map (\<lambda>f. (jf_name f, jf_set f)) gs) = Some (jf_name f, jf_set f)"
    if "f \<in> set gs" "distinct (map (\<lambda>f. fold_key (jf_name f)) gs)" for gs
    using that
  proof (induction gs)
    case (Cons g gs)
    show ?case
    proof (cases "f \<in> set gs")
      case True
      then have "fold_key (jf_name f) \<in> set (map (\<lambda>f. fold_key (jf_name f)) gs)" by simp
      then have "fold_key (jf_name f) \<noteq> fold_key (jf_name g)" using Cons.prems(2) by (simp only: list.map distinct.simps) metis
      then show ?thesis using Cons.IH [OF True] Cons.prems(2) by simp
    next
      case False
      then show ?thesis using Cons.prems(1) by simp
    qed
  qed simp
  then show ?thesis using assms names by (simp add: good_names_def stores_def comp_def)
qed

lemma clean_name: "f \<in> set fds \<Longrightarrow> clean (jf_name f) = jf_name f"
  using names by (simp add: good_names_def list_all_iff clean_ascii)

lemma read_back:
  "set gs \<subseteq> set fds \<Longrightarrow> store_all gs s t = Some t' \<Longrightarrow>
   fold (set_field (stores fds)) (map (\<lambda>(k, v). (clean k, json_clean v))
     (List.map_filter (\<lambda>f. map_option (Pair (jf_name f)) (jf_get f s)) gs)) (t, True) = (t', True)"
proof (induction gs arbitrary: t)
  case (Cons f gs)
  show ?case
  proof (cases "jf_get f s")
    case None
    then show ?thesis using Cons by (simp add: List.map_filter_simps)
  next
    case (Some j)
    then obtain t1 where t1: "jf_set f (json_clean j) t = Some t1" "store_all gs s t1 = Some t'"
      using Cons.prems(2) by (auto split: option.splits)
    have f: "f \<in> set fds" using Cons.prems(1) by simp
    have "set_field (stores fds) (clean (jf_name f), json_clean j) (t, True) = (t1, True)"
      by (simp add: set_field_def clean_name [OF f] find_field [OF f] t1(1))
    then show ?thesis using Cons.IH [OF _ t1(2)] Cons.prems(1) by (simp add: List.map_filter_simps Some)
  qed
qed (simp add: List.map_filter_simps)

lemma clean_struct: "json_clean (encode_struct fds s) =
    JObj (map (\<lambda>(k, v). (clean k, json_clean v)) (List.map_filter (\<lambda>f. map_option (Pair (jf_name f)) (jf_get f s)) fds))"
  by (simp add: encode_struct_def comp_def case_prod_beta)

lemma roundtrip: "fits s \<Longrightarrow> decode_struct (stores fds) (json_clean (encode_struct fds s)) zero = Some (received s)"
  using read_back [OF subset_refl stored] by (simp add: clean_struct decode_struct_def)

lemma known: "known_keys fds (json_clean (encode_struct fds s))"
  by (fastforce simp: clean_struct known_keys_def list_all_iff list_ex_iff List.map_filter_def clean_name)

lemma received_raw: "fits s \<Longrightarrow> unmarshal_raw why fds zero (Some (json_clean (encode_struct fds s))) = Inr (received s)"
  by (simp add: unmarshal_raw_def roundtrip)

lemma received_strictly:
  "fits s \<Longrightarrow> decode_strictly why fds zero (Some (json_clean (encode_struct fds s))) = Inr (received s)"
  by (simp add: decode_strictly_def known received_raw)

lemma size: "fits s \<Longrightarrow> numbers_ok (encode_struct fds s) \<and> json_depth (encode_struct fds s) \<le> Suc d"
proof -
  assume "fits s"
  then have "list_all (sized d s) fds" by (rule sizes)
  then have "list_all snd (map (map_prod id numbers_ok) (List.map_filter (\<lambda>f. map_option (Pair (jf_name f)) (jf_get f s)) gs)) \<and>
      foldr max (map snd (map (map_prod id json_depth) (List.map_filter (\<lambda>f. map_option (Pair (jf_name f)) (jf_get f s)) gs))) 0 \<le> d"
    if "set gs \<subseteq> set fds" for gs
    using that by (induction gs) (auto simp: List.map_filter_simps sized_def list_all_iff split: option.split)
  then show ?thesis by (simp add: encode_struct_def)
qed

lemma carried: "carries (Suc d) (jstruct fds zero) fits received"
  using size roundtrip by (simp add: carries_def jstruct_def)

lemma fits_message: "fits s \<Longrightarrow> Suc d < maxNestingDepth \<Longrightarrow> embeddable (encode_struct fds s)"
  using size [of s] by (simp add: embeddable_def)

end

text \<open>What each kind of field stores and how deep it is.\<close>

lemma zero_simps [simp]:
  "jc_zero jstring = []" "jc_zero jbool = False" "jc_zero jint = 0" "jc_zero (jptr c) = None" "jc_zero jmap = []" "jc_zero jtime = t_wall zero_time"
  "jc_zero (jslice nils c) = []" "jc_zero (jstruct fds zero) = zero"
  by (simp_all add: jstring_def jbool_def jint_def jptr_def jmap_def jslice_def jstruct_def jtime_def)

lemma store_field:
  assumes "carries d c P received"
  shows "P (g s) \<Longrightarrow> g t = jc_zero c \<Longrightarrow>
    store_all (field name c g u # fs) s t = store_all fs s (u (\<lambda>_. received (g s)) t)"
  using assms by (simp add: field_def carries_def)

lemma store_omitted:
  assumes "carries d c P received" "received (jc_zero c) = jc_zero c"
  shows "P (g s) \<Longrightarrow> g t = jc_zero c \<Longrightarrow> u (\<lambda>_. jc_zero c) t = t \<Longrightarrow>
    store_all (omitted name c g u # fs) s t = store_all fs s (u (\<lambda>_. received (g s)) t)"
  using assms by (auto simp: omitted_def field_def carries_def)

lemma sized_field:
  assumes "carries d c P received"
  shows "d \<le> d' \<Longrightarrow> P (g s) \<Longrightarrow> sized d' s (field name c g u) \<and> sized d' s (omitted name c g u)"
  using assms by (auto simp: sized_def field_def omitted_def carries_def intro: le_trans)

lemma clean_Nil [simp]: "clean [] = []"
  by (simp add: clean_def)

lemma received_map_Nil [simp]: "received_map [] = []"
  by (simp add: received_map_def)

lemma name_simps [simp]: "jf_name (field name c g u) = name" "jf_name (omitted name c g u) = name"
  by (simp_all add: field_def omitted_def)

lemma carries_int_ptr: "carries 0 (jptr jint) (pred_option in_i64) id"
  using carries_ptr [OF carries_int] by (simp add: jint_def option.map_id0)

lemma carries_time_ptr: "carries 0 (jptr jtime) (pred_option recordable) id"
  using carries_ptr [OF carries_time] by (simp add: jtime_def option.map_id0)

declare store_all.simps(2) [simp del]

lemmas stored_fields =
  store_field [OF carries_string, simplified] store_omitted [OF carries_string, simplified]
  store_field [OF carries_bool, simplified] store_omitted [OF carries_bool, simplified]
  store_field [OF carries_int, simplified] store_omitted [OF carries_int, simplified]
  store_field [OF carries_int_ptr, simplified] store_omitted [OF carries_int_ptr, simplified]
  store_field [OF carries_time] store_field [OF carries_time_ptr, simplified] store_omitted [OF carries_map, simplified]

lemmas sized_fields =
  sized_field [OF carries_string, simplified] sized_field [OF carries_bool, simplified] sized_field [OF carries_int, simplified]
  sized_field [OF carries_int_ptr, simplified] sized_field [OF carries_time, simplified]
  sized_field [OF carries_time_ptr, simplified] sized_field [OF carries_map, simplified]

end
