(* ===== verification/ReadQuery.thy ===== *)
theory ReadQuery
  imports Paths Clock Proto Backend
begin

text \<open>
  The fixed inspection queries of read.query (agent/read_query.go): the validation of the caller's
  selectors, the command line each operation builds, the bounded capture of its output, the
  result of a run, and the GitHub requests. What the operating system and the libraries answer
  (the working directory, whether a path is a directory, the parsers of package time, the
  outcome of a run, HTTP, and JSON, for which see theory GitHub) is a parameter.
\<close>

section \<open>Constants and patterns\<close>

definition readQueryDefaultLines :: int where "readQueryDefaultLines = 100"
definition readQueryMaxLines :: int where "readQueryMaxLines = 500"
definition readQueryMaxPathLength :: nat where "readQueryMaxPathLength = 4096"

definition readQueryGitStatus :: string where "readQueryGitStatus = ''git_status''"
definition readQueryGitDiff :: string where "readQueryGitDiff = ''git_diff''"
definition readQueryGitLog :: string where "readQueryGitLog = ''git_log''"
definition readQueryDockerPS :: string where "readQueryDockerPS = ''docker_ps''"
definition readQueryDockerInspect :: string where "readQueryDockerInspect = ''docker_inspect''"
definition readQueryDockerLogs :: string where "readQueryDockerLogs = ''docker_logs''"
definition readQuerySystemdStatus :: string where "readQuerySystemdStatus = ''systemd_status''"
definition readQuerySystemdUnits :: string where "readQuerySystemdUnits = ''systemd_units''"
definition readQueryJournal :: string where "readQueryJournal = ''journal_query''"
definition readQueryTmuxSessions :: string where "readQueryTmuxSessions = ''tmux_sessions''"
definition readQueryTmuxPanes :: string where "readQueryTmuxPanes = ''tmux_panes''"
definition readQueryTmuxCapture :: string where "readQueryTmuxCapture = ''tmux_capture''"
definition readQueryGitHubRepo :: string where "readQueryGitHubRepo = ''github_repo''"
definition readQueryGitHubIssue :: string where "readQueryGitHubIssue = ''github_issue''"
definition readQueryGitHubPull :: string where "readQueryGitHubPull = ''github_pull_request''"

definition is_alpha :: "char \<Rightarrow> bool" where
  "is_alpha c \<longleftrightarrow> (65 \<le> (of_char c :: nat) \<and> (of_char c :: nat) \<le> 90) \<or>
     (97 \<le> (of_char c :: nat) \<and> (of_char c :: nat) \<le> 122)"

definition is_alnum :: "char \<Rightarrow> bool" where
  "is_alnum c \<longleftrightarrow> is_alpha c \<or> is_digit c"

text \<open>The shape \<open>^F R{lo,hi}$\<close> of most of the patterns: one character of a class, then others.\<close>

definition class_match :: "(char \<Rightarrow> bool) \<Rightarrow> (char \<Rightarrow> bool) \<Rightarrow> nat \<Rightarrow> string \<Rightarrow> bool" where
  "class_match first others hi s =
     (case s of [] \<Rightarrow> False | c # cs \<Rightarrow> first c \<and> length cs \<le> hi \<and> (\<forall>x \<in> set cs. others x))"

definition readQueryUnitPattern :: "string \<Rightarrow> bool" where
  "readQueryUnitPattern =
     class_match (\<lambda>c. is_alnum c \<or> c = CHR ''_'') (\<lambda>c. is_alnum c \<or> c \<in> set ''_.:@-'') 254"

definition readQueryContainerPattern :: "string \<Rightarrow> bool" where
  "readQueryContainerPattern = class_match is_alnum (\<lambda>c. is_alnum c \<or> c \<in> set ''_.-'') 127"

definition readQuerySessionPattern :: "string \<Rightarrow> bool" where
  "readQuerySessionPattern =
     class_match (\<lambda>c. is_alnum c \<or> c = CHR ''_'') (\<lambda>c. is_alnum c \<or> c \<in> set ''_.-'') 127"

definition readQueryPanePattern :: "string \<Rightarrow> bool" where
  "readQueryPanePattern s = (class_match (\<lambda>c. c = CHR ''%'') is_digit 20 s \<and> 2 \<le> length s)"

definition readQueryOwnerPattern :: "string \<Rightarrow> bool" where
  "readQueryOwnerPattern s =
     (case s of
        [] \<Rightarrow> False
      | c # cs \<Rightarrow> is_alnum c \<and>
          (cs = [] \<or> length cs \<le> 38 \<and> is_alnum (last cs) \<and>
             (\<forall>x \<in> set (butlast cs). is_alnum x \<or> x = CHR ''-'')))"

definition readQueryRepoPattern :: "string \<Rightarrow> bool" where
  "readQueryRepoPattern s =
     (1 \<le> length s \<and> length s \<le> 100 \<and> (\<forall>x \<in> set s. is_alnum x \<or> x \<in> set ''_.-''))"

section \<open>Parameters, results, environment\<close>

record read_query_params =
  rqp_Operation :: string
  rqp_RepositoryPath :: string
  rqp_Pathspec :: string
  rqp_Staged :: bool
  rqp_Limit :: int
  rqp_IncludeAll :: bool
  rqp_Container :: string
  rqp_Tail :: int
  rqp_Since :: string
  rqp_Unit :: string
  rqp_Session :: string
  rqp_PaneID :: string
  rqp_Lines :: int
  rqp_Owner :: string
  rqp_Repository :: string
  rqp_Number :: int

record read_query_result =
  rqr_Stdout :: bytes
  rqr_Stderr :: bytes
  rqr_ExitCode :: "int option"
  rqr_TimedOut :: bool
  rqr_StdoutTruncated :: bool
  rqr_StderrTruncated :: bool

record read_query_command =
  rqc_name :: string
  rqc_args :: "string list"
  rqc_dir :: string

text \<open>
  \<open>qe_is_dir\<close> is \<open>os.Stat\<close> succeeding on a directory; \<open>qe_parse_time\<close> is \<open>time.Parse(RFC3339, _)\<close>
  in UTC; the clock is read twice for a timestamp and once for the default.
\<close>

record query_env =
  qe_wd :: "string + string"
  qe_is_dir :: "string \<Rightarrow> bool"
  qe_parse_duration :: "string \<Rightarrow> int option"
  qe_parse_time :: "string \<Rightarrow> utc option"
  qe_now1 :: utc
  qe_now2 :: utc
  qe_hour_ago :: utc

section \<open>Validation\<close>

definition invalidReadQuery :: "string \<Rightarrow> rpc_error" where
  "invalidReadQuery message = RPCErr ErrInvalidRequest message"

definition boundedInteger :: "int \<Rightarrow> int \<Rightarrow> int \<Rightarrow> int option" where
  "boundedInteger v defaultValue maxValue =
     (if v = 0 then Some defaultValue else if v < 1 \<or> v > maxValue then None else Some v)"

text \<open>\<open>Duration.String\<close> of a positive duration in nanoseconds.\<close>

definition frac_text :: "nat \<Rightarrow> nat \<Rightarrow> string" where
  "frac_text prec v =
     (let f = v mod 10 ^ prec
      in if f = 0 then [] else ''.'' @ rev (dropWhile (\<lambda>c. c = CHR ''0'') (rev (pad prec f))))"

definition micro_sign :: string where
  "micro_sign = [CHR 0xC2, CHR 0xB5]"

definition duration_String :: "int \<Rightarrow> string" where
  "duration_String d =
     (let u = nat d in
      if u = 0 then ''0s''
      else if u < 1000 then dec_digits u @ ''ns''
      else if u < 1000000 then dec_digits (u div 1000) @ frac_text 3 u @ micro_sign @ ''s''
      else if u < 1000000000 then dec_digits (u div 1000000) @ frac_text 6 u @ ''ms''
      else (let secs = u div 1000000000; mins = secs div 60; hours = mins div 60;
                s = dec_digits (secs mod 60) @ frac_text 9 u @ ''s''
            in if mins = 0 then s
               else if hours = 0 then dec_digits (mins mod 60) @ ''m'' @ s
               else dec_digits hours @ ''h'' @ dec_digits (mins mod 60) @ ''m'' @ s))"

definition boundedDuration :: "query_env \<Rightarrow> string \<Rightarrow> int \<Rightarrow> int \<Rightarrow> string option" where
  "boundedDuration env v defaultValue maxValue =
     (if v = [] then Some (duration_String defaultValue)
      else (case qe_parse_duration env v of
              None \<Rightarrow> None
            | Some d \<Rightarrow> if d \<le> 0 \<or> d > maxValue then None else Some (duration_String d)))"

text \<open>Nanoseconds of a calendar time on one axis, for differences.\<close>

definition utc_days :: "utc \<Rightarrow> int" where
  "utc_days t =
     (let y = u_year t - 1 in
      365 * y + y div 4 - y div 100 + y div 400 +
      int (sum_list (map (days_in (u_year t)) [1 ..< u_month t])) + int (u_day t))"

definition utc_ns :: "utc \<Rightarrow> int" where
  "utc_ns t =
     (((utc_days t * 24 + int (u_hour t)) * 60 + int (u_minute t)) * 60 + int (u_second t)) * 10 ^ 9 +
     int (u_nano t)"

definition month_ns :: int where "month_ns = 30 * 24 * 3600 * 10 ^ 9"
definition hour_ns :: int where "hour_ns = 3600 * 10 ^ 9"
definition week_ns :: int where "week_ns = 7 * 24 * 3600 * 10 ^ 9"

definition boundedJournalSince :: "query_env \<Rightarrow> string \<Rightarrow> string option" where
  "boundedJournalSince env v =
     (if v = [] then Some (fmt_rfc3339 (qe_hour_ago env))
      else (case qe_parse_time env v of
              None \<Rightarrow> None
            | Some t \<Rightarrow>
                if utc_before (qe_now1 env) t \<or> utc_ns (qe_now2 env) - utc_ns t > month_ns then None
                else Some (fmt_rfc3339 t)))"

definition validateReadQueryDirectory :: "query_env \<Rightarrow> string \<Rightarrow> string option" where
  "validateReadQueryDirectory env path =
     (if path = [] \<or> length path > readQueryMaxPathLength \<or> contains_nul path then None
      else (case path_Abs (qe_wd env) (path_Clean path) of
              Inl err \<Rightarrow> None
            | Inr p \<Rightarrow> if qe_is_dir env p then Some p else None))"

definition validatePathspec :: "string \<Rightarrow> bool" where
  "validatePathspec pathspec \<longleftrightarrow> \<not> (length pathspec > readQueryMaxPathLength \<or> contains_nul pathspec)"

section \<open>The commands\<close>

text \<open>The two characters backslash and t, as the formats have them.\<close>

definition bt :: string where "bt = [CHR 0x5C, CHR ''t'']"

definition docker_ps_format :: string where
  "docker_ps_format = ''{{.ID}}'' @ bt @ ''{{.Names}}'' @ bt @ ''{{.Image}}'' @ bt @ ''{{.Status}}'' @ bt @ ''{{.Ports}}''"

definition docker_inspect_format :: string where
  "docker_inspect_format = ''{{.Id}}'' @ bt @ ''{{.Name}}'' @ bt @ ''{{.Config.Image}}'' @ bt @ ''{{.State.Status}}'' @ bt @
     ''{{.State.Running}}'' @ bt @ ''{{.State.StartedAt}}''"

definition sessions_format :: string where
  "sessions_format = ''#{session_id}'' @ bt @ ''#{session_name}'' @ bt @ ''#{session_windows}'' @ bt @ ''#{session_attached}''"

definition panes_format :: string where
  "panes_format = ''#{pane_id}'' @ bt @ ''#{window_name}'' @ bt @ ''#{pane_current_command}'' @ bt @ ''#{pane_current_path}''"

definition git_prefix :: "string \<Rightarrow> string list" where
  "git_prefix repo = [''--no-optional-locks'', ''-C'', repo, ''-c'', ''core.fsmonitor=false'', ''--no-pager'']"

definition optional_arg :: "string \<Rightarrow> string list" where
  "optional_arg s = (if s \<noteq> [] then [s] else [])"

definition simple_command :: "string \<Rightarrow> string list \<Rightarrow> read_query_command" where
  "simple_command name args = \<lparr>rqc_name = name, rqc_args = args, rqc_dir = []\<rparr>"

definition build_git :: "read_query_params \<Rightarrow> string \<Rightarrow> rpc_error + read_query_command" where
  "build_git p repo =
     (let git = (\<lambda>args. Inr \<lparr>rqc_name = ''git'', rqc_args = git_prefix repo @ args, rqc_dir = repo\<rparr>) in
      if rqp_Operation p = readQueryGitStatus then
        (if rqp_Pathspec p \<noteq> [] \<or> rqp_Staged p
         then Inl (invalidReadQuery ''git_status does not accept pathspec or staged'')
         else git [''status'', ''--short'', ''--branch'', ''--untracked-files=normal''])
      else if rqp_Operation p = readQueryGitDiff then
        (if \<not> validatePathspec (rqp_Pathspec p) then Inl (invalidReadQuery ''pathspec is invalid'')
         else git ([''diff'', ''--no-ext-diff'', ''--no-textconv''] @
                   (if rqp_Staged p then [''--cached''] else []) @ [''--''] @ optional_arg (rqp_Pathspec p)))
      else
        (case boundedInteger (rqp_Limit p) 20 200 of
           None \<Rightarrow> Inl (invalidReadQuery ''limit must be between 1 and 200'')
         | Some limit \<Rightarrow>
             if \<not> validatePathspec (rqp_Pathspec p) then Inl (invalidReadQuery ''pathspec is invalid'')
             else git ([''log'', ''--no-color'', ''--no-decorate'', ''--no-show-signature'',
                        ''--format=%h%x09%ad%x09%s'', ''--date=short'', ''-n'', itoa limit, ''--''] @
                       optional_arg (rqp_Pathspec p))))"

definition buildReadQueryCommand :: "query_env \<Rightarrow> read_query_params \<Rightarrow> rpc_error + read_query_command" where
  "buildReadQueryCommand env p =
     (let oper = rqp_Operation p in
      if oper \<in> {readQueryGitStatus, readQueryGitDiff, readQueryGitLog} then
        (case validateReadQueryDirectory env (rqp_RepositoryPath p) of
           None \<Rightarrow> Inl (invalidReadQuery ''repository_path must be an existing directory'')
         | Some repo \<Rightarrow> build_git p repo)
      else if oper = readQueryDockerPS then
        (case boundedInteger (rqp_Limit p) readQueryDefaultLines readQueryMaxLines of
           None \<Rightarrow> Inl (invalidReadQuery ''limit must be between 1 and 500'')
         | Some limit \<Rightarrow> Inr (simple_command ''docker''
             ([''ps'', ''--last'', itoa limit, ''--format'', docker_ps_format] @
              (if rqp_IncludeAll p then [''--all''] else []))))
      else if oper = readQueryDockerInspect then
        (if \<not> readQueryContainerPattern (rqp_Container p)
         then Inl (invalidReadQuery ''container must be a container name or ID'')
         else Inr (simple_command ''docker'' [''inspect'', ''--format'', docker_inspect_format, rqp_Container p]))
      else if oper = readQueryDockerLogs then
        (if \<not> readQueryContainerPattern (rqp_Container p)
         then Inl (invalidReadQuery ''container must be a container name or ID'')
         else (case boundedInteger (rqp_Tail p) readQueryDefaultLines readQueryMaxLines of
                 None \<Rightarrow> Inl (invalidReadQuery ''tail must be between 1 and 500'')
               | Some n \<Rightarrow>
                   (case boundedDuration env (rqp_Since p) hour_ns week_ns of
                      None \<Rightarrow> Inl (invalidReadQuery ''since must be a duration between 1ns and 168h'')
                    | Some since \<Rightarrow> Inr (simple_command ''docker''
                        [''logs'', ''--tail'', itoa n, ''--since'', since, ''--timestamps'', rqp_Container p]))))
      else if oper = readQuerySystemdStatus then
        (if \<not> readQueryUnitPattern (rqp_Unit p) then Inl (invalidReadQuery ''unit is invalid'')
         else Inr (simple_command ''systemctl'' [''--user'', ''show'', ''--no-pager'',
           ''--property=Id,Description,LoadState,ActiveState,SubState,MainPID,ExecMainStatus,ActiveEnterTimestamp'',
           rqp_Unit p]))
      else if oper = readQuerySystemdUnits then
        Inr (simple_command ''systemctl'' [''--user'', ''list-units'', ''--type=service'', ''--all'', ''--plain'',
          ''--no-legend'', ''--no-pager''])
      else if oper = readQueryJournal then
        (if \<not> readQueryUnitPattern (rqp_Unit p) then Inl (invalidReadQuery ''unit is invalid'')
         else (case boundedInteger (rqp_Lines p) readQueryDefaultLines readQueryMaxLines of
                 None \<Rightarrow> Inl (invalidReadQuery ''lines must be between 1 and 500'')
               | Some n \<Rightarrow>
                   (case boundedJournalSince env (rqp_Since p) of
                      None \<Rightarrow> Inl (invalidReadQuery ''since must be an RFC3339 timestamp within the last 30 days'')
                    | Some since \<Rightarrow> Inr (simple_command ''journalctl''
                        [''--user'', ''--unit'', rqp_Unit p, ''--since'', since, ''--lines'', itoa n,
                         ''--output=short-iso'', ''--no-pager'', ''--quiet'']))))
      else if oper = readQueryTmuxSessions then
        Inr (simple_command ''tmux'' [''-N'', ''list-sessions'', ''-F'', sessions_format])
      else if oper = readQueryTmuxPanes then
        (if \<not> readQuerySessionPattern (rqp_Session p) then Inl (invalidReadQuery ''session is invalid'')
         else Inr (simple_command ''tmux'' [''-N'', ''list-panes'', ''-s'', ''-t'', rqp_Session p, ''-F'', panes_format]))
      else if oper = readQueryTmuxCapture then
        (if \<not> readQueryPanePattern (rqp_PaneID p) then Inl (invalidReadQuery ''pane_id must be a tmux pane ID'')
         else (case boundedInteger (rqp_Lines p) readQueryDefaultLines readQueryMaxLines of
                 None \<Rightarrow> Inl (invalidReadQuery ''lines must be between 1 and 500'')
               | Some n \<Rightarrow> Inr (simple_command ''tmux''
                   [''-N'', ''capture-pane'', ''-p'', ''-J'', ''-t'', rqp_PaneID p, ''-S'', ''-'' @ itoa n])))
      else Inl (invalidReadQuery ''operation is not supported''))"

section \<open>Bounded output\<close>

record limited_output =
  lo_buffer :: bytes
  lo_limit :: int
  lo_truncated :: bool

text \<open>The new buffer and the count returned.\<close>

definition lo_Write :: "limited_output \<Rightarrow> bytes \<Rightarrow> limited_output \<times> int" where
  "lo_Write b p =
     (let remaining = lo_limit b - int (length (lo_buffer b)) in
      if remaining \<le> 0 then (b\<lparr>lo_truncated := True\<rparr>, int (length p))
      else if int (length p) > remaining
      then (b\<lparr>lo_buffer := lo_buffer b @ take (nat remaining) p, lo_truncated := True\<rparr>, int (length p))
      else (b\<lparr>lo_buffer := lo_buffer b @ p\<rparr>, int (length p)))"

definition new_limited :: "int \<Rightarrow> limited_output" where
  "new_limited limit = \<lparr>lo_buffer = [], lo_limit = limit, lo_truncated = False\<rparr>"

definition lo_write_all :: "bytes list \<Rightarrow> limited_output \<Rightarrow> limited_output" where
  "lo_write_all ps b = fold (\<lambda>p b. fst (lo_Write b p)) ps b"

section \<open>Running a command\<close>

text \<open>How \<open>cmd.Run\<close> ends, and the state of the context afterwards.\<close>

datatype run_error = ExitError int | NotFoundError | OtherRunError string

datatype ctx_error = DeadlineExceeded | Canceled

definition read_query_outcome ::
    "bytes list \<Rightarrow> bytes list \<Rightarrow> ctx_error option \<Rightarrow> run_error option \<Rightarrow> rpc_error + read_query_result" where
  "read_query_outcome out_chunks err_chunks ctx_err run_err =
     (let stdout = lo_write_all out_chunks (new_limited MaxCommandOutputBytes);
          stderr = lo_write_all err_chunks (new_limited MaxCommandOutputBytes);
          result = \<lparr>rqr_Stdout = lo_buffer stdout, rqr_Stderr = lo_buffer stderr, rqr_ExitCode = None,
                    rqr_TimedOut = False, rqr_StdoutTruncated = lo_truncated stdout,
                    rqr_StderrTruncated = lo_truncated stderr\<rparr>
      in (case ctx_err of
            Some DeadlineExceeded \<Rightarrow> Inr (result\<lparr>rqr_TimedOut := True\<rparr>)
          | Some Canceled \<Rightarrow> Inl (RPCErr ErrTimeout ''read query was canceled'')
          | None \<Rightarrow>
              (case run_err of
                 None \<Rightarrow> Inr (result\<lparr>rqr_ExitCode := Some 0\<rparr>)
               | Some (ExitError code) \<Rightarrow> Inr (result\<lparr>rqr_ExitCode := Some code\<rparr>)
               | Some NotFoundError \<Rightarrow> Inl (RPCErr ErrUnsupported ''required host utility is unavailable'')
               | Some (OtherRunError e) \<Rightarrow> Inl (RPCErr ErrInternal ''read query could not be started''))))"

text \<open>
  A run of a query: the command started (its directory, its own process group), the deadline of its
  context, and how long \<open>cmd.Run\<close> waits for the pipes once the child has ended. The cancel function,
  called when the context ends first, kills the group.
\<close>

record query_run =
  qn_command :: read_query_command
  qn_setpgid :: bool
  qn_timeout_ns :: int
  qn_wait_delay_ns :: int

definition readQueryTimeout :: int where "readQueryTimeout = 20 * 10 ^ 9"

definition start_query :: "read_query_command \<Rightarrow> query_run" where
  "start_query c =
     \<lparr>qn_command = c, qn_setpgid = True, qn_timeout_ns = readQueryTimeout, qn_wait_delay_ns = 10 ^ 9\<rparr>"

datatype cancel_result = CancelSent | ErrProcessDone | CancelFailed errno

definition query_Cancel :: "(int \<Rightarrow> signal \<Rightarrow> errno option) \<Rightarrow> int option \<Rightarrow> cancel_result" where
  "query_Cancel kill process =
     (case process of
        None \<Rightarrow> ErrProcessDone
      | Some pid \<Rightarrow>
          (case kill (- pid) SIGKILL of
             None \<Rightarrow> CancelSent
           | Some err \<Rightarrow> if err = ESRCH then ErrProcessDone else CancelFailed err))"

text \<open>
  How the child ended, and whether its pipes were at their end before the wait delay was over; and what
  \<open>cmd.Run\<close> returns then, as package os/exec documents it.
\<close>

datatype query_end = UtilityMissing | StartFailed string | Ended wait_status bool

definition cmd_Run :: "query_end \<Rightarrow> run_error option" where
  "cmd_Run e =
     (case e of
        UtilityMissing \<Rightarrow> Some NotFoundError
      | StartFailed err \<Rightarrow> Some (OtherRunError err)
      | Ended st drained \<Rightarrow>
          if st \<noteq> Exited 0 then Some (ExitError (status_ExitCode st))
          else if drained then None
          else Some (OtherRunError ''exec: WaitDelay expired before I/O complete''))"

record query_exec =
  qx_stdout :: "bytes list"
  qx_stderr :: "bytes list"
  qx_ctx :: "ctx_error option"
  qx_end :: query_end

definition runReadQueryCommand ::
    "(query_run \<Rightarrow> query_exec) \<Rightarrow> read_query_command \<Rightarrow> rpc_error + read_query_result" where
  "runReadQueryCommand exec c =
     (let x = exec (start_query c)
      in read_query_outcome (qx_stdout x) (qx_stderr x) (qx_ctx x) (cmd_Run (qx_end x)))"

section \<open>GitHub\<close>

definition isGitHubReadQuery :: "string \<Rightarrow> bool" where
  "isGitHubReadQuery operation \<longleftrightarrow>
     operation = readQueryGitHubRepo \<or> operation = readQueryGitHubIssue \<or> operation = readQueryGitHubPull"

text \<open>\<open>url.PathEscape\<close>: what may stand in a path segment stays, every other byte becomes \<open>%XX\<close>.\<close>

definition hex_digit :: "nat \<Rightarrow> char" where
  "hex_digit n = (if n < 10 then char_of (48 + n) else char_of (55 + n))"

definition path_char :: "char \<Rightarrow> bool" where
  "path_char c \<longleftrightarrow> is_alnum c \<or> c \<in> set ''-_.~$&+:=@''"

definition url_PathEscape :: "string \<Rightarrow> string" where
  "url_PathEscape s = concat (map (\<lambda>c. if path_char c then [c]
     else [CHR ''%'', hex_digit (of_char c div 16), hex_digit (of_char c mod 16)]) s)"

record base_url =
  bu_Scheme :: string
  bu_Host :: string
  bu_Path :: string

record http_request =
  hr_Method :: string
  hr_URL :: base_url
  hr_Header :: "(string \<times> string) list"

definition trim_right_slashes :: "string \<Rightarrow> string" where
  "trim_right_slashes s = rev (dropWhile (\<lambda>c. c = CHR ''/'') (rev s))"

definition firstNonEmpty :: "string list \<Rightarrow> string" where
  "firstNonEmpty vs = (case dropWhile (\<lambda>v. v = []) vs of [] \<Rightarrow> [] | v # _ \<Rightarrow> v)"

definition githubAPIVersion :: string where "githubAPIVersion = ''2026-03-10''"

text \<open>
  The request for a query: \<open>base\<close> is \<open>url.Parse\<close> of the API base, \<open>gh_token\<close> and \<open>github_token\<close> are
  the two environment variables.
\<close>

definition github_request ::
    "string + base_url \<Rightarrow> string \<Rightarrow> string \<Rightarrow> read_query_params \<Rightarrow> rpc_error + http_request" where
  "github_request base gh_token github_token p =
     (let owner = rqp_Owner p; repo = rqp_Repository p; oper = rqp_Operation p in
      if \<not> readQueryOwnerPattern owner \<or> \<not> readQueryRepoPattern repo \<or> repo = ''.'' \<or> repo = ''..''
      then Inl (invalidReadQuery ''owner or repository is invalid'')
      else
        (let path = ''/repos/'' @ url_PathEscape owner @ ''/'' @ url_PathEscape repo;
             with_path = (\<lambda>path.
               (case base of
                  Inl err \<Rightarrow> Inl (RPCErr ErrInternal ''GitHub API is unavailable'')
                | Inr b \<Rightarrow>
                    if bu_Scheme b \<noteq> ''https'' \<or> bu_Host b = []
                    then Inl (RPCErr ErrInternal ''GitHub API is unavailable'')
                    else (let token = firstNonEmpty [gh_token, github_token] in
                      Inr \<lparr>hr_Method = ''GET'', hr_URL = b\<lparr>bu_Path := trim_right_slashes (bu_Path b) @ path\<rparr>,
                           hr_Header =
                             [(''Accept'', ''application/vnd.github+json''),
                              (''X-GitHub-Api-Version'', githubAPIVersion),
                              (''User-Agent'', ''command-relay-mcp'')] @
                             (if token \<noteq> [] then [(''Authorization'', ''Bearer '' @ token)] else [])\<rparr>)))
         in if oper = readQueryGitHubRepo then with_path path
            else if oper = readQueryGitHubIssue \<or> oper = readQueryGitHubPull then
              (if rqp_Number p < 1 then Inl (invalidReadQuery ''number must be positive'')
               else with_path (path @ ''/'' @ (if oper = readQueryGitHubPull then ''pulls'' else ''issues'') @
                               ''/'' @ itoa (rqp_Number p)))
            else Inl (invalidReadQuery ''operation is not supported'')))"

text \<open>
  Redirects: \<open>via\<close> counts the requests made so far. A redirect that is not followed leaves its own
  response, which is not 200. The requests made along a chain of \<open>Location\<close>s, each a scheme and a
  host:
\<close>

definition redirect_followed :: "string \<Rightarrow> nat \<Rightarrow> bool" where
  "redirect_followed host via \<longleftrightarrow> \<not> (host \<noteq> ''api.github.com'') \<and> \<not> (via \<ge> 3)"

fun followed :: "nat \<Rightarrow> (string \<times> string) list \<Rightarrow> (string \<times> string) list" where
  "followed via [] = []"
| "followed via ((scheme, host) # locs) =
     (if redirect_followed host via then (scheme, host) # followed (Suc via) locs else [])"

text \<open>What is kept of GitHub's responses.\<close>

record github_repository_result =
  gr_Name :: string
  gr_FullName :: string
  gr_Description :: string
  gr_HTMLURL :: string
  gr_DefaultBranch :: string
  gr_Private :: bool
  gr_Archived :: bool

record github_issue_result =
  gi_Number :: int
  gi_Title :: string
  gi_Body :: string
  gi_State :: string
  gi_HTMLURL :: string
  gi_CreatedAt :: string
  gi_UpdatedAt :: string
  gi_User_Login :: string

record github_pull_request_result =
  gq_Number :: int
  gq_Title :: string
  gq_Body :: string
  gq_State :: string
  gq_HTMLURL :: string
  gq_Draft :: bool
  gq_Merged :: bool
  gq_CreatedAt :: string
  gq_UpdatedAt :: string
  gq_User_Login :: string

datatype github_output =
  NoOutput
| RepositoryOutput github_repository_result
| IssueOutput github_issue_result
| PullRequestOutput github_pull_request_result

text \<open>\<open>json.Unmarshal\<close> into the three types, \<open>json.Marshal\<close> of one of them.\<close>

record github_json =
  gj_repository :: "bytes \<Rightarrow> github_repository_result option"
  gj_issue :: "bytes \<Rightarrow> github_issue_result option"
  gj_pull :: "bytes \<Rightarrow> github_pull_request_result option"
  gj_encode :: "github_output \<Rightarrow> bytes option"

definition github_decode :: "github_json \<Rightarrow> string \<Rightarrow> bytes \<Rightarrow> rpc_error + github_output" where
  "github_decode js oper body =
     (if oper = readQueryGitHubRepo then
        (case gj_repository js body of
           None \<Rightarrow> Inl (RPCErr ErrInternal ''GitHub API returned an invalid repository response'')
         | Some r \<Rightarrow> Inr (RepositoryOutput r))
      else if oper = readQueryGitHubIssue then
        (case gj_issue js body of
           None \<Rightarrow> Inl (RPCErr ErrInternal ''GitHub API returned an invalid issue response'')
         | Some r \<Rightarrow> Inr (IssueOutput r))
      else if oper = readQueryGitHubPull then
        (case gj_pull js body of
           None \<Rightarrow> Inl (RPCErr ErrInternal ''GitHub API returned an invalid pull request response'')
         | Some r \<Rightarrow> Inr (PullRequestOutput r))
      else Inr NoOutput)"

text \<open>\<open>http_do\<close> gives the status, the body and whether reading the body failed.\<close>

definition queryGitHub ::
    "string + base_url \<Rightarrow> string \<Rightarrow> string \<Rightarrow> (http_request \<Rightarrow> string + int \<times> bytes \<times> bool) \<Rightarrow>
     github_json \<Rightarrow> read_query_params \<Rightarrow> rpc_error + read_query_result" where
  "queryGitHub base gh_token github_token http_do js p =
     (case github_request base gh_token github_token p of
        Inl err \<Rightarrow> Inl err
      | Inr req \<Rightarrow>
     (case http_do req of
        Inl err \<Rightarrow> Inl (RPCErr ErrInternal ''GitHub API request failed'')
      | Inr (status, full, read_failed) \<Rightarrow>
          if status \<noteq> 200 then Inl (RPCErr ErrInternal (''GitHub API returned HTTP '' @ itoa status))
          else (let body = take (nat (MaxCommandOutputBytes + 1)) full in
            if read_failed \<or> int (length body) > MaxCommandOutputBytes
            then Inl (RPCErr ErrInternal
                   ''GitHub API response exceeds the output limit or could not be read'')
            else (case github_decode js (rqp_Operation p) body of
                    Inl err \<Rightarrow> Inl err
                  | Inr v \<Rightarrow>
                      (case gj_encode js v of
                         None \<Rightarrow> Inl (RPCErr ErrInternal ''GitHub API response could not be encoded'')
                       | Some out \<Rightarrow> Inr \<lparr>rqr_Stdout = out, rqr_Stderr = [], rqr_ExitCode = Some 0,
                           rqr_TimedOut = False, rqr_StdoutTruncated = False, rqr_StderrTruncated = False\<rparr>)))))"

text \<open>
  The handler: \<open>decoded\<close> is the strict decoding of the parameters (unknown fields refused),
  \<open>at_end\<close> that nothing follows them; \<open>run\<close> runs a command, \<open>github\<close> is \<open>queryGitHub\<close>.
\<close>

definition read_Query ::
    "query_env \<Rightarrow> string + read_query_params \<Rightarrow> bool \<Rightarrow>
     (read_query_command \<Rightarrow> rpc_error + read_query_result) \<Rightarrow>
     (read_query_params \<Rightarrow> rpc_error + read_query_result) \<Rightarrow> rpc_error + read_query_result" where
  "read_Query env decoded at_end run github =
     (case decoded of
        Inl err \<Rightarrow> Inl (RPCErr ErrInvalidRequest ''invalid read query parameters'')
      | Inr p \<Rightarrow>
          if \<not> at_end then Inl (RPCErr ErrInvalidRequest ''invalid read query parameters'')
          else if isGitHubReadQuery (rqp_Operation p) then github p
          else (case buildReadQueryCommand env p of
                  Inl err \<Rightarrow> Inl err
                | Inr c \<Rightarrow> run c))"

text \<open>The handlers as they are built: the runner, GitHub's address and the timeout of its client.\<close>

definition githubAPIBase :: string where "githubAPIBase = ''https://api.github.com''"

record read_query_handlers =
  rh_runCommand :: "read_query_command \<Rightarrow> rpc_error + read_query_result"
  rh_apiBase :: string
  rh_timeout_ns :: int

definition NewReadQueryHandlers :: "(query_run \<Rightarrow> query_exec) \<Rightarrow> read_query_handlers" where
  "NewReadQueryHandlers exec =
     \<lparr>rh_runCommand = runReadQueryCommand exec, rh_apiBase = githubAPIBase, rh_timeout_ns = 15 * 10 ^ 9\<rparr>"

definition handle_read_query ::
    "read_query_handlers \<Rightarrow> query_env \<Rightarrow> (string \<Rightarrow> string + base_url) \<Rightarrow> string \<Rightarrow> string \<Rightarrow>
     (http_request \<Rightarrow> string + int \<times> bytes \<times> bool) \<Rightarrow> github_json \<Rightarrow> string + read_query_params \<Rightarrow> bool \<Rightarrow>
     rpc_error + read_query_result" where
  "handle_read_query h env url_Parse gh_token github_token http_do js decoded at_end =
     read_Query env decoded at_end (rh_runCommand h)
       (queryGitHub (url_Parse (rh_apiBase h)) gh_token github_token http_do js)"

section \<open>What an argument list can make a program do\<close>

text \<open>
  The options of the templates that take the next argument as their value, and the other options.
  A list is safe when every argument is one of these options, the value of one, a positional
  argument that cannot be taken for an option, or stands after the end-of-options mark.
\<close>

definition value_options :: "string list" where
  "value_options = [''-C'', ''-c'', ''--last'', ''--format'', ''--tail'', ''--since'', ''--unit'', ''--lines'',
     ''-F'', ''-t'', ''-S'', ''-n'']"

definition flag_options :: "string list" where
  "flag_options = [''--no-optional-locks'', ''--no-pager'', ''--short'', ''--branch'', ''--untracked-files=normal'',
     ''--no-ext-diff'', ''--no-textconv'', ''--cached'', ''--no-color'', ''--no-decorate'', ''--no-show-signature'',
     ''--format=%h%x09%ad%x09%s'', ''--date=short'', ''--all'', ''--timestamps'', ''--user'',
     ''--property=Id,Description,LoadState,ActiveState,SubState,MainPID,ExecMainStatus,ActiveEnterTimestamp'',
     ''--type=service'', ''--plain'', ''--no-legend'', ''--output=short-iso'', ''--quiet'',
     ''-N'', ''-s'', ''-p'', ''-J'']"

fun safe_args :: "string list \<Rightarrow> bool" where
  "safe_args [] = True"
| "safe_args (a # rest) =
     (if a = ''--'' then True
      else if a \<in> set value_options then rest \<noteq> [] \<and> safe_args (tl rest)
      else (a \<in> set flag_options \<or> \<not> has_prefix a ''-'') \<and> safe_args rest)"

lemma has_prefix_dash: "has_prefix s ''-'' \<longleftrightarrow> s \<noteq> [] \<and> hd s = CHR ''-''"
  by (cases s) (auto simp: has_prefix_def)

lemma dash_not_alnum [simp]: "\<not> is_alnum CHR ''-''"
  by code_simp

lemma class_match_no_dash:
  "class_match first others hi s \<Longrightarrow> \<not> first CHR ''-'' \<Longrightarrow> \<not> has_prefix s ''-''"
  by (auto simp: class_match_def has_prefix_dash split: list.splits)

lemma selector_no_dash:
  "readQueryContainerPattern s \<Longrightarrow> \<not> has_prefix s ''-''"
  "readQueryUnitPattern s \<Longrightarrow> \<not> has_prefix s ''-''"
  by (auto simp: readQueryContainerPattern_def readQueryUnitPattern_def dest!: class_match_no_dash)

lemma safe_positional: "\<not> has_prefix a ''-'' \<Longrightarrow> safe_args rest \<Longrightarrow> safe_args (a # rest)"
  by (auto simp: value_options_def has_prefix_def)

lemmas operation_defs =
  readQueryGitStatus_def readQueryGitDiff_def readQueryGitLog_def readQueryDockerPS_def
  readQueryDockerInspect_def readQueryDockerLogs_def readQuerySystemdStatus_def readQuerySystemdUnits_def
  readQueryJournal_def readQueryTmuxSessions_def readQueryTmuxPanes_def readQueryTmuxCapture_def
  readQueryGitHubRepo_def readQueryGitHubIssue_def readQueryGitHubPull_def

lemmas option_lists = value_options_def flag_options_def

lemma build_git_safe:
  "build_git p repo = Inr c \<Longrightarrow> rqc_name c = ''git'' \<and> rqc_dir c = repo \<and> safe_args (rqc_args c)"
  by (auto simp: build_git_def git_prefix_def option_lists has_prefix_def Let_def split: if_splits option.splits)

lemma build_simple_safe:
  assumes "buildReadQueryCommand env p = Inr c"
    and "rqp_Operation p \<notin> {readQueryGitStatus, readQueryGitDiff, readQueryGitLog}"
  shows "rqc_name c \<in> {''docker'', ''systemctl'', ''journalctl'', ''tmux''} \<and> rqc_dir c = [] \<and> safe_args (rqc_args c)"
  using assms
  by (auto simp: buildReadQueryCommand_def simple_command_def option_lists has_prefix_dash Let_def
      dest!: selector_no_dash split: if_splits option.splits)

lemma validated_directory:
  assumes "validateReadQueryDirectory env path = Some dir" and "\<And>d. qe_wd env = Inr d \<Longrightarrow> IsAbs d"
  shows "normal_path dir \<and> qe_is_dir env dir"
  using assms normal_Abs [of "qe_wd env" "path_Clean path" dir]
  by (auto simp: validateReadQueryDirectory_def split: if_splits sum.splits)

section \<open>Properties\<close>

text \<open>
  C30. A caller of read.query chooses neither a program nor an option. Whatever parameters it sends, a
  command that is built runs git, docker, systemctl, journalctl or tmux, directly and without a
  shell; every argument is an option of the fixed template, the value of one, a positional that
  no program takes for an option, or stands behind the end-of-options mark; and only the git
  commands have a working directory, an existing one, named by an absolute path without
  dot segments.
\<close>

theorem read_query_no_injection:
  assumes "buildReadQueryCommand env p = Inr c" and "\<forall>d. qe_wd env = Inr d \<longrightarrow> IsAbs d"
  shows "rqc_name c \<in> {''git'', ''docker'', ''systemctl'', ''journalctl'', ''tmux''} \<and>
    safe_args (rqc_args c) \<and> qn_setpgid (start_query c) \<and>
    (rqc_dir c \<noteq> [] \<longrightarrow> rqc_name c = ''git'' \<and> normal_path (rqc_dir c) \<and> qe_is_dir env (rqc_dir c))"
proof (cases "rqp_Operation p \<in> {readQueryGitStatus, readQueryGitDiff, readQueryGitLog}")
  case True
  then obtain repo where "validateReadQueryDirectory env (rqp_RepositoryPath p) = Some repo" "build_git p repo = Inr c"
    using assms(1) by (auto simp: buildReadQueryCommand_def Let_def split: option.splits)
  then show ?thesis
    using validated_directory [of env _ repo] build_git_safe [of p repo c] assms(2) by (auto simp: start_query_def)
next
  case False
  then show ?thesis using build_simple_safe [OF assms(1)] by (auto simp: start_query_def)
qed

text \<open>
  The captured output of a query is the exact prefix of what the program wrote: for any limit and
  any chunks, the buffer holds the first bytes of the stream up to the limit, every write is
  reported as complete so that the program never sees an error, and, when no chunk is empty, the
  flag is set exactly when something was cut off.
\<close>

theorem limited_output_is_prefix:
  assumes "0 \<le> limit"
  shows "lo_buffer (lo_write_all ps (new_limited limit)) = take (nat limit) (concat ps) \<and>
    snd (lo_Write (lo_write_all ps (new_limited limit)) p) = int (length p) \<and>
    ([] \<notin> set ps \<longrightarrow>
       (lo_truncated (lo_write_all ps (new_limited limit)) \<longleftrightarrow> limit < int (length (concat ps))))"
proof -
  have "lo_limit (lo_write_all ps (new_limited limit)) = limit \<and>
      lo_buffer (lo_write_all ps (new_limited limit)) = take (nat limit) (concat ps) \<and>
      ([] \<notin> set ps \<longrightarrow>
         (lo_truncated (lo_write_all ps (new_limited limit)) \<longleftrightarrow> limit < int (length (concat ps))))"
  proof (induction ps rule: rev_induct)
    case Nil
    then show ?case using assms by (simp add: lo_write_all_def new_limited_def)
  next
    case (snoc q ps)
    let ?b = "lo_write_all ps (new_limited limit)"
    have step: "lo_write_all (ps @ [q]) (new_limited limit) = fst (lo_Write ?b q)"
      by (simp add: lo_write_all_def)
    have len: "int (length (take (nat limit) (concat ps))) = min limit (int (length (concat ps)))"
      using assms by auto
    consider "limit \<le> int (length (concat ps))"
      | "int (length (concat ps)) < limit" "limit < int (length (concat ps)) + int (length q)"
      | "int (length (concat ps)) < limit" "int (length (concat ps)) + int (length q) \<le> limit" by linarith
    then show ?case
    proof cases
      case 1
      then have "nat limit \<le> length (concat ps)" by simp
      then show ?thesis
        using 1 snoc.IH len by (auto simp: step lo_Write_def Let_def neq_Nil_conv)
    next
      case 2
      then have "take (nat limit) (concat ps) = concat ps" by simp
      moreover have "nat (limit - int (length (concat ps))) = nat limit - length (concat ps)"
        using 2 by (simp add: nat_diff_distrib')
      ultimately show ?thesis
        using 2 snoc.IH by (auto simp: step lo_Write_def Let_def)
    next
      case 3
      then have "take (nat limit) (concat ps) = concat ps" "take (nat limit) (concat ps @ q) = concat ps @ q" by simp_all
      then show ?thesis
        using 3 snoc.IH by (auto simp: step lo_Write_def Let_def)
    qed
  qed
  then show ?thesis by (simp add: lo_Write_def Let_def)
qed

text \<open>
  C33. What read.query answers about a host command is what happened to it. A success carries the exact
  prefixes of what the command wrote, at most the output limit of each; it has an exit code, the
  command's own, unless the deadline passed, and then it says so. An error is given only when the
  caller went away, when the utility is not installed, when it could not be started, or when it did
  exit with 0 but something it started kept its output open for a second longer: then the answer says,
  wrongly, that the query could not be started.
\<close>

theorem read_query_answers:
  assumes "exec (start_query c) = x"
  shows "case runReadQueryCommand exec c of
      Inr res \<Rightarrow>
        rqr_Stdout res = take (nat MaxCommandOutputBytes) (concat (qx_stdout x)) \<and>
        rqr_Stderr res = take (nat MaxCommandOutputBytes) (concat (qx_stderr x)) \<and>
        (if qx_ctx x = Some DeadlineExceeded then rqr_TimedOut res \<and> rqr_ExitCode res = None
         else qx_ctx x = None \<and> \<not> rqr_TimedOut res \<and>
           (\<exists>st drained. qx_end x = Ended st drained \<and> rqr_ExitCode res = Some (status_ExitCode st)))
    | Inl err \<Rightarrow>
        rpc_Code err = ErrTimeout \<and> qx_ctx x = Some Canceled \<or>
        rpc_Code err = ErrUnsupported \<and> qx_ctx x = None \<and> qx_end x = UtilityMissing \<or>
        err = RPCErr ErrInternal ''read query could not be started'' \<and> qx_ctx x = None \<and>
          ((\<exists>e. qx_end x = StartFailed e) \<or> qx_end x = Ended (Exited 0) False)"
proof -
  have out: "lo_buffer (lo_write_all ps (new_limited MaxCommandOutputBytes)) = take (nat MaxCommandOutputBytes) (concat ps)"
    for ps using limited_output_is_prefix [of MaxCommandOutputBytes ps] by (simp add: MaxCommandOutputBytes_def)
  show ?thesis
    using assms by (auto simp: runReadQueryCommand_def read_query_outcome_def cmd_Run_def out Let_def
        split: option.splits ctx_error.splits query_end.splits)
qed

lemma escape_plain: "\<forall>c \<in> set s. path_char c \<Longrightarrow> url_PathEscape s = s"
  by (induction s) (auto simp: url_PathEscape_def)

lemma owner_chars: "readQueryOwnerPattern s \<Longrightarrow> s \<noteq> [] \<and> (\<forall>c \<in> set s. is_alnum c \<or> c = CHR ''-'')"
proof -
  assume o: "readQueryOwnerPattern s"
  then obtain c cs where s: "s = c # cs" by (auto simp: readQueryOwnerPattern_def split: list.splits)
  have "set cs \<subseteq> insert (last cs) (set (butlast cs))"
    by (cases cs rule: rev_cases) auto
  then show ?thesis using o by (auto simp: s readQueryOwnerPattern_def split: if_splits)
qed

lemma repo_chars: "readQueryRepoPattern s \<Longrightarrow> s \<noteq> [] \<and> (\<forall>c \<in> set s. is_alnum c \<or> c \<in> set ''_.-'')"
  by (auto simp: readQueryRepoPattern_def)

lemma alnum_not_slash: "is_alnum c \<Longrightarrow> c \<noteq> CHR ''/'' \<and> c \<noteq> CHR ''.''"
  by (auto simp: is_alnum_def is_alpha_def is_digit_def)

lemma owner_plain: "readQueryOwnerPattern s \<Longrightarrow> plain_component s"
proof -
  assume o: "readQueryOwnerPattern s"
  have "\<forall>c \<in> set s. c \<noteq> CHR ''/'' \<and> c \<noteq> CHR ''.''"
  proof
    fix c
    assume "c \<in> set s"
    then have "is_alnum c \<or> c = CHR ''-''" using owner_chars [OF o] by blast
    then show "c \<noteq> CHR ''/'' \<and> c \<noteq> CHR ''.''" using alnum_not_slash by fastforce
  qed
  then show ?thesis using owner_chars [OF o] unfolding plain_component_def by force
qed

lemma repo_plain: "readQueryRepoPattern s \<Longrightarrow> s \<noteq> ''.'' \<Longrightarrow> s \<noteq> ''..'' \<Longrightarrow> plain_component s"
proof -
  assume r: "readQueryRepoPattern s" and dots: "s \<noteq> ''.''" "s \<noteq> ''..''"
  have "\<forall>c \<in> set s. c \<noteq> CHR ''/''"
  proof
    fix c
    assume "c \<in> set s"
    then have "is_alnum c \<or> c \<in> set ''_.-''" using repo_chars [OF r] by blast
    then show "c \<noteq> CHR ''/''" using alnum_not_slash by fastforce
  qed
  then show ?thesis using repo_chars [OF r] dots unfolding plain_component_def by blast
qed

lemma github_request_shape:
  assumes "github_request base gh_token github_token p = Inr req"
  obtains b rest where "base = Inr b" "bu_Scheme b = ''https''" "hr_Method req = ''GET''"
    "hr_URL req = b\<lparr>bu_Path := trim_right_slashes (bu_Path b) @
       (''/repos/'' @ url_PathEscape (rqp_Owner p) @ ''/'' @ url_PathEscape (rqp_Repository p)) @ rest\<rparr>"
    "rest = [] \<or> (\<exists>n \<ge> 1. rest = ''/issues/'' @ itoa n \<or> rest = ''/pulls/'' @ itoa n)"
proof -
  obtain b where b: "base = Inr b" "bu_Scheme b = ''https''"
    using assms by (cases base) (auto simp: github_request_def Let_def split: if_splits)
  define path where "path = ''/repos/'' @ url_PathEscape (rqp_Owner p) @ ''/'' @ url_PathEscape (rqp_Repository p)"
  consider "rqp_Operation p = readQueryGitHubRepo"
    | "rqp_Operation p = readQueryGitHubIssue" "rqp_Operation p \<noteq> readQueryGitHubRepo" "1 \<le> rqp_Number p"
    | "rqp_Operation p = readQueryGitHubPull" "rqp_Operation p \<noteq> readQueryGitHubRepo" "1 \<le> rqp_Number p"
    using assms by (auto simp: github_request_def Let_def split: if_splits)
  then show ?thesis
  proof cases
    case 1
    then show ?thesis using assms b by (intro that [of b "[]"])
        (auto simp: github_request_def Let_def path_def [symmetric] split: if_splits)
  next
    case 2
    moreover have "readQueryGitHubIssue \<noteq> readQueryGitHubPull" by (simp add: operation_defs)
    ultimately show ?thesis using assms b by (intro that [of b "''/issues/'' @ itoa (rqp_Number p)"])
        (auto simp: github_request_def Let_def path_def [symmetric] split: if_splits)
  next
    case 3
    then show ?thesis using assms b by (intro that [of b "''/pulls/'' @ itoa (rqp_Number p)"])
        (auto simp: github_request_def Let_def path_def [symmetric] split: if_splits)
  qed
qed

text \<open>
  C34. A GitHub query can only read the repository it names: whatever the parameters, a request that is
  made is a GET to the configured host, below its API path, for the resource \<open>/repos/owner/repo\<close>, one
  of its issues or one of its pull requests, where owner and repository are single path segments
  taken over verbatim, neither empty nor a dot segment; and following redirects, at most two,
  never contacts another host than api.github.com.
\<close>

lemma github_request_confined:
  assumes "github_request base gh_token github_token p = Inr req"
  shows "hr_Method req = ''GET'' \<and>
    (\<exists>b rest. base = Inr b \<and> bu_Scheme b = ''https'' \<and> bu_Scheme (hr_URL req) = ''https'' \<and>
       bu_Host (hr_URL req) = bu_Host b \<and>
       bu_Path (hr_URL req) = trim_right_slashes (bu_Path b) @ ''/repos/'' @ rqp_Owner p @ ''/'' @ rqp_Repository p @ rest \<and>
       (rest = [] \<or> (\<exists>n \<ge> 1. rest = ''/issues/'' @ itoa n \<or> rest = ''/pulls/'' @ itoa n))) \<and>
    plain_component (rqp_Owner p) \<and> plain_component (rqp_Repository p) \<and>
    snd ` set (followed 1 locs) \<subseteq> {''api.github.com''} \<and> length (followed 1 locs) \<le> 2"
proof -
  have v: "readQueryOwnerPattern (rqp_Owner p)" "readQueryRepoPattern (rqp_Repository p)"
    "rqp_Repository p \<noteq> ''.''" "rqp_Repository p \<noteq> ''..''"
    using assms by (auto simp: github_request_def Let_def split: if_splits)
  have esc: "url_PathEscape (rqp_Owner p) = rqp_Owner p" "url_PathEscape (rqp_Repository p) = rqp_Repository p"
    using owner_chars [OF v(1)] repo_chars [OF v(2)] by (auto intro!: escape_plain simp: path_char_def)
  have "plain_component (rqp_Owner p)"
    using v(1) by (rule owner_plain)
  moreover have "plain_component (rqp_Repository p)"
    using v(2-4) by (rule repo_plain)
  moreover have "snd ` set (followed via locs) \<subseteq> {''api.github.com''}" for via
    by (induction via locs rule: followed.induct) (auto simp: redirect_followed_def)
  moreover have "length (followed via locs) \<le> 3 - via" for via
    by (induction via locs rule: followed.induct) (auto simp: redirect_followed_def)
  from this [of 1] have "length (followed 1 locs) \<le> 2" by simp
  moreover obtain b rest where "base = Inr b" "bu_Scheme b = ''https''" "hr_Method req = ''GET''"
    "hr_URL req = b\<lparr>bu_Path := trim_right_slashes (bu_Path b) @ (''/repos/'' @ rqp_Owner p @ ''/'' @ rqp_Repository p) @ rest\<rparr>"
    "rest = [] \<or> (\<exists>n \<ge> 1. rest = ''/issues/'' @ itoa n \<or> rest = ''/pulls/'' @ itoa n)"
  proof (rule github_request_shape [OF assms, unfolded esc])
  qed (rule that)
  ultimately show ?thesis by (intro conjI exI [of _ b] exI [of _ rest]) simp_all
qed

subsection \<open>Witnesses\<close>

definition sample_query :: read_query_params where
  "sample_query = \<lparr>rqp_Operation = ''git_diff'', rqp_RepositoryPath = ''/srv/../repo/./a'', rqp_Pathspec = ''-x'',
     rqp_Staged = True, rqp_Limit = 0, rqp_IncludeAll = False, rqp_Container = [], rqp_Tail = 0, rqp_Since = [],
     rqp_Unit = [], rqp_Session = [], rqp_PaneID = [], rqp_Lines = 0, rqp_Owner = ''octo-org'',
     rqp_Repository = ''hello.world'', rqp_Number = 7\<rparr>"

definition sample_query_env :: query_env where
  "sample_query_env = \<lparr>qe_wd = Inr ''/'', qe_is_dir = (\<lambda>d. d = ''/repo/a''), qe_parse_duration = (\<lambda>s. None),
     qe_parse_time = (\<lambda>s. None), qe_now1 = t_wall zero_time, qe_now2 = t_wall zero_time, qe_hour_ago = t_wall zero_time\<rparr>"

text \<open>A pathspec that looks like an option ends up behind the mark.\<close>

theorem read_query_no_injection_witness:
  "\<exists>c. buildReadQueryCommand sample_query_env sample_query = Inr c \<and> rqc_dir c = ''/repo/a'' \<and>
     rqc_name c = ''git'' \<and> safe_args (rqc_args c) \<and>
     drop (length (rqc_args c) - 3) (rqc_args c) = [''--cached'', ''--'', ''-x'']"
proof -
  let ?c = "\<lparr>rqc_name = ''git'',
      rqc_args = [''--no-optional-locks'', ''-C'', ''/repo/a'', ''-c'', ''core.fsmonitor=false'', ''--no-pager'',
        ''diff'', ''--no-ext-diff'', ''--no-textconv'', ''--cached'', ''--'', ''-x''], rqc_dir = ''/repo/a''\<rparr>"
  have b: "buildReadQueryCommand sample_query_env sample_query = Inr ?c" by code_simp
  have "\<forall>d. qe_wd sample_query_env = Inr d \<longrightarrow> IsAbs d" by (simp add: sample_query_env_def IsAbs_def has_prefix_def)
  from read_query_no_injection [OF b this] have safe: "safe_args (rqc_args ?c)" by blast
  show ?thesis using b safe by (intro exI [of _ ?c]) (simp del: safe_args.simps)
qed

theorem limited_output_is_prefix_witness:
  "lo_buffer (lo_write_all [''abc'', ''de''] (new_limited 4)) = ''abcd'' \<and>
   lo_truncated (lo_write_all [''abc'', ''de''] (new_limited 4))"
  using limited_output_is_prefix [of 4 "[''abc'', ''de'']" "[]"] by simp

theorem read_query_answers_witness:
  "let x = \<lparr>qx_stdout = [''## ma'', ''in''], qx_stderr = [], qx_ctx = None, qx_end = Ended (Exited 0) False\<rparr>
   in runReadQueryCommand (\<lambda>q. x) (simple_command ''git'' [''status'']) =
        Inl (RPCErr ErrInternal ''read query could not be started'')"
  using read_query_answers [of "\<lambda>q. \<lparr>qx_stdout = [''## ma'', ''in''], qx_stderr = [], qx_ctx = None, qx_end = Ended (Exited 0) False\<rparr>"
      "simple_command ''git'' [''status'']", OF refl]
  by (auto simp: runReadQueryCommand_def read_query_outcome_def cmd_Run_def Let_def split: sum.splits)

end
