(* ===== verification/Structs.thy ===== *)
theory Structs
  imports Payload Files ReadQuery
begin

text \<open>
  The structs of the RPC parameters and results (agent/handlers_*.go, agent/read_query.go, agent/history.go):
  their fields with the keys and tags of the code, and for each the instance of \<open>json_struct\<close>: what the
  other end receives is the value itself with the invalid bytes of its strings replaced, provided
  that its integers have 64 bits and its times a year of four digits. A struct of one field is the
  value of that field.
\<close>

section \<open>Parameters\<close>

definition command_fields :: "command_params jfield list" where
  "command_fields =
     [field ''command'' jstring cp_Command cp_Command_update,
      omitted ''cwd'' jstring cp_Cwd cp_Cwd_update,
      omitted ''env'' jmap cp_Env cp_Env_update,
      omitted ''timeout_ms'' jint cp_TimeoutMs cp_TimeoutMs_update,
      omitted ''client_context_id'' jstring cp_ClientContextID cp_ClientContextID_update,
      omitted ''client_subject'' jstring cp_ClientSubject cp_ClientSubject_update]"

definition zero_command :: command_params where
  "zero_command =
     \<lparr>cp_Command = [], cp_Cwd = [], cp_Env = [], cp_TimeoutMs = 0, cp_ClientContextID = [],
      cp_ClientSubject = []\<rparr>"

definition received_command :: "command_params \<Rightarrow> command_params" where
  "received_command p =
     \<lparr>cp_Command = clean (cp_Command p), cp_Cwd = clean (cp_Cwd p), cp_Env = received_map (cp_Env p),
      cp_TimeoutMs = cp_TimeoutMs p, cp_ClientContextID = clean (cp_ClientContextID p),
      cp_ClientSubject = clean (cp_ClientSubject p)\<rparr>"

interpretation command_codec: json_struct command_fields zero_command "\<lambda>p. in_i64 (cp_TimeoutMs p)" received_command 1
  by unfold_locales (simp_all add: command_fields_def zero_command_def received_command_def stored_fields
      sized_fields checked_names)

definition process_start_fields :: "process_start_params jfield list" where
  "process_start_fields =
     [field ''command'' jstring ps_Command ps_Command_update,
      omitted ''cwd'' jstring ps_Cwd ps_Cwd_update,
      omitted ''env'' jmap ps_Env ps_Env_update,
      omitted ''client_context_id'' jstring ps_ClientContextID ps_ClientContextID_update,
      omitted ''client_subject'' jstring ps_ClientSubject ps_ClientSubject_update]"

definition zero_process_start :: process_start_params where
  "zero_process_start =
     \<lparr>ps_Command = [], ps_Cwd = [], ps_Env = [], ps_ClientContextID = [], ps_ClientSubject = []\<rparr>"

definition received_process_start :: "process_start_params \<Rightarrow> process_start_params" where
  "received_process_start p =
     \<lparr>ps_Command = clean (ps_Command p), ps_Cwd = clean (ps_Cwd p), ps_Env = received_map (ps_Env p),
      ps_ClientContextID = clean (ps_ClientContextID p), ps_ClientSubject = clean (ps_ClientSubject p)\<rparr>"

interpretation process_start_codec: json_struct process_start_fields zero_process_start "\<lambda>_. True" received_process_start 1
  by unfold_locales (simp_all add: process_start_fields_def zero_process_start_def received_process_start_def
      stored_fields sized_fields checked_names)

definition process_read_fields :: "process_read_params jfield list" where
  "process_read_fields =
     [field ''process_id'' jstring prp_ProcessID prp_ProcessID_update,
      field ''stdout_offset'' jint prp_StdoutOffset prp_StdoutOffset_update,
      field ''stderr_offset'' jint prp_StderrOffset prp_StderrOffset_update,
      omitted ''max_bytes'' jint prp_MaxBytes prp_MaxBytes_update]"

definition zero_process_read :: process_read_params where
  "zero_process_read =
     \<lparr>prp_ProcessID = [], prp_StdoutOffset = 0, prp_StderrOffset = 0, prp_MaxBytes = 0\<rparr>"

definition received_process_read :: "process_read_params \<Rightarrow> process_read_params" where
  "received_process_read p =
     \<lparr>prp_ProcessID = clean (prp_ProcessID p), prp_StdoutOffset = prp_StdoutOffset p,
      prp_StderrOffset = prp_StderrOffset p, prp_MaxBytes = prp_MaxBytes p\<rparr>"

definition process_read_fits :: "process_read_params \<Rightarrow> bool" where
  "process_read_fits p \<longleftrightarrow> in_i64 (prp_StdoutOffset p) \<and>
     in_i64 (prp_StderrOffset p) \<and> in_i64 (prp_MaxBytes p)"

interpretation process_read_codec: json_struct process_read_fields zero_process_read process_read_fits received_process_read 0
  by unfold_locales (simp_all add: process_read_fields_def zero_process_read_def received_process_read_def
      process_read_fits_def stored_fields sized_fields checked_names)

definition process_write_fields :: "process_write_params jfield list" where
  "process_write_fields =
     [field ''process_id'' jstring pwp_ProcessID pwp_ProcessID_update,
      field ''data'' jstring pwp_Data pwp_Data_update]"

definition zero_process_write :: process_write_params where
  "zero_process_write =
     \<lparr>pwp_ProcessID = [], pwp_Data = []\<rparr>"

definition received_process_write :: "process_write_params \<Rightarrow> process_write_params" where
  "received_process_write p =
     \<lparr>pwp_ProcessID = clean (pwp_ProcessID p), pwp_Data = clean (pwp_Data p)\<rparr>"

interpretation process_write_codec: json_struct process_write_fields zero_process_write "\<lambda>_. True" received_process_write 0
  by unfold_locales (simp_all add: process_write_fields_def zero_process_write_def received_process_write_def
      stored_fields sized_fields checked_names)

definition process_wait_fields :: "process_wait_params jfield list" where
  "process_wait_fields =
     [field ''process_id'' jstring pwt_ProcessID pwt_ProcessID_update,
      omitted ''timeout_ms'' jint pwt_TimeoutMs pwt_TimeoutMs_update]"

definition zero_process_wait :: process_wait_params where
  "zero_process_wait =
     \<lparr>pwt_ProcessID = [], pwt_TimeoutMs = 0\<rparr>"

definition received_process_wait :: "process_wait_params \<Rightarrow> process_wait_params" where
  "received_process_wait p =
     \<lparr>pwt_ProcessID = clean (pwt_ProcessID p), pwt_TimeoutMs = pwt_TimeoutMs p\<rparr>"

interpretation process_wait_codec: json_struct process_wait_fields zero_process_wait "\<lambda>p. in_i64 (pwt_TimeoutMs p)" received_process_wait 0
  by unfold_locales (simp_all add: process_wait_fields_def zero_process_wait_def received_process_wait_def
      stored_fields sized_fields checked_names)

definition process_terminate_fields :: "process_terminate_params jfield list" where
  "process_terminate_fields =
     [field ''process_id'' jstring ptp_ProcessID ptp_ProcessID_update,
      omitted ''grace_ms'' jint ptp_GraceMs ptp_GraceMs_update]"

definition zero_process_terminate :: process_terminate_params where
  "zero_process_terminate =
     \<lparr>ptp_ProcessID = [], ptp_GraceMs = 0\<rparr>"

definition received_process_terminate :: "process_terminate_params \<Rightarrow> process_terminate_params" where
  "received_process_terminate p =
     \<lparr>ptp_ProcessID = clean (ptp_ProcessID p), ptp_GraceMs = ptp_GraceMs p\<rparr>"

interpretation process_terminate_codec: json_struct process_terminate_fields zero_process_terminate "\<lambda>p. in_i64 (ptp_GraceMs p)" received_process_terminate 0
  by unfold_locales (simp_all add: process_terminate_fields_def zero_process_terminate_def
      received_process_terminate_def stored_fields sized_fields checked_names)

definition execution_list_fields :: "int jfield list" where
  "execution_list_fields =
     [omitted ''limit'' jint (\<lambda>p. p) (\<lambda>f. f)]"

interpretation execution_list_codec: json_struct execution_list_fields 0 in_i64 id 0
  by unfold_locales (simp_all add: execution_list_fields_def stored_fields sized_fields checked_names)

definition execution_get_fields :: "string jfield list" where
  "execution_get_fields =
     [field ''execution_id'' jstring (\<lambda>p. p) (\<lambda>f. f)]"

interpretation execution_get_codec: json_struct execution_get_fields "[]" "\<lambda>_. True" clean 0
  by unfold_locales (simp_all add: execution_get_fields_def stored_fields sized_fields checked_names)

definition file_path_fields :: "string jfield list" where
  "file_path_fields =
     [field ''path'' jstring (\<lambda>p. p) (\<lambda>f. f)]"

interpretation file_path_codec: json_struct file_path_fields "[]" "\<lambda>_. True" clean 0
  by unfold_locales (simp_all add: file_path_fields_def stored_fields sized_fields checked_names)

definition file_write_fields :: "file_write_params jfield list" where
  "file_write_fields =
     [field ''path'' jstring fwp_Path fwp_Path_update,
      field ''content_base64'' jstring fwp_ContentBase64 fwp_ContentBase64_update,
      omitted ''mode'' jstring fwp_Mode fwp_Mode_update]"

definition zero_file_write :: file_write_params where
  "zero_file_write =
     \<lparr>fwp_Path = [], fwp_ContentBase64 = [], fwp_Mode = []\<rparr>"

definition received_file_write :: "file_write_params \<Rightarrow> file_write_params" where
  "received_file_write p =
     \<lparr>fwp_Path = clean (fwp_Path p), fwp_ContentBase64 = clean (fwp_ContentBase64 p),
      fwp_Mode = clean (fwp_Mode p)\<rparr>"

interpretation file_write_codec: json_struct file_write_fields zero_file_write "\<lambda>_. True" received_file_write 0
  by unfold_locales (simp_all add: file_write_fields_def zero_file_write_def received_file_write_def
      stored_fields sized_fields checked_names)

definition file_move_fields :: "file_move_params jfield list" where
  "file_move_fields =
     [field ''from'' jstring fmp_From fmp_From_update,
      field ''to'' jstring fmp_To fmp_To_update]"

definition zero_file_move :: file_move_params where
  "zero_file_move =
     \<lparr>fmp_From = [], fmp_To = []\<rparr>"

definition received_file_move :: "file_move_params \<Rightarrow> file_move_params" where
  "received_file_move p =
     \<lparr>fmp_From = clean (fmp_From p), fmp_To = clean (fmp_To p)\<rparr>"

interpretation file_move_codec: json_struct file_move_fields zero_file_move "\<lambda>_. True" received_file_move 0
  by unfold_locales (simp_all add: file_move_fields_def zero_file_move_def received_file_move_def stored_fields
      sized_fields checked_names)

definition directory_create_fields :: "directory_create_params jfield list" where
  "directory_create_fields =
     [field ''path'' jstring dcp_Path dcp_Path_update,
      omitted ''recursive'' jbool dcp_Recursive dcp_Recursive_update]"

definition zero_directory_create :: directory_create_params where
  "zero_directory_create =
     \<lparr>dcp_Path = [], dcp_Recursive = False\<rparr>"

definition received_directory_create :: "directory_create_params \<Rightarrow> directory_create_params" where
  "received_directory_create p =
     \<lparr>dcp_Path = clean (dcp_Path p), dcp_Recursive = dcp_Recursive p\<rparr>"

interpretation directory_create_codec: json_struct directory_create_fields zero_directory_create "\<lambda>_. True" received_directory_create 0
  by unfold_locales (simp_all add: directory_create_fields_def zero_directory_create_def
      received_directory_create_def stored_fields sized_fields checked_names)

definition read_query_fields :: "read_query_params jfield list" where
  "read_query_fields =
     [field ''operation'' jstring rqp_Operation rqp_Operation_update,
      omitted ''repository_path'' jstring rqp_RepositoryPath rqp_RepositoryPath_update,
      omitted ''pathspec'' jstring rqp_Pathspec rqp_Pathspec_update,
      omitted ''staged'' jbool rqp_Staged rqp_Staged_update,
      omitted ''limit'' jint rqp_Limit rqp_Limit_update,
      omitted ''include_all'' jbool rqp_IncludeAll rqp_IncludeAll_update,
      omitted ''container'' jstring rqp_Container rqp_Container_update,
      omitted ''tail'' jint rqp_Tail rqp_Tail_update,
      omitted ''since'' jstring rqp_Since rqp_Since_update,
      omitted ''unit'' jstring rqp_Unit rqp_Unit_update,
      omitted ''session'' jstring rqp_Session rqp_Session_update,
      omitted ''pane_id'' jstring rqp_PaneID rqp_PaneID_update,
      omitted ''lines'' jint rqp_Lines rqp_Lines_update,
      omitted ''owner'' jstring rqp_Owner rqp_Owner_update,
      omitted ''repository'' jstring rqp_Repository rqp_Repository_update,
      omitted ''number'' jint rqp_Number rqp_Number_update]"

definition no_query :: read_query_params where
  "no_query =
     \<lparr>rqp_Operation = [], rqp_RepositoryPath = [], rqp_Pathspec = [], rqp_Staged = False, rqp_Limit = 0,
      rqp_IncludeAll = False, rqp_Container = [], rqp_Tail = 0, rqp_Since = [], rqp_Unit = [], rqp_Session = [],
      rqp_PaneID = [], rqp_Lines = 0, rqp_Owner = [], rqp_Repository = [], rqp_Number = 0\<rparr>"

definition received_query :: "read_query_params \<Rightarrow> read_query_params" where
  "received_query p =
     \<lparr>rqp_Operation = clean (rqp_Operation p), rqp_RepositoryPath = clean (rqp_RepositoryPath p),
      rqp_Pathspec = clean (rqp_Pathspec p), rqp_Staged = rqp_Staged p, rqp_Limit = rqp_Limit p,
      rqp_IncludeAll = rqp_IncludeAll p, rqp_Container = clean (rqp_Container p), rqp_Tail = rqp_Tail p,
      rqp_Since = clean (rqp_Since p), rqp_Unit = clean (rqp_Unit p), rqp_Session = clean (rqp_Session p),
      rqp_PaneID = clean (rqp_PaneID p), rqp_Lines = rqp_Lines p, rqp_Owner = clean (rqp_Owner p),
      rqp_Repository = clean (rqp_Repository p), rqp_Number = rqp_Number p\<rparr>"

definition query_fits :: "read_query_params \<Rightarrow> bool" where
  "query_fits p \<longleftrightarrow> in_i64 (rqp_Limit p) \<and> in_i64 (rqp_Tail p) \<and>
     in_i64 (rqp_Lines p) \<and> in_i64 (rqp_Number p)"

interpretation read_query_codec: json_struct read_query_fields no_query query_fits received_query 0
  by unfold_locales (simp_all add: read_query_fields_def no_query_def received_query_def query_fits_def
      stored_fields sized_fields checked_names)

section \<open>Results\<close>

definition ping_fields :: "ping_result jfield list" where
  "ping_fields =
     [field ''status'' jstring pg_Status pg_Status_update]"

definition zero_ping :: ping_result where
  "zero_ping =
     \<lparr>pg_Status = []\<rparr>"

definition received_ping :: "ping_result \<Rightarrow> ping_result" where
  "received_ping p =
     \<lparr>pg_Status = clean (pg_Status p)\<rparr>"

interpretation ping_codec: json_struct ping_fields zero_ping "\<lambda>_. True" received_ping 0
  by unfold_locales (simp_all add: ping_fields_def zero_ping_def received_ping_def stored_fields sized_fields
      checked_names)

definition command_result_fields :: "command_result jfield list" where
  "command_result_fields =
     [field ''process_id'' jstring cr_ProcessID cr_ProcessID_update,
      field ''os_pid'' jint cr_OSPID cr_OSPID_update,
      field ''stdout'' jstring cr_Stdout cr_Stdout_update,
      field ''stderr'' jstring cr_Stderr cr_Stderr_update,
      field ''exit_code'' (jptr jint) cr_ExitCode cr_ExitCode_update,
      field ''timed_out'' jbool cr_TimedOut cr_TimedOut_update,
      omitted ''sandbox_violation'' jbool cr_SandboxViolation cr_SandboxViolation_update,
      omitted ''stdout_truncated'' jbool cr_StdoutTruncated cr_StdoutTruncated_update,
      omitted ''stderr_truncated'' jbool cr_StderrTruncated cr_StderrTruncated_update]"

definition zero_command_result :: command_result where
  "zero_command_result =
     \<lparr>cr_ProcessID = [], cr_OSPID = 0, cr_Stdout = [], cr_Stderr = [], cr_ExitCode = None,
      cr_TimedOut = False, cr_SandboxViolation = False, cr_StdoutTruncated = False,
      cr_StderrTruncated = False\<rparr>"

definition received_command_result :: "command_result \<Rightarrow> command_result" where
  "received_command_result p =
     \<lparr>cr_ProcessID = clean (cr_ProcessID p), cr_OSPID = cr_OSPID p, cr_Stdout = clean (cr_Stdout p),
      cr_Stderr = clean (cr_Stderr p), cr_ExitCode = cr_ExitCode p, cr_TimedOut = cr_TimedOut p,
      cr_SandboxViolation = cr_SandboxViolation p, cr_StdoutTruncated = cr_StdoutTruncated p,
      cr_StderrTruncated = cr_StderrTruncated p\<rparr>"

definition command_result_fits :: "command_result \<Rightarrow> bool" where
  "command_result_fits p \<longleftrightarrow> in_i64 (cr_OSPID p) \<and> pred_option in_i64 (cr_ExitCode p)"

interpretation command_result_codec: json_struct command_result_fields zero_command_result command_result_fits received_command_result 0
  by unfold_locales (simp_all add: command_result_fields_def zero_command_result_def
      received_command_result_def command_result_fits_def stored_fields sized_fields checked_names)

definition process_start_result_fields :: "process_start_result jfield list" where
  "process_start_result_fields =
     [field ''process_id'' jstring psr_ProcessID psr_ProcessID_update,
      field ''os_pid'' jint psr_OSPID psr_OSPID_update]"

definition zero_process_start_result :: process_start_result where
  "zero_process_start_result =
     \<lparr>psr_ProcessID = [], psr_OSPID = 0\<rparr>"

definition received_process_start_result :: "process_start_result \<Rightarrow> process_start_result" where
  "received_process_start_result p =
     \<lparr>psr_ProcessID = clean (psr_ProcessID p), psr_OSPID = psr_OSPID p\<rparr>"

interpretation process_start_result_codec: json_struct process_start_result_fields zero_process_start_result "\<lambda>p. in_i64 (psr_OSPID p)" received_process_start_result 0
  by unfold_locales (simp_all add: process_start_result_fields_def zero_process_start_result_def
      received_process_start_result_def stored_fields sized_fields checked_names)

definition process_read_result_fields :: "process_read_result jfield list" where
  "process_read_result_fields =
     [field ''stdout'' jstring prr_Stdout prr_Stdout_update,
      field ''stderr'' jstring prr_Stderr prr_Stderr_update,
      field ''next_stdout_offset'' jint prr_NextStdoutOffset prr_NextStdoutOffset_update,
      field ''next_stderr_offset'' jint prr_NextStderrOffset prr_NextStderrOffset_update,
      field ''stdout_truncated_before'' jbool prr_StdoutTruncatedBefore prr_StdoutTruncatedBefore_update,
      field ''stderr_truncated_before'' jbool prr_StderrTruncatedBefore prr_StderrTruncatedBefore_update,
      field ''exit_code'' (jptr jint) prr_ExitCode prr_ExitCode_update]"

definition zero_process_read_result :: process_read_result where
  "zero_process_read_result =
     \<lparr>prr_Stdout = [], prr_Stderr = [], prr_NextStdoutOffset = 0, prr_NextStderrOffset = 0,
      prr_StdoutTruncatedBefore = False, prr_StderrTruncatedBefore = False, prr_ExitCode = None\<rparr>"

definition received_process_read_result :: "process_read_result \<Rightarrow> process_read_result" where
  "received_process_read_result p =
     \<lparr>prr_Stdout = clean (prr_Stdout p), prr_Stderr = clean (prr_Stderr p),
      prr_NextStdoutOffset = prr_NextStdoutOffset p, prr_NextStderrOffset = prr_NextStderrOffset p,
      prr_StdoutTruncatedBefore = prr_StdoutTruncatedBefore p,
      prr_StderrTruncatedBefore = prr_StderrTruncatedBefore p, prr_ExitCode = prr_ExitCode p\<rparr>"

definition process_read_result_fits :: "process_read_result \<Rightarrow> bool" where
  "process_read_result_fits p \<longleftrightarrow> in_i64 (prr_NextStdoutOffset p) \<and>
     in_i64 (prr_NextStderrOffset p) \<and> pred_option in_i64 (prr_ExitCode p)"

interpretation process_read_result_codec: json_struct process_read_result_fields zero_process_read_result process_read_result_fits received_process_read_result 0
  by unfold_locales (simp_all add: process_read_result_fields_def zero_process_read_result_def
      received_process_read_result_def process_read_result_fits_def stored_fields sized_fields checked_names)

definition process_wait_result_fields :: "process_wait_result jfield list" where
  "process_wait_result_fields =
     [field ''exit_code'' (jptr jint) pwr_ExitCode pwr_ExitCode_update,
      field ''timed_out'' jbool pwr_TimedOut pwr_TimedOut_update]"

definition zero_process_wait_result :: process_wait_result where
  "zero_process_wait_result =
     \<lparr>pwr_ExitCode = None, pwr_TimedOut = False\<rparr>"

definition received_process_wait_result :: "process_wait_result \<Rightarrow> process_wait_result" where
  "received_process_wait_result p =
     \<lparr>pwr_ExitCode = pwr_ExitCode p, pwr_TimedOut = pwr_TimedOut p\<rparr>"

interpretation process_wait_result_codec: json_struct process_wait_result_fields zero_process_wait_result "\<lambda>p. pred_option in_i64 (pwr_ExitCode p)" received_process_wait_result 0
  by unfold_locales (simp_all add: process_wait_result_fields_def zero_process_wait_result_def
      received_process_wait_result_def stored_fields sized_fields checked_names)

definition process_terminate_result_fields :: "bool jfield list" where
  "process_terminate_result_fields =
     [field ''terminated'' jbool (\<lambda>p. p) (\<lambda>f. f)]"

interpretation process_terminate_result_codec: json_struct process_terminate_result_fields False "\<lambda>_. True" id 0
  by unfold_locales (simp_all add: process_terminate_result_fields_def stored_fields sized_fields checked_names)

definition process_summary_fields :: "process_summary jfield list" where
  "process_summary_fields =
     [field ''process_id'' jstring psm_ProcessID psm_ProcessID_update,
      field ''os_pid'' jint psm_OSPID psm_OSPID_update,
      field ''state'' jstring psm_State psm_State_update,
      omitted ''exit_code'' (jptr jint) psm_ExitCode psm_ExitCode_update,
      field ''started_at'' jstring psm_StartedAt psm_StartedAt_update]"

definition zero_process_summary :: process_summary where
  "zero_process_summary =
     \<lparr>psm_ProcessID = [], psm_OSPID = 0, psm_State = [], psm_ExitCode = None, psm_StartedAt = []\<rparr>"

definition received_process_summary :: "process_summary \<Rightarrow> process_summary" where
  "received_process_summary p =
     \<lparr>psm_ProcessID = clean (psm_ProcessID p), psm_OSPID = psm_OSPID p, psm_State = clean (psm_State p),
      psm_ExitCode = psm_ExitCode p, psm_StartedAt = clean (psm_StartedAt p)\<rparr>"

definition process_summary_fits :: "process_summary \<Rightarrow> bool" where
  "process_summary_fits p \<longleftrightarrow> in_i64 (psm_OSPID p) \<and> pred_option in_i64 (psm_ExitCode p)"

interpretation process_summary_codec: json_struct process_summary_fields zero_process_summary process_summary_fits received_process_summary 0
  by unfold_locales (simp_all add: process_summary_fields_def zero_process_summary_def
      received_process_summary_def process_summary_fits_def stored_fields sized_fields checked_names)

definition execution_fields :: "execution jfield list" where
  "execution_fields =
     [field ''ExecutionID'' jstring ex_ExecutionID ex_ExecutionID_update,
      field ''ProcessID'' jstring ex_ProcessID ex_ProcessID_update,
      field ''DeviceID'' jstring ex_DeviceID ex_DeviceID_update,
      field ''Mode'' jstring ex_Mode ex_Mode_update,
      field ''Command'' jstring ex_Command ex_Command_update,
      field ''Cwd'' jstring ex_Cwd ex_Cwd_update,
      field ''StartedAt'' jtime ex_StartedAt ex_StartedAt_update,
      field ''EndedAt'' (jptr jtime) ex_EndedAt ex_EndedAt_update,
      field ''ExitCode'' (jptr jint) ex_ExitCode ex_ExitCode_update,
      field ''ClientContextID'' jstring ex_ClientContextID ex_ClientContextID_update,
      field ''ClientSubject'' jstring ex_ClientSubject ex_ClientSubject_update]"

definition zero_execution :: execution where
  "zero_execution =
     \<lparr>ex_ExecutionID = [], ex_ProcessID = [], ex_DeviceID = [], ex_Mode = [], ex_Command = [], ex_Cwd = [],
      ex_StartedAt = t_wall zero_time, ex_EndedAt = None, ex_ExitCode = None, ex_ClientContextID = [],
      ex_ClientSubject = []\<rparr>"

definition received_execution :: "execution \<Rightarrow> execution" where
  "received_execution p =
     \<lparr>ex_ExecutionID = clean (ex_ExecutionID p), ex_ProcessID = clean (ex_ProcessID p),
      ex_DeviceID = clean (ex_DeviceID p), ex_Mode = clean (ex_Mode p), ex_Command = clean (ex_Command p),
      ex_Cwd = clean (ex_Cwd p), ex_StartedAt = ex_StartedAt p, ex_EndedAt = ex_EndedAt p,
      ex_ExitCode = ex_ExitCode p, ex_ClientContextID = clean (ex_ClientContextID p),
      ex_ClientSubject = clean (ex_ClientSubject p)\<rparr>"

definition execution_fits :: "execution \<Rightarrow> bool" where
  "execution_fits p \<longleftrightarrow> recordable (ex_StartedAt p) \<and>
     pred_option recordable (ex_EndedAt p) \<and> pred_option in_i64 (ex_ExitCode p)"

interpretation execution_codec: json_struct execution_fields zero_execution execution_fits received_execution 0
  by unfold_locales (simp_all add: execution_fields_def zero_execution_def received_execution_def
      execution_fits_def stored_fields sized_fields checked_names)

definition file_read_result_fields :: "file_read_result jfield list" where
  "file_read_result_fields =
     [field ''content_base64'' jstring frr_ContentBase64 frr_ContentBase64_update,
      field ''size'' jint frr_Size frr_Size_update]"

definition zero_file_read_result :: file_read_result where
  "zero_file_read_result =
     \<lparr>frr_ContentBase64 = [], frr_Size = 0\<rparr>"

definition received_file_read_result :: "file_read_result \<Rightarrow> file_read_result" where
  "received_file_read_result p =
     \<lparr>frr_ContentBase64 = clean (frr_ContentBase64 p), frr_Size = frr_Size p\<rparr>"

interpretation file_read_result_codec: json_struct file_read_result_fields zero_file_read_result "\<lambda>p. in_i64 (frr_Size p)" received_file_read_result 0
  by unfold_locales (simp_all add: file_read_result_fields_def zero_file_read_result_def
      received_file_read_result_def stored_fields sized_fields checked_names)

definition file_stat_result_fields :: "file_stat_result jfield list" where
  "file_stat_result_fields =
     [field ''size'' jint fsr_Size fsr_Size_update,
      field ''mode'' jstring fsr_Mode fsr_Mode_update,
      field ''mod_time'' jstring fsr_ModTime fsr_ModTime_update,
      field ''is_dir'' jbool fsr_IsDir fsr_IsDir_update]"

definition zero_file_stat_result :: file_stat_result where
  "zero_file_stat_result =
     \<lparr>fsr_Size = 0, fsr_Mode = [], fsr_ModTime = [], fsr_IsDir = False\<rparr>"

definition received_file_stat_result :: "file_stat_result \<Rightarrow> file_stat_result" where
  "received_file_stat_result p =
     \<lparr>fsr_Size = fsr_Size p, fsr_Mode = clean (fsr_Mode p), fsr_ModTime = clean (fsr_ModTime p),
      fsr_IsDir = fsr_IsDir p\<rparr>"

interpretation file_stat_result_codec: json_struct file_stat_result_fields zero_file_stat_result "\<lambda>p. in_i64 (fsr_Size p)" received_file_stat_result 0
  by unfold_locales (simp_all add: file_stat_result_fields_def zero_file_stat_result_def
      received_file_stat_result_def stored_fields sized_fields checked_names)

definition file_entry_fields :: "file_entry jfield list" where
  "file_entry_fields =
     [field ''name'' jstring fe_Name fe_Name_update,
      field ''size'' jint fe_Size fe_Size_update,
      field ''mode'' jstring fe_Mode fe_Mode_update,
      field ''mod_time'' jstring fe_ModTime fe_ModTime_update,
      field ''is_dir'' jbool fe_IsDir fe_IsDir_update]"

definition zero_file_entry :: file_entry where
  "zero_file_entry =
     \<lparr>fe_Name = [], fe_Size = 0, fe_Mode = [], fe_ModTime = [], fe_IsDir = False\<rparr>"

definition received_file_entry :: "file_entry \<Rightarrow> file_entry" where
  "received_file_entry p =
     \<lparr>fe_Name = clean (fe_Name p), fe_Size = fe_Size p, fe_Mode = clean (fe_Mode p),
      fe_ModTime = clean (fe_ModTime p), fe_IsDir = fe_IsDir p\<rparr>"

interpretation file_entry_codec: json_struct file_entry_fields zero_file_entry "\<lambda>p. in_i64 (fe_Size p)" received_file_entry 0
  by unfold_locales (simp_all add: file_entry_fields_def zero_file_entry_def received_file_entry_def
      stored_fields sized_fields checked_names)

definition read_query_result_fields :: "read_query_result jfield list" where
  "read_query_result_fields =
     [field ''stdout'' jstring rqr_Stdout rqr_Stdout_update,
      omitted ''stderr'' jstring rqr_Stderr rqr_Stderr_update,
      omitted ''exit_code'' (jptr jint) rqr_ExitCode rqr_ExitCode_update,
      omitted ''timed_out'' jbool rqr_TimedOut rqr_TimedOut_update,
      omitted ''stdout_truncated'' jbool rqr_StdoutTruncated rqr_StdoutTruncated_update,
      omitted ''stderr_truncated'' jbool rqr_StderrTruncated rqr_StderrTruncated_update]"

definition zero_query_result :: read_query_result where
  "zero_query_result =
     \<lparr>rqr_Stdout = [], rqr_Stderr = [], rqr_ExitCode = None, rqr_TimedOut = False,
      rqr_StdoutTruncated = False, rqr_StderrTruncated = False\<rparr>"

definition received_query_result :: "read_query_result \<Rightarrow> read_query_result" where
  "received_query_result p =
     \<lparr>rqr_Stdout = clean (rqr_Stdout p), rqr_Stderr = clean (rqr_Stderr p), rqr_ExitCode = rqr_ExitCode p,
      rqr_TimedOut = rqr_TimedOut p, rqr_StdoutTruncated = rqr_StdoutTruncated p,
      rqr_StderrTruncated = rqr_StderrTruncated p\<rparr>"

interpretation read_query_result_codec: json_struct read_query_result_fields zero_query_result "\<lambda>p. pred_option in_i64 (rqr_ExitCode p)" received_query_result 0
  by unfold_locales (simp_all add: read_query_result_fields_def zero_query_result_def received_query_result_def
      stored_fields sized_fields checked_names)

text \<open>
  Lists in results: \<open>process.list\<close> and \<open>execution.list\<close> leave an empty list nil, \<open>file.list\<close> does not.
\<close>

definition process_list_fields :: "process_summary list jfield list" where
  "process_list_fields =
     [field ''processes'' (jslice True (jstruct process_summary_fields zero_process_summary)) (\<lambda>xs. xs) (\<lambda>f. f)]"

definition execution_list_result_fields :: "execution list jfield list" where
  "execution_list_result_fields =
     [field ''executions'' (jslice True (jstruct execution_fields zero_execution)) (\<lambda>xs. xs) (\<lambda>f. f)]"

definition execution_get_result_fields :: "execution jfield list" where
  "execution_get_result_fields = [field ''execution'' (jstruct execution_fields zero_execution) (\<lambda>x. x) (\<lambda>f. f)]"

definition file_list_fields :: "file_entry list jfield list" where
  "file_list_fields =
     [field ''entries'' (jslice False (jstruct file_entry_fields zero_file_entry)) (\<lambda>xs. xs) (\<lambda>f. f)]"

interpretation process_list_codec: json_struct process_list_fields "[]" "list_all process_summary_fits" "map received_process_summary" 2
  by unfold_locales (simp_all add: process_list_fields_def store_field [OF carries_slice [OF
      process_summary_codec.carried]] sized_field [OF carries_slice [OF process_summary_codec.carried]] checked_names)

interpretation execution_list_result_codec: json_struct execution_list_result_fields "[]" "list_all execution_fits" "map received_execution" 2
  by unfold_locales (simp_all add: execution_list_result_fields_def store_field [OF carries_slice [OF
      execution_codec.carried]] sized_field [OF carries_slice [OF execution_codec.carried]] checked_names)

interpretation execution_get_result_codec: json_struct execution_get_result_fields zero_execution "execution_fits" "received_execution" 1
  by unfold_locales (simp_all add: execution_get_result_fields_def store_field [OF execution_codec.carried]
      sized_field [OF execution_codec.carried] checked_names)

interpretation file_list_codec: json_struct file_list_fields "[]" "list_all (\<lambda>p. in_i64 (fe_Size p))" "map received_file_entry" 2
  by unfold_locales (simp_all add: file_list_fields_def store_field [OF carries_slice [OF
      file_entry_codec.carried]] sized_field [OF carries_slice [OF file_entry_codec.carried]] checked_names)

end
