(* ===== verification/GitHub.thy ===== *)
theory GitHub
  imports Structs
begin

text \<open>
  GitHub's answers (agent/read_query.go): the three structs the Agent decodes them into, with their keys,
  and the JSON it forwards. What is not a field of the struct of the operation is dropped.
\<close>

section \<open>The structs\<close>

definition github_repository_fields :: "github_repository_result jfield list" where
  "github_repository_fields =
     [field ''name'' jstring gr_Name gr_Name_update,
      field ''full_name'' jstring gr_FullName gr_FullName_update,
      field ''description'' jstring gr_Description gr_Description_update,
      field ''html_url'' jstring gr_HTMLURL gr_HTMLURL_update,
      field ''default_branch'' jstring gr_DefaultBranch gr_DefaultBranch_update,
      field ''private'' jbool gr_Private gr_Private_update,
      field ''archived'' jbool gr_Archived gr_Archived_update]"

definition no_repository :: github_repository_result where
  "no_repository =
     \<lparr>gr_Name = [], gr_FullName = [], gr_Description = [], gr_HTMLURL = [], gr_DefaultBranch = [],
      gr_Private = False, gr_Archived = False\<rparr>"

definition received_repository :: "github_repository_result \<Rightarrow> github_repository_result" where
  "received_repository r =
     \<lparr>gr_Name = clean (gr_Name r), gr_FullName = clean (gr_FullName r), gr_Description = clean (gr_Description r),
      gr_HTMLURL = clean (gr_HTMLURL r), gr_DefaultBranch = clean (gr_DefaultBranch r),
      gr_Private = gr_Private r, gr_Archived = gr_Archived r\<rparr>"

interpretation github_repository_codec: json_struct github_repository_fields no_repository "\<lambda>_. True" received_repository 0
  by unfold_locales (simp_all add: github_repository_fields_def no_repository_def received_repository_def stored_fields
      sized_fields checked_names)

text \<open>The user of an issue and of a pull request, a struct of one field.\<close>

definition github_user_fields :: "string jfield list" where
  "github_user_fields = [field ''login'' jstring (\<lambda>u. u) (\<lambda>f. f)]"

interpretation github_user_codec: json_struct github_user_fields "[]" "\<lambda>_. True" clean 0
  by unfold_locales (simp_all add: github_user_fields_def stored_fields sized_fields checked_names)

abbreviation jlogin :: "string jcodec" where
  "jlogin \<equiv> jstruct github_user_fields []"

definition github_issue_fields :: "github_issue_result jfield list" where
  "github_issue_fields =
     [field ''number'' jint gi_Number gi_Number_update,
      field ''title'' jstring gi_Title gi_Title_update,
      field ''body'' jstring gi_Body gi_Body_update,
      field ''state'' jstring gi_State gi_State_update,
      field ''html_url'' jstring gi_HTMLURL gi_HTMLURL_update,
      field ''created_at'' jstring gi_CreatedAt gi_CreatedAt_update,
      field ''updated_at'' jstring gi_UpdatedAt gi_UpdatedAt_update,
      field ''user'' jlogin gi_User_Login gi_User_Login_update]"

definition no_issue :: github_issue_result where
  "no_issue =
     \<lparr>gi_Number = 0, gi_Title = [], gi_Body = [], gi_State = [], gi_HTMLURL = [], gi_CreatedAt = [],
      gi_UpdatedAt = [], gi_User_Login = []\<rparr>"

definition received_issue :: "github_issue_result \<Rightarrow> github_issue_result" where
  "received_issue r =
     \<lparr>gi_Number = gi_Number r, gi_Title = clean (gi_Title r), gi_Body = clean (gi_Body r),
      gi_State = clean (gi_State r), gi_HTMLURL = clean (gi_HTMLURL r), gi_CreatedAt = clean (gi_CreatedAt r),
      gi_UpdatedAt = clean (gi_UpdatedAt r), gi_User_Login = clean (gi_User_Login r)\<rparr>"

lemmas user_field = store_field [OF github_user_codec.carried, simplified] sized_field [OF github_user_codec.carried, simplified]

interpretation github_issue_codec: json_struct github_issue_fields no_issue "\<lambda>r. in_i64 (gi_Number r)" received_issue 1
  by unfold_locales (simp_all add: github_issue_fields_def no_issue_def received_issue_def stored_fields
      sized_fields user_field checked_names)

definition github_pull_request_fields :: "github_pull_request_result jfield list" where
  "github_pull_request_fields =
     [field ''number'' jint gq_Number gq_Number_update,
      field ''title'' jstring gq_Title gq_Title_update,
      field ''body'' jstring gq_Body gq_Body_update,
      field ''state'' jstring gq_State gq_State_update,
      field ''html_url'' jstring gq_HTMLURL gq_HTMLURL_update,
      field ''draft'' jbool gq_Draft gq_Draft_update,
      field ''merged'' jbool gq_Merged gq_Merged_update,
      field ''created_at'' jstring gq_CreatedAt gq_CreatedAt_update,
      field ''updated_at'' jstring gq_UpdatedAt gq_UpdatedAt_update,
      field ''user'' jlogin gq_User_Login gq_User_Login_update]"

definition no_pull_request :: github_pull_request_result where
  "no_pull_request =
     \<lparr>gq_Number = 0, gq_Title = [], gq_Body = [], gq_State = [], gq_HTMLURL = [], gq_Draft = False,
      gq_Merged = False, gq_CreatedAt = [], gq_UpdatedAt = [], gq_User_Login = []\<rparr>"

definition received_pull_request :: "github_pull_request_result \<Rightarrow> github_pull_request_result" where
  "received_pull_request r =
     \<lparr>gq_Number = gq_Number r, gq_Title = clean (gq_Title r), gq_Body = clean (gq_Body r),
      gq_State = clean (gq_State r), gq_HTMLURL = clean (gq_HTMLURL r), gq_Draft = gq_Draft r,
      gq_Merged = gq_Merged r, gq_CreatedAt = clean (gq_CreatedAt r), gq_UpdatedAt = clean (gq_UpdatedAt r),
      gq_User_Login = clean (gq_User_Login r)\<rparr>"

interpretation github_pull_request_codec: json_struct github_pull_request_fields no_pull_request
    "\<lambda>r. in_i64 (gq_Number r)" received_pull_request 1
  by unfold_locales (simp_all add: github_pull_request_fields_def no_pull_request_def received_pull_request_def stored_fields
      sized_fields user_field checked_names)

section \<open>Decoding and forwarding\<close>

definition unmarshal_body :: "'s jfield list \<Rightarrow> 's \<Rightarrow> bytes \<Rightarrow> 's option" where
  "unmarshal_body fds zero body =
     (case json_Unmarshal (stores fds) zero body of Inl err \<Rightarrow> None | Inr r \<Rightarrow> Some r)"

fun output_json :: "github_output \<Rightarrow> json" where
  "output_json NoOutput = JNull"
| "output_json (RepositoryOutput r) = encode_struct github_repository_fields r"
| "output_json (IssueOutput r) = encode_struct github_issue_fields r"
| "output_json (PullRequestOutput r) = encode_struct github_pull_request_fields r"

definition encoding_json :: github_json where
  "encoding_json =
     \<lparr>gj_repository = unmarshal_body github_repository_fields no_repository,
      gj_issue = unmarshal_body github_issue_fields no_issue,
      gj_pull = unmarshal_body github_pull_request_fields no_pull_request,
      gj_encode = (\<lambda>v. Some (json_print (output_json v)))\<rparr>"

text \<open>The keys of an answer.\<close>

definition github_keys :: "string \<Rightarrow> string list" where
  "github_keys oper =
     (if oper = readQueryGitHubRepo
      then [''name'', ''full_name'', ''description'', ''html_url'', ''default_branch'', ''private'', ''archived'']
      else if oper = readQueryGitHubIssue
      then [''number'', ''title'', ''body'', ''state'', ''html_url'', ''created_at'', ''updated_at'', ''user'']
      else [''number'', ''title'', ''body'', ''state'', ''html_url'', ''draft'', ''merged'', ''created_at'', ''updated_at'', ''user''])"

section \<open>Lemmas\<close>

lemma decode_struct_keeps:
  assumes "decode_struct (stores fds) j s = Some s'" and "json_clean j = j" and "P s"
    and keeps: "\<And>f v s s'. f \<in> set fds \<Longrightarrow> json_clean v = v \<Longrightarrow> P s \<Longrightarrow> jf_set f v s = Some s' \<Longrightarrow> P s'"
  shows "P s'"
proof -
  have "P (fst (fold (set_field (stores fds)) fs (s, ok)))"
    if "\<forall>(k, v) \<in> set fs. json_clean v = v" "P s" for fs s ok
    using that
  proof (induction fs arbitrary: s ok)
    case (Cons x fs)
    obtain k v where x: "x = (k, v)" by (cases x)
    obtain s1 ok1 where step: "set_field (stores fds) (k, v) (s, ok) = (s1, ok1)" by (cases "set_field (stores fds) (k, v) (s, ok)")
    have "P s1" using step Cons.prems x keeps [of _ v s]
      by (auto simp: set_field_def stores_def find_Some_iff split: option.splits) (meson nth_mem)+
    then show ?case using Cons x step by simp
  qed simp
  then have run: "fold (set_field (stores fds)) fs (s, True) = (s1, ok) \<Longrightarrow> \<forall>(k, v) \<in> set fs. json_clean v = v \<Longrightarrow> P s1"
    for fs s1 ok using assms(3) by (metis fst_conv)
  show ?thesis
  proof (cases j)
    case (JObj fs)
    have "map (\<lambda>(k, v). (clean k, json_clean v)) fs = map id fs" using assms(2) JObj by (simp add: comp_def case_prod_unfold)
    then have "\<forall>(k, v) \<in> set fs. json_clean v = v" unfolding map_eq_conv by auto
    then show ?thesis using run assms(1) JObj by (auto simp: decode_struct_def split: prod.splits if_splits)
  qed (use assms(1,3) in \<open>simp_all add: decode_struct_def\<close>)
qed

lemma decoded_string: "jc_dec jstring v x = Some y \<Longrightarrow> json_clean v = v \<Longrightarrow> clean x = x \<Longrightarrow> clean y = y"
  by (auto simp: jstring_def split: json.splits)

lemma decoded_int: "jc_dec jint v x = Some y \<Longrightarrow> in_i64 x \<Longrightarrow> in_i64 y"
  by (auto simp: jint_def atoi_def Let_def split: json.splits if_splits)

lemma decoded_login: "jc_dec jlogin v x = Some y \<Longrightarrow> json_clean v = v \<Longrightarrow> clean x = x \<Longrightarrow> clean y = y"
proof -
  assume dec: "jc_dec jlogin v x = Some y" and v: "json_clean v = v" and x: "clean x = x"
  have "decode_struct (stores github_user_fields) v x = Some y" using dec by (simp add: jstruct_def)
  then show "clean y = y" using v x
    by (rule decode_struct_keeps) (auto simp: github_user_fields_def field_def dest: decoded_string)
qed

text \<open>What was decoded from a body is read back unchanged.\<close>

lemma repository_kept: "received_repository r = r \<longleftrightarrow>
    clean (gr_Name r) = gr_Name r \<and> clean (gr_FullName r) = gr_FullName r \<and> clean (gr_Description r) = gr_Description r \<and>
    clean (gr_HTMLURL r) = gr_HTMLURL r \<and> clean (gr_DefaultBranch r) = gr_DefaultBranch r"
  by (cases r) (simp add: received_repository_def)

lemma issue_kept: "received_issue r = r \<longleftrightarrow>
    clean (gi_Title r) = gi_Title r \<and> clean (gi_Body r) = gi_Body r \<and> clean (gi_State r) = gi_State r \<and>
    clean (gi_HTMLURL r) = gi_HTMLURL r \<and> clean (gi_CreatedAt r) = gi_CreatedAt r \<and>
    clean (gi_UpdatedAt r) = gi_UpdatedAt r \<and> clean (gi_User_Login r) = gi_User_Login r"
  by (cases r) (simp add: received_issue_def)

lemma pull_request_kept: "received_pull_request r = r \<longleftrightarrow>
    clean (gq_Title r) = gq_Title r \<and> clean (gq_Body r) = gq_Body r \<and> clean (gq_State r) = gq_State r \<and>
    clean (gq_HTMLURL r) = gq_HTMLURL r \<and> clean (gq_CreatedAt r) = gq_CreatedAt r \<and>
    clean (gq_UpdatedAt r) = gq_UpdatedAt r \<and> clean (gq_User_Login r) = gq_User_Login r"
  by (cases r) (simp add: received_pull_request_def)

lemma unmarshal_keeps:
  assumes "unmarshal_body fds zero body = Some r" and "P zero"
    and "\<And>f v s s'. f \<in> set fds \<Longrightarrow> json_clean v = v \<Longrightarrow> P s \<Longrightarrow> jf_set f v s = Some s' \<Longrightarrow> P s'"
  shows "P r"
proof -
  obtain j where "json_parse body = Some j" "decode_struct (stores fds) j zero = Some r"
    using assms(1) by (auto simp: unmarshal_body_def json_Unmarshal_def split: option.splits sum.splits)
  then show ?thesis using decode_struct_keeps [of fds j zero r P] assms(2,3) json_parse_clean by blast
qed

lemmas decoded_fields = field_def decoded_string decoded_int decoded_login

lemma decoded_repository:
  "unmarshal_body github_repository_fields no_repository body = Some r \<Longrightarrow> received_repository r = r"
  by (erule unmarshal_keeps)
    (auto simp: repository_kept no_repository_def github_repository_fields_def decoded_fields)

lemma decoded_issue:
  "unmarshal_body github_issue_fields no_issue body = Some r \<Longrightarrow> received_issue r = r \<and> in_i64 (gi_Number r)"
  by (erule unmarshal_keeps)
    (auto simp: issue_kept no_issue_def github_issue_fields_def decoded_fields in_i64_def [of 0])

lemma decoded_pull_request:
  "unmarshal_body github_pull_request_fields no_pull_request body = Some r \<Longrightarrow>
   received_pull_request r = r \<and> in_i64 (gq_Number r)"
  by (erule unmarshal_keeps)
    (auto simp: pull_request_kept no_pull_request_def github_pull_request_fields_def decoded_fields in_i64_def [of 0])

context json_struct
begin

lemma printed_back:
  assumes "fits s" and "Suc d < maxNestingDepth" and "list_all (\<lambda>f. jf_get f s \<noteq> None) fds"
  obtains gs where "json_parse (json_print (encode_struct fds s)) = Some (JObj gs)" and "map fst gs = map jf_name fds"
    and "unmarshal_body fds zero (json_print (encode_struct fds s)) = Some (received s)"
proof -
  let ?gs = "map (\<lambda>(k, v). (clean k, json_clean v)) (List.map_filter (\<lambda>f. map_option (Pair (jf_name f)) (jf_get f s)) fds)"
  have "List.map_filter (\<lambda>f. map_option (Pair (jf_name f)) (jf_get f s)) fds = map (\<lambda>f. (jf_name f, the (jf_get f s))) fds"
    using assms(3) by (induction fds) (auto simp: List.map_filter_simps)
  then have names: "map fst ?gs = map jf_name fds" by (simp add: clean_name)
  have parse: "json_parse (json_print (encode_struct fds s)) = Some (json_clean (encode_struct fds s))"
    using size [OF assms(1)] assms(2) by (intro parse_print) auto
  have "unmarshal_body fds zero (json_print (encode_struct fds s)) = Some (received s)"
    by (simp add: unmarshal_body_def json_Unmarshal_def parse roundtrip [OF assms(1)])
  then show ?thesis using that [OF _ names] parse by (simp add: clean_struct)
qed

end

lemma written_always: "jf_get (field name c g u) s \<noteq> None"
  by (simp add: field_def)

lemma output_read_back:
  assumes "github_decode encoding_json oper body = Inr v" and "v \<noteq> NoOutput"
  obtains fs where "json_parse (json_print (output_json v)) = Some (JObj fs)" and "map fst fs = github_keys oper"
    and "github_decode encoding_json oper (json_print (output_json v)) = Inr v"
proof -
  consider (repository) r where "oper = readQueryGitHubRepo" "v = RepositoryOutput r"
      "unmarshal_body github_repository_fields no_repository body = Some r"
    | (issue) r where "oper \<noteq> readQueryGitHubRepo" "oper = readQueryGitHubIssue" "v = IssueOutput r"
      "unmarshal_body github_issue_fields no_issue body = Some r"
    | (pull_request) r where "oper \<noteq> readQueryGitHubRepo" "oper \<noteq> readQueryGitHubIssue" "oper = readQueryGitHubPull"
      "v = PullRequestOutput r" "unmarshal_body github_pull_request_fields no_pull_request body = Some r"
    using assms by (auto simp: github_decode_def encoding_json_def split: if_splits option.splits)
  then show ?thesis
  proof cases
    case repository
    have all: "list_all (\<lambda>f. jf_get f r \<noteq> None) github_repository_fields"
      by (simp add: github_repository_fields_def written_always del: not_None_eq)
    have keys: "map jf_name github_repository_fields = github_keys oper"
      by (simp add: repository github_repository_fields_def github_keys_def)
    show ?thesis
      by (rule github_repository_codec.printed_back [OF TrueI _ all])
        (use that decoded_repository [OF repository(3)] keys repository in \<open>simp_all add: maxNestingDepth_def github_decode_def encoding_json_def\<close>)
  next
    case issue
    have all: "list_all (\<lambda>f. jf_get f r \<noteq> None) github_issue_fields"
      by (simp add: github_issue_fields_def written_always del: not_None_eq)
    have keys: "map jf_name github_issue_fields = github_keys oper"
      using issue by (simp add: github_issue_fields_def github_keys_def)
    show ?thesis
      by (rule github_issue_codec.printed_back [OF conjunct2 [OF decoded_issue [OF issue(4)]] _ all])
        (use that decoded_issue [OF issue(4)] keys issue in \<open>simp_all add: maxNestingDepth_def github_decode_def encoding_json_def\<close>)
  next
    case pull_request
    have all: "list_all (\<lambda>f. jf_get f r \<noteq> None) github_pull_request_fields"
      by (simp add: github_pull_request_fields_def written_always del: not_None_eq)
    have keys: "map jf_name github_pull_request_fields = github_keys oper"
      using pull_request by (simp add: github_pull_request_fields_def github_keys_def)
    show ?thesis
      by (rule github_pull_request_codec.printed_back [OF conjunct2 [OF decoded_pull_request [OF pull_request(5)]] _ all])
        (use that decoded_pull_request [OF pull_request(5)] keys pull_request in
          \<open>simp_all add: maxNestingDepth_def github_decode_def encoding_json_def\<close>)
  qed
qed

lemma query_answered:
  assumes "queryGitHub base gh_token github_token http_do encoding_json p = Inr res"
    and "github_request base gh_token github_token p = Inr req"
  obtains body v where "http_do req = Inr (200, body, False)" and "int (length body) \<le> MaxCommandOutputBytes"
    and "github_decode encoding_json (rqp_Operation p) body = Inr v" and "v \<noteq> NoOutput"
    and "rqr_Stdout res = json_print (output_json v)"
proof -
  have op: "rqp_Operation p \<in> {readQueryGitHubRepo, readQueryGitHubIssue, readQueryGitHubPull}"
    using assms(2) by (auto simp: github_request_def Let_def split: if_splits)
  have some: "github_decode encoding_json (rqp_Operation p) body = Inr v \<Longrightarrow> v \<noteq> NoOutput" for body v
    using op by (auto simp: github_decode_def split: if_splits option.splits)
  have whole: "take (nat (MaxCommandOutputBytes + 1)) full = full"
    if "int (length (take (nat (MaxCommandOutputBytes + 1)) full)) \<le> MaxCommandOutputBytes" for full :: bytes
    using that by (auto simp: min_def split: if_splits)
  show ?thesis
    using assms that some
    by (auto simp: queryGitHub_def Let_def encoding_json_def [THEN arg_cong, of gj_encode] whole not_less
        split: sum.splits if_splits option.splits)
qed

section \<open>Properties\<close>


subsection \<open>Witness\<close>


end
