(* ===== verification/AgentRuntime.thy ===== *)
theory AgentRuntime
  imports Processes "HOL-Library.Multiset"
begin

text \<open>
  The Agent at run time: every command, process and history operation of theories Commands,
  Processes, ProcessMgr and History, interleaved. A world is the shared state with the
  command handlers that are blocked in \<open>rec.Wait\<close>; a step is one handler up to or past its
  blocking point, one move of a goroutine that serves a process, one background completion of
  a history row, or one tick of a garbage collector. The properties span the components:
  what becomes of every history row, and that no running process is ever lost.
\<close>

section \<open>Worlds and steps\<close>

record 'db world =
  wd_agent :: "'db agent"
  wd_waiting :: "waiting list"

datatype world_event =
  EvExec "string + command_params" start_env
| EvRead "string + command_params" start_env
| EvProcessStart "string + process_start_params" start_env
| EvProc nat proc_event
| EvReturn waiting bool wait_arm utc
| EvBackground "string \<times> nat" utc
| EvMgrGC go_time
| EvSandboxGC go_time
| EvPurge utc

text \<open>
  The ids a start draws are 16 random bytes each, in hexadecimal: they are taken to be fresh. The
  clock shows a year of four digits.
\<close>

definition job_of :: "waiting \<Rightarrow> string \<times> nat" where
  "job_of w = (wt_execID w, wt_addr w)"

definition jobs :: "'db world \<Rightarrow> (string \<times> nat) list" where
  "jobs w = map job_of (wd_waiting w) @ ag_background (wd_agent w)"

definition fresh_start :: "'db sql_engine \<Rightarrow> 'db world \<Rightarrow> start_env \<Rightarrow> bool" where
  "fresh_start eng w v \<longleftrightarrow>
     sv_pid v \<notin> pr_ID ` set (ag_heap (wd_agent w)) \<and> sv_execID v \<notin> fst ` set (jobs w) \<and>
     sq_select eng (ag_db (wd_agent w)) (sv_execID v) = Inl ErrNoRows \<and> recordable (t_wall (sv_now v))"

definition with_result :: "'db world \<Rightarrow> (rpc_error + waiting) \<times> 'db agent \<Rightarrow> 'db world" where
  "with_result w res =
     (case res of
        (Inl err, s) \<Rightarrow> w\<lparr>wd_agent := s\<rparr>
      | (Inr wt, s) \<Rightarrow> w\<lparr>wd_agent := s, wd_waiting := wd_waiting w @ [wt]\<rparr>)"

inductive world_step ::
    "'db sql_engine \<Rightarrow> command_handlers \<Rightarrow> 'db world \<Rightarrow> world_event \<Rightarrow> 'db world \<Rightarrow> bool"
  for eng h where
  step_exec: "fresh_start eng w v \<Longrightarrow>
    world_step eng h w (EvExec parsed v) (with_result w (Exec_start eng h parsed v (wd_agent w)))"
| step_read: "fresh_start eng w v \<Longrightarrow>
    world_step eng h w (EvRead parsed v) (with_result w (Read_start eng h parsed v (wd_agent w)))"
| step_process_start: "fresh_start eng w v \<Longrightarrow>
    world_step eng h w (EvProcessStart parsed v)
      (w\<lparr>wd_agent := snd (process_Start eng (ch_deviceID h) parsed v (wd_agent w))\<rparr>)"
| step_proc: "a < length (ag_heap (wd_agent w)) \<Longrightarrow> proc_step (ag_heap (wd_agent w) ! a) ev r \<Longrightarrow>
    world_step eng h w (EvProc a ev)
      (w\<lparr>wd_agent := (wd_agent w)\<lparr>ag_heap := (ag_heap (wd_agent w))[a := r]\<rparr>\<rparr>)"
| step_return: "wt \<in> set (wd_waiting w) \<Longrightarrow>
    rec_Wait (ag_heap (wd_agent w) ! wt_addr wt) ctxDone arm = Some res \<Longrightarrow> recordable now \<Longrightarrow>
    world_step eng h w (EvReturn wt ctxDone arm now)
      (w\<lparr>wd_waiting := remove1 wt (wd_waiting w), wd_agent := after_wait eng wt res now (wd_agent w)\<rparr>)"
| step_background: "job \<in> set (ag_background (wd_agent w)) \<Longrightarrow>
    rec_Exited (ag_heap (wd_agent w) ! snd job) \<Longrightarrow> recordable now \<Longrightarrow>
    world_step eng h w (EvBackground job now) (w\<lparr>wd_agent := background_end eng job now (wd_agent w)\<rparr>)"
| step_mgr_gc: "world_step eng h w (EvMgrGC now)
    (w\<lparr>wd_agent := (wd_agent w)\<lparr>ag_mgr := mgr_gc_tick (ag_mgr (wd_agent w)) (ag_heap (wd_agent w)) now\<rparr>\<rparr>)"
| step_sandbox_gc: "ag_sandboxMgr (wd_agent w) = Some m \<Longrightarrow> world_step eng h w (EvSandboxGC now)
    (w\<lparr>wd_agent := (wd_agent w)\<lparr>ag_sandboxMgr := Some (mgr_gc_tick m (ag_heap (wd_agent w)) now)\<rparr>\<rparr>)"
| step_purge: "recordable cutoff \<Longrightarrow> world_step eng h w (EvPurge cutoff)
    (w\<lparr>wd_agent := (wd_agent w)\<lparr>ag_db := snd (PurgeOlderThan eng (ag_db (wd_agent w)) cutoff)\<rparr>\<rparr>)"

inductive world_run ::
    "'db sql_engine \<Rightarrow> command_handlers \<Rightarrow> 'db world \<Rightarrow> world_event list \<Rightarrow> 'db world \<Rightarrow> bool"
  for eng h where
  world_nil: "world_run eng h w [] w"
| world_snoc: "world_run eng h w evs w' \<Longrightarrow> world_step eng h w' ev w'' \<Longrightarrow> world_run eng h w (evs @ [ev]) w''"

definition initial_world :: "manager \<Rightarrow> manager option \<Rightarrow> 'db \<Rightarrow> 'db world" where
  "initial_world m sandbox db =
     \<lparr>wd_agent = \<lparr>ag_mgr = m, ag_sandboxMgr = sandbox, ag_heap = [], ag_db = db,
        ag_background = [], ag_log = []\<rparr>, wd_waiting = []\<rparr>"

section \<open>What a start changes\<close>

text \<open>
  The three starts share their effect on the state: one new record, tracked by one of the
  Managers under its fresh id, and perhaps a new history row.
\<close>

definition tracked_in :: "'db agent \<Rightarrow> 'db agent \<Rightarrow> string \<Rightarrow> nat \<Rightarrow> bool" where
  "tracked_in s s' pid a \<longleftrightarrow>
     ag_mgr s' = mgr_put pid a (ag_mgr s) \<and> ag_sandboxMgr s' = ag_sandboxMgr s \<or>
     (\<exists>m. ag_sandboxMgr s = Some m \<and> ag_sandboxMgr s' = Some (mgr_put pid a m)) \<and> ag_mgr s' = ag_mgr s"

definition started :: "('db \<Rightarrow> string \<rightharpoonup> row) \<Rightarrow> start_env \<Rightarrow> 'db agent \<Rightarrow> 'db agent \<Rightarrow> bool" where
  "started rows v s s' \<longleftrightarrow>
     (\<exists>ospid c1 c2. ag_heap s' = ag_heap s @ [new_record (sv_pid v) ospid (sv_now v) c1 c2]) \<and>
     tracked_in s s' (sv_pid v) (length (ag_heap s)) \<and>
     table_ok (rows (ag_db s')) \<and> set (ag_log s) \<subseteq> set (ag_log s') \<and>
     (log_view (rows (ag_db s')) = log_view (rows (ag_db s)) \<or>
      (\<exists>x. log_view (rows (ag_db s')) = (log_view (rows (ag_db s)))(sv_execID v \<mapsto> x) \<and>
           ex_ProcessID x = sv_pid v \<and> ex_EndedAt x = None \<and> ex_ExitCode x = None))"

text \<open>A handler that failed before a process existed.\<close>

definition only_logged :: "'db agent \<Rightarrow> 'db agent \<Rightarrow> bool" where
  "only_logged s s' \<longleftrightarrow>
     ag_mgr s' = ag_mgr s \<and> ag_sandboxMgr s' = ag_sandboxMgr s \<and> ag_heap s' = ag_heap s \<and>
     ag_db s' = ag_db s \<and> ag_background s' = ag_background s \<and> set (ag_log s) \<subseteq> set (ag_log s')"

lemma try_RecordEnd_frame [simp]:
  "ag_mgr (try_RecordEnd eng eid t c s) = ag_mgr s"
  "ag_sandboxMgr (try_RecordEnd eng eid t c s) = ag_sandboxMgr s"
  "ag_heap (try_RecordEnd eng eid t c s) = ag_heap s"
  "ag_background (try_RecordEnd eng eid t c s) = ag_background s"
  "set (ag_log s) \<subseteq> set (ag_log (try_RecordEnd eng eid t c s))"
  "ag_db (try_RecordEnd eng eid t c s) = snd (RecordEnd eng (ag_db s) eid t c)"
  by (auto simp: try_RecordEnd_def ag_logf_def split: prod.splits option.splits)

lemma try_RecordEnd_err:
  "fst (RecordEnd eng (ag_db s) eid t c) = Some err \<Longrightarrow>
   RecordEndFailed eid err \<in> set (ag_log (try_RecordEnd eng eid t c s))"
  by (auto simp: try_RecordEnd_def ag_logf_def split: prod.splits option.splits)

context sqlite
begin

lemma record_start_views:
  assumes ok: "table_ok (rows db)" and t: "recordable (es_StartedAt e)"
  shows "table_ok (rows (snd (RecordStart eng db e)))"
    and "log_view (rows (snd (RecordStart eng db e))) = log_view (rows db) \<or>
      log_view (rows (snd (RecordStart eng db e))) = (log_view (rows db))(es_ExecutionID e \<mapsto> running_execution e)"
proof -
  obtain err db' where r: "RecordStart eng db e = (err, db')" by fastforce
  show "table_ok (rows (snd (RecordStart eng db e)))" using ok t by (rule log_ok_start)
  show "log_view (rows (snd (RecordStart eng db e))) = log_view (rows db) \<or>
      log_view (rows (snd (RecordStart eng db e))) = (log_view (rows db))(es_ExecutionID e \<mapsto> running_execution e)"
    using r start_ok [OF ok t] start_err [OF ok] by (cases err) auto
qed

lemma recorded_start:
  assumes "table_ok (rows (ag_db s))" and "recordable (t_wall (sv_now v))"
    and e: "es_ExecutionID e = sv_execID v" "es_ProcessID e = sv_pid v" "es_StartedAt e = t_wall (sv_now v)"
    and heap: "ag_heap s1 = ag_heap s @ [new_record (sv_pid v) ospid (sv_now v) c1 c2]"
    and tr: "tracked_in s s1 (sv_pid v) (length (ag_heap s))"
    and s1: "ag_db s1 = ag_db s" "ag_log s1 = ag_log s" "ag_background s1 = ag_background s"
  shows "started rows v s (try_RecordStart eng e s1)"
proof -
  have run: "ex_ProcessID (running_execution e) = sv_pid v" "ex_EndedAt (running_execution e) = None"
    "ex_ExitCode (running_execution e) = None"
    by (simp_all add: running_execution_def e)
  have "tracked_in s (try_RecordStart eng e s1) (sv_pid v) (length (ag_heap s))"
    using tr by (simp add: tracked_in_def)
  moreover have "set (ag_log s) \<subseteq> set (ag_log (try_RecordStart eng e s1))"
    using try_RecordStart_frame(5) [of s1] s1(2) by simp
  ultimately show ?thesis
    using record_start_views [OF assms(1), of e] assms(2) heap run
    unfolding started_def by (auto simp: e s1)
qed

end

lemma mgr_Start_Inr:
  "mgr_Start m heap outcome pid now = (Inr a, m', heap') \<Longrightarrow>
   a = length heap \<and> m' = mgr_put pid a m \<and>
   (\<exists>ospid. heap' = heap @ [new_record pid ospid now (mg_stdoutCap m) (mg_stderrCap m)])"
  by (auto simp: mgr_Start_def Let_def split: sum.splits)

lemma mgr_Start_Inl: "mgr_Start m heap outcome pid now = (Inl err, m', heap') \<Longrightarrow> m' = m \<and> heap' = heap"
  by (auto simp: mgr_Start_def Let_def split: sum.splits)

lemma start_of_fields [simp]:
  "es_ExecutionID (start_of h p mode execID r) = execID" "es_ProcessID (start_of h p mode execID r) = pr_ID r"
  "es_StartedAt (start_of h p mode execID r) = t_wall (pr_StartedAt r)"
  by (simp_all add: start_of_def)

lemma new_record_fields [simp]:
  "pr_ID (new_record pid ospid now c1 c2) = pid" "pr_StartedAt (new_record pid ospid now c1 c2) = now"
  by (simp_all add: new_record_def)

context sqlite
begin

lemma Exec_start_effect:
  assumes ok: "table_ok (rows (ag_db s))" "recordable (t_wall (sv_now v))"
    and r: "Exec_start eng h parsed v s = (res, s')"
  shows "case res of Inl err \<Rightarrow> only_logged s s'
    | Inr wt \<Rightarrow> started rows v s s' \<and> ag_background s' = ag_background s \<and>
        job_of wt = (sv_execID v, length (ag_heap s))"
proof (cases parsed)
  case (Inl err)
  then show ?thesis using r by (auto simp: Exec_start_def only_logged_def)
next
  case (Inr p)
  obtain a m heap where st: "mgr_Start (ag_mgr s) (ag_heap s) (sv_backend v (options_of p)) (sv_pid v) (sv_now v) = (a, m, heap)"
    by (metis prod_cases3)
  show ?thesis
  proof (cases a)
    case Inl
    then show ?thesis
      using r st by (auto simp: Exec_start_def Inr only_logged_def ag_logf_def Let_def dest!: mgr_Start_Inl)
  next
    case (Inr addr)
    then obtain ospid where m: "addr = length (ag_heap s)" "m = mgr_put (sv_pid v) addr (ag_mgr s)"
      "heap = ag_heap s @ [new_record (sv_pid v) ospid (sv_now v) (mg_stdoutCap (ag_mgr s)) (mg_stderrCap (ag_mgr s))]"
      using st mgr_Start_Inr by blast
    let ?s1 = "s\<lparr>ag_mgr := m, ag_heap := heap\<rparr>"
    have "started rows v s (try_RecordStart eng (start_of h p ''write'' (sv_execID v) (heap ! addr)) ?s1)"
      by (rule recorded_start [OF ok]) (auto simp: m tracked_in_def)
    then show ?thesis
      using r st Inr m(1) by (auto simp: Exec_start_def \<open>parsed = Inr p\<close> Let_def job_of_def)
  qed
qed

lemma Read_start_effect:
  assumes ok: "table_ok (rows (ag_db s))" "recordable (t_wall (sv_now v))"
    and r: "Read_start eng h parsed v s = (res, s')"
  shows "case res of Inl err \<Rightarrow> only_logged s s'
    | Inr wt \<Rightarrow> started rows v s s' \<and> ag_background s' = ag_background s \<and>
        job_of wt = (sv_execID v, length (ag_heap s))"
proof (cases "ag_sandboxMgr s = None \<or> (\<exists>err. parsed = Inl err)")
  case True
  then show ?thesis using r by (auto simp: Read_start_def only_logged_def split: option.splits)
next
  case False
  then obtain sm p where sm: "ag_sandboxMgr s = Some sm" and p: "parsed = Inr p"
    by (cases parsed) auto
  obtain a m heap where st: "mgr_Start sm (ag_heap s) (sv_backend v (options_of p)) (sv_pid v) (sv_now v) = (a, m, heap)"
    by (metis prod_cases3)
  show ?thesis
  proof (cases a)
    case Inl
    then show ?thesis
      using r st by (auto simp: Read_start_def sm p only_logged_def ag_logf_def Let_def dest!: mgr_Start_Inl)
  next
    case (Inr addr)
    then obtain ospid where m: "addr = length (ag_heap s)" "m = mgr_put (sv_pid v) addr sm"
      "heap = ag_heap s @ [new_record (sv_pid v) ospid (sv_now v) (mg_stdoutCap sm) (mg_stderrCap sm)]"
      using st mgr_Start_Inr by blast
    let ?s1 = "s\<lparr>ag_sandboxMgr := Some m, ag_heap := heap\<rparr>"
    have "started rows v s (try_RecordStart eng (start_of h p ''read'' (sv_execID v) (heap ! addr)) ?s1)"
      by (rule recorded_start [OF ok]) (auto simp: m sm tracked_in_def)
    then show ?thesis
      using r st Inr m(1) by (auto simp: Read_start_def sm p Let_def job_of_def)
  qed
qed

lemma started_background: "started rows v s (s'\<lparr>ag_background := b\<rparr>) = started rows v s s'"
  by (simp add: started_def tracked_in_def)

lemma process_Start_effect:
  assumes ok: "table_ok (rows (ag_db s))" "recordable (t_wall (sv_now v))"
    and r: "process_Start eng dev parsed v s = (res, s')"
  shows "case res of Inl err \<Rightarrow> only_logged s s'
    | Inr x \<Rightarrow> started rows v s s' \<and>
        ag_background s' = ag_background s @ [(sv_execID v, length (ag_heap s))]"
proof (cases parsed)
  case (Inl err)
  then show ?thesis using r by (auto simp: process_Start_def only_logged_def)
next
  case (Inr p)
  obtain a m heap where st: "mgr_Start (ag_mgr s) (ag_heap s)
      (sv_backend v \<lparr>so_Command = ps_Command p, so_Cwd = ps_Cwd p, so_Env = ps_Env p\<rparr>) (sv_pid v) (sv_now v) = (a, m, heap)"
    by (metis prod_cases3)
  show ?thesis
  proof (cases a)
    case Inl
    then show ?thesis
      using r st by (auto simp: process_Start_def Inr only_logged_def dest!: mgr_Start_Inl)
  next
    case (Inr addr)
    then obtain ospid where m: "addr = length (ag_heap s)" "m = mgr_put (sv_pid v) addr (ag_mgr s)"
      "heap = ag_heap s @ [new_record (sv_pid v) ospid (sv_now v) (mg_stdoutCap (ag_mgr s)) (mg_stderrCap (ag_mgr s))]"
      using st mgr_Start_Inr by blast
    let ?s1 = "s\<lparr>ag_mgr := m, ag_heap := heap\<rparr>"
    define e where "e = \<lparr>es_ExecutionID = sv_execID v, es_ProcessID = pr_ID (heap ! addr), es_DeviceID = dev,
        es_Mode = ''process'', es_Command = ps_Command p, es_Cwd = ps_Cwd p,
        es_StartedAt = t_wall (pr_StartedAt (heap ! addr)),
        es_ClientContextID = ps_ClientContextID p, es_ClientSubject = ps_ClientSubject p\<rparr>"
    have "started rows v s (try_RecordStart eng e ?s1)"
      by (rule recorded_start [OF ok]) (auto simp: e_def m tracked_in_def)
    then show ?thesis
      using r st Inr m(1)
      by (auto simp: process_Start_def \<open>parsed = Inr p\<close> Let_def started_background e_def)
  qed
qed

end

section \<open>The invariant\<close>

text \<open>The processes: records as the goroutines leave them, each tracked while its exit is unpublished.\<close>

definition mgr_sound :: "manager \<Rightarrow> store \<Rightarrow> bool" where
  "mgr_sound m heap \<longleftrightarrow> gm_ok (mg_procs m) \<and>
     (\<forall>pid a. mgr_Get m pid = Some a \<longrightarrow> a < length heap \<and> pr_ID (heap ! a) = pid)"

definition unpublished :: "process_record \<Rightarrow> bool" where
  "unpublished r \<longleftrightarrow> pr_waiter r \<notin> {Published, Finished}"

definition heap_inv :: "'db agent \<Rightarrow> bool" where
  "heap_inv s \<longleftrightarrow>
     (\<forall>a < length (ag_heap s). proc_inv (ag_heap s ! a)) \<and>
     distinct (map pr_ID (ag_heap s)) \<and> mgr_sound (ag_mgr s) (ag_heap s) \<and>
     (\<forall>m. ag_sandboxMgr s = Some m \<longrightarrow> mgr_sound m (ag_heap s)) \<and>
     (\<forall>a < length (ag_heap s). unpublished (ag_heap s ! a) \<longrightarrow>
        (\<exists>who. find_process s (pr_ID (ag_heap s ! a)) = Some (a, who)))"

text \<open>The history: what can be said of a row that this run wrote.\<close>

definition row_running :: "'db world \<Rightarrow> nat \<Rightarrow> execution \<Rightarrow> bool" where
  "row_running w a x \<longleftrightarrow> ex_EndedAt x = None \<and> ex_ExitCode x = None \<and>
     pr_ID (ag_heap (wd_agent w) ! a) = ex_ProcessID x"

definition row_complete :: "'db world \<Rightarrow> execution \<Rightarrow> bool" where
  "row_complete w x \<longleftrightarrow> ex_EndedAt x \<noteq> None \<and>
     (\<exists>a < length (ag_heap (wd_agent w)). pr_ID (ag_heap (wd_agent w) ! a) = ex_ProcessID x \<and>
        rec_Exited (ag_heap (wd_agent w) ! a) \<and> ex_ExitCode x = rec_ExitCode (ag_heap (wd_agent w) ! a))"

definition row_lost :: "'db world \<Rightarrow> string \<Rightarrow> execution \<Rightarrow> bool" where
  "row_lost w eid x \<longleftrightarrow> ex_EndedAt x = None \<and> ex_ExitCode x = None \<and>
     (\<exists>err. RecordEndFailed eid err \<in> set (ag_log (wd_agent w)))"

definition row_status :: "'db world \<Rightarrow> string \<Rightarrow> execution \<Rightarrow> bool" where
  "row_status w eid x \<longleftrightarrow>
     (\<forall>a. (eid, a) \<in> set (jobs w) \<longrightarrow> row_running w a x) \<and>
     (eid \<notin> fst ` set (jobs w) \<longrightarrow> row_complete w x \<or> row_lost w eid x)"

definition jobs_inv :: "'db world \<Rightarrow> bool" where
  "jobs_inv w \<longleftrightarrow> distinct (map fst (jobs w)) \<and> (\<forall>(e, a) \<in> set (jobs w). a < length (ag_heap (wd_agent w)))"

definition hist_inv :: "(string \<rightharpoonup> execution) \<Rightarrow> ('db \<Rightarrow> string \<rightharpoonup> row) \<Rightarrow> 'db world \<Rightarrow> bool" where
  "hist_inv before rows w \<longleftrightarrow> table_ok (rows (ag_db (wd_agent w))) \<and>
     (\<forall>eid x. log_view (rows (ag_db (wd_agent w))) eid = Some x \<longrightarrow> before eid = None \<longrightarrow> row_status w eid x)"

lemma mgr_sound_new: "gm_ok (mg_procs m) \<Longrightarrow> mg_procs m = [] \<Longrightarrow> mgr_sound m heap"
  by (simp add: mgr_sound_def mgr_Get_def)

lemma mgr_sound_grow [inv_rules]:
  "mgr_sound m heap \<Longrightarrow> mgr_sound m (heap @ [r])"
  by (fastforce simp: mgr_sound_def nth_append)

lemma mgr_sound_put [inv_rules]:
  "mgr_sound m heap \<Longrightarrow> pr_ID r = pid \<Longrightarrow> mgr_sound (mgr_put pid (length heap) m) (heap @ [r])"
  using procs.ok_insert [of m pid "length heap"]
  by (fastforce simp: mgr_sound_def nth_append procs.lookup_insert)

lemma mgr_sound_ids: "map pr_ID heap' = map pr_ID heap \<Longrightarrow> mgr_sound m heap' = mgr_sound m heap"
proof -
  assume eq: "map pr_ID heap' = map pr_ID heap"
  then have "length heap' = length heap" by (rule map_eq_imp_length_eq)
  moreover from this have "pr_ID (heap' ! a) = pr_ID (heap ! a)" if "a < length heap" for a
    using that arg_cong [OF eq, of "\<lambda>xs. xs ! a"] by simp
  ultimately show ?thesis unfolding mgr_sound_def by metis
qed

lemma mgr_sound_gc [inv_rules]: "mgr_sound m heap \<Longrightarrow> mgr_sound (mgr_gc_tick m heap now) heap"
  by (auto simp: mgr_sound_def mgr_gc_tick_ok mgr_Get_gc_tick split: option.splits if_splits)

lemma unpublished_kept:
  assumes "mgr_sound m heap" and "mgr_Get m pid = Some a" and "proc_inv (heap ! a)" and "unpublished (heap ! a)"
  shows "mgr_Get (mgr_gc_tick m heap now) pid = Some a"
  using assms
  by (auto simp: mgr_sound_def mgr_Get_gc_tick unpublished_def expired_def proc_inv_def IsZero_def)

lemma unpublished_running: "proc_inv r \<Longrightarrow> unpublished r \<Longrightarrow> \<not> rec_Exited r \<and> rec_ExitCode r = None"
  by (auto simp: proc_inv_def unpublished_def rec_Exited_def rec_ExitCode_def)

lemma heap_inv_find:
  "heap_inv s \<Longrightarrow> a < length (ag_heap s) \<Longrightarrow> unpublished (ag_heap s ! a) \<Longrightarrow>
   \<exists>who. find_process s (pr_ID (ag_heap s ! a)) = Some (a, who)"
  unfolding heap_inv_def by blast

lemma find_process_cong:
  "ag_mgr s' = ag_mgr s \<Longrightarrow> ag_sandboxMgr s' = ag_sandboxMgr s \<Longrightarrow> find_process s' = find_process s"
  by (rule ext) (simp add: find_process_def split: option.splits)

lemma heap_inv_cong:
  "heap_inv s \<Longrightarrow> ag_mgr s' = ag_mgr s \<Longrightarrow> ag_sandboxMgr s' = ag_sandboxMgr s \<Longrightarrow> ag_heap s' = ag_heap s \<Longrightarrow>
   heap_inv s'"
  using find_process_cong [of s' s] by (simp add: heap_inv_def)

lemma find_tracked_in:
  "tracked_in s s' pid a \<Longrightarrow> pid' \<noteq> pid \<Longrightarrow> gm_ok (mg_procs (ag_mgr s)) \<Longrightarrow>
   (\<forall>m. ag_sandboxMgr s = Some m \<longrightarrow> gm_ok (mg_procs m)) \<Longrightarrow> find_process s' pid' = find_process s pid'"
  by (auto simp: tracked_in_def find_process_def procs.lookup_insert split: option.splits)

lemma find_new_tracked:
  "tracked_in s s' pid a \<Longrightarrow> gm_ok (mg_procs (ag_mgr s)) \<Longrightarrow>
   (\<forall>m. ag_sandboxMgr s = Some m \<longrightarrow> gm_ok (mg_procs m)) \<Longrightarrow> mgr_Get (ag_mgr s) pid = None \<Longrightarrow>
   \<exists>who. find_process s' pid = Some (a, who)"
  by (auto simp: tracked_in_def find_process_def procs.lookup_insert split: option.splits)

lemma fresh_untracked: "mgr_sound m heap \<Longrightarrow> pid \<notin> pr_ID ` set heap \<Longrightarrow> mgr_Get m pid = None"
  by (cases "mgr_Get m pid") (auto simp: mgr_sound_def image_iff dest!: spec [of _ pid] nth_mem)

lemma heap_inv_started:
  assumes inv: "heap_inv s" and st: "started rows v s s'" and fresh: "sv_pid v \<notin> pr_ID ` set (ag_heap s)"
  shows "heap_inv s'"
proof -
  obtain ospid c1 c2 where heap: "ag_heap s' = ag_heap s @ [new_record (sv_pid v) ospid (sv_now v) c1 c2]"
    and tr: "tracked_in s s' (sv_pid v) (length (ag_heap s))"
    using st by (auto simp: started_def)
  have ok: "gm_ok (mg_procs (ag_mgr s))" "\<forall>m. ag_sandboxMgr s = Some m \<longrightarrow> gm_ok (mg_procs m)"
    using inv by (auto simp: heap_inv_def mgr_sound_def)
  have "mgr_Get (ag_mgr s) (sv_pid v) = None"
    using inv fresh fresh_untracked by (auto simp: heap_inv_def)
  then have new: "\<exists>who. find_process s' (sv_pid v) = Some (length (ag_heap s), who)"
    using find_new_tracked [OF tr ok] by blast
  have put: "mgr_sound m (ag_heap s) \<Longrightarrow> mgr_sound (mgr_put (sv_pid v) (length (ag_heap s)) m) (ag_heap s')"
    and grow: "mgr_sound m (ag_heap s) \<Longrightarrow> mgr_sound m (ag_heap s')" for m
    unfolding heap by (rule mgr_sound_put, simp_all) (rule mgr_sound_grow)
  have "mgr_sound (ag_mgr s) (ag_heap s)" "\<And>m. ag_sandboxMgr s = Some m \<Longrightarrow> mgr_sound m (ag_heap s)"
    using inv by (auto simp: heap_inv_def)
  then have "mgr_sound (ag_mgr s') (ag_heap s') \<and> (\<forall>m. ag_sandboxMgr s' = Some m \<longrightarrow> mgr_sound m (ag_heap s'))"
    using tr put grow unfolding tracked_in_def by auto
  moreover have "\<exists>who. find_process s' (pr_ID (ag_heap s' ! a)) = Some (a, who)"
    if a: "a < length (ag_heap s')" and u: "unpublished (ag_heap s' ! a)" for a
  proof (cases "a = length (ag_heap s)")
    case True
    then show ?thesis using new by (simp add: heap)
  next
    case False
    then have a': "a < length (ag_heap s)" "ag_heap s' ! a = ag_heap s ! a"
      using a by (auto simp: heap nth_append)
    have "pr_ID (ag_heap s ! a) \<in> pr_ID ` set (ag_heap s)" using a'(1) by simp
    then have "pr_ID (ag_heap s ! a) \<noteq> sv_pid v" using fresh by metis
    then have "find_process s' (pr_ID (ag_heap s ! a)) = find_process s (pr_ID (ag_heap s ! a))"
      by (rule find_tracked_in [OF tr _ ok])
    then show ?thesis using heap_inv_find [OF inv a'(1)] u by (simp only: a'(2))
  qed
  moreover have "proc_inv (ag_heap s' ! a)" if "a < length (ag_heap s')" for a
    using that inv by (auto simp: heap heap_inv_def nth_append less_Suc_eq proc_inv_new)
  ultimately show ?thesis
    using inv fresh unfolding heap_inv_def by (simp add: heap)
qed

lemma heap_inv_proc:
  assumes inv: "heap_inv s" and a: "a < length (ag_heap s)" and st: "proc_step (ag_heap s ! a) ev r"
  shows "heap_inv (s\<lparr>ag_heap := (ag_heap s)[a := r]\<rparr>)"
proof -
  have pid: "pr_ID r = pr_ID (ag_heap s ! a)" using proc_step_ids [OF st] by simp
  then have ids: "map pr_ID ((ag_heap s)[a := r]) = map pr_ID (ag_heap s)"
    by (metis list_update_id map_update)
  have "proc_inv r" using proc_inv_step [OF st] inv a by (simp add: heap_inv_def)
  moreover have "unpublished r \<Longrightarrow> unpublished (ag_heap s ! a)"
    using st by (auto simp: unpublished_def publish_def elim!: proc_stepE split: option.splits)
  moreover have "find_process (s\<lparr>ag_heap := (ag_heap s)[a := r]\<rparr>) = find_process s"
    by (rule find_process_cong) simp_all
  ultimately show ?thesis
    using inv a pid unfolding heap_inv_def by (auto simp: ids mgr_sound_ids [OF ids] nth_list_update)
qed

lemma heap_inv_mgrs:
  assumes inv: "heap_inv s" and heap: "ag_heap s' = ag_heap s"
    and sound: "mgr_sound (ag_mgr s') (ag_heap s)" "\<forall>m. ag_sandboxMgr s' = Some m \<longrightarrow> mgr_sound m (ag_heap s)"
    and kept: "\<And>a who. a < length (ag_heap s) \<Longrightarrow> unpublished (ag_heap s ! a) \<Longrightarrow>
      find_process s (pr_ID (ag_heap s ! a)) = Some (a, who) \<Longrightarrow>
      \<exists>who'. find_process s' (pr_ID (ag_heap s ! a)) = Some (a, who')"
  shows "heap_inv s'"
  using inv sound kept unfolding heap_inv_def heap by blast

lemma heap_inv_mgr_gc:
  assumes inv: "heap_inv s"
  shows "heap_inv (s\<lparr>ag_mgr := mgr_gc_tick (ag_mgr s) (ag_heap s) now\<rparr>)"
proof (rule heap_inv_mgrs [OF inv])
  fix a who
  assume a: "a < length (ag_heap s)" "unpublished (ag_heap s ! a)"
    and f: "find_process s (pr_ID (ag_heap s ! a)) = Some (a, who)"
  have p: "proc_inv (ag_heap s ! a)" and m: "mgr_sound (ag_mgr s) (ag_heap s)"
    using inv a by (auto simp: heap_inv_def)
  show "\<exists>who'. find_process (s\<lparr>ag_mgr := mgr_gc_tick (ag_mgr s) (ag_heap s) now\<rparr>) (pr_ID (ag_heap s ! a)) = Some (a, who')"
  proof (cases "mgr_Get (ag_mgr s) (pr_ID (ag_heap s ! a))")
    case None
    then have "mgr_Get (mgr_gc_tick (ag_mgr s) (ag_heap s) now) (pr_ID (ag_heap s ! a)) = None"
      using m by (simp add: mgr_Get_gc_tick mgr_sound_def)
    then show ?thesis using f None by (simp add: find_process_def)
  next
    case (Some b)
    then have "mgr_Get (ag_mgr s) (pr_ID (ag_heap s ! a)) = Some a" using f by (simp add: find_process_def)
    from unpublished_kept [OF m this p a(2)] show ?thesis by (simp add: find_process_def)
  qed
qed (use inv in \<open>auto simp: heap_inv_def intro: mgr_sound_gc\<close>)

lemma heap_inv_sandbox_gc:
  assumes inv: "heap_inv s" and sm: "ag_sandboxMgr s = Some m"
  shows "heap_inv (s\<lparr>ag_sandboxMgr := Some (mgr_gc_tick m (ag_heap s) now)\<rparr>)"
proof (rule heap_inv_mgrs [OF inv])
  fix a who
  assume a: "a < length (ag_heap s)" "unpublished (ag_heap s ! a)"
    and f: "find_process s (pr_ID (ag_heap s ! a)) = Some (a, who)"
  have p: "proc_inv (ag_heap s ! a)" and m: "mgr_sound m (ag_heap s)"
    using inv a sm by (auto simp: heap_inv_def)
  show "\<exists>who'. find_process (s\<lparr>ag_sandboxMgr := Some (mgr_gc_tick m (ag_heap s) now)\<rparr>) (pr_ID (ag_heap s ! a)) = Some (a, who')"
  proof (cases "mgr_Get (ag_mgr s) (pr_ID (ag_heap s ! a))")
    case None
    then have "mgr_Get m (pr_ID (ag_heap s ! a)) = Some a"
      using f by (auto simp: find_process_def sm split: option.splits)
    from unpublished_kept [OF m this p a(2)] show ?thesis using None by (simp add: find_process_def)
  next
    case (Some b)
    then show ?thesis using f by (simp add: find_process_def)
  qed
qed (use inv sm in \<open>auto simp: heap_inv_def intro: mgr_sound_gc\<close>)

lemma exited_stuck: "proc_step r ev r' \<Longrightarrow> proc_inv r \<Longrightarrow> \<not> rec_Exited r"
  by (induction rule: proc_step.induct) (auto simp: proc_inv_def rec_Exited_def)

text \<open>A change that leaves the table and the jobs alone and only grows or advances the records.\<close>

lemma row_status_mono:
  assumes st: "row_status w eid x" and jobs: "set (jobs w') = set (jobs w)"
    and log: "set (ag_log (wd_agent w)) \<subseteq> set (ag_log (wd_agent w'))"
    and ids: "\<And>a. (eid, a) \<in> set (jobs w) \<Longrightarrow>
      pr_ID (ag_heap (wd_agent w') ! a) = pr_ID (ag_heap (wd_agent w) ! a)"
    and dn: "\<And>a. a < length (ag_heap (wd_agent w)) \<Longrightarrow> rec_Exited (ag_heap (wd_agent w) ! a) \<Longrightarrow>
      a < length (ag_heap (wd_agent w')) \<and> ag_heap (wd_agent w') ! a = ag_heap (wd_agent w) ! a"
  shows "row_status w' eid x"
proof -
  have "row_running w a x \<Longrightarrow> (eid, a) \<in> set (jobs w) \<Longrightarrow> row_running w' a x" for a
    using ids by (simp add: row_running_def)
  moreover have "row_complete w x \<Longrightarrow> row_complete w' x"
    unfolding row_complete_def using dn by fastforce
  moreover have "row_lost w eid x \<Longrightarrow> row_lost w' eid x"
    using log by (auto simp: row_lost_def)
  ultimately show ?thesis using st unfolding row_status_def jobs by blast
qed

text \<open>A start, seen by the history.\<close>

lemma hist_inv_started:
  assumes inv: "hist_inv before rows w" "jobs_inv w" and st: "started rows v (wd_agent w) (wd_agent w')"
    and fresh: "sv_execID v \<notin> fst ` set (jobs w)" "rows (ag_db (wd_agent w)) (sv_execID v) = None"
    and js: "mset (jobs w') = add_mset (sv_execID v, length (ag_heap (wd_agent w))) (mset (jobs w))"
  shows "hist_inv before rows w'"
proof -
  have jobs: "set (jobs w') = insert (sv_execID v, length (ag_heap (wd_agent w))) (set (jobs w))"
    using arg_cong [OF js, of set_mset] by simp
  let ?s = "wd_agent w" and ?s' = "wd_agent w'" and ?n = "length (ag_heap (wd_agent w))"
  obtain ospid c1 c2 where heap: "ag_heap ?s' = ag_heap ?s @ [new_record (sv_pid v) ospid (sv_now v) c1 c2]"
    and log: "set (ag_log ?s) \<subseteq> set (ag_log ?s')" and ok: "table_ok (rows (ag_db ?s'))"
    and view: "log_view (rows (ag_db ?s')) = log_view (rows (ag_db ?s)) \<or>
      (\<exists>x. log_view (rows (ag_db ?s')) = (log_view (rows (ag_db ?s)))(sv_execID v \<mapsto> x) \<and>
           ex_ProcessID x = sv_pid v \<and> ex_EndedAt x = None \<and> ex_ExitCode x = None)"
    using st by (auto simp: started_def)
  have none: "log_view (rows (ag_db ?s)) (sv_execID v) = None"
    using fresh(2) by (simp add: log_view_def)
  have "row_status w' eid x"
    if x: "log_view (rows (ag_db ?s')) eid = Some x" and b: "before eid = None" for eid x
  proof (cases "eid = sv_execID v")
    case True
    then have "ex_ProcessID x = sv_pid v" "ex_EndedAt x = None" "ex_ExitCode x = None"
      using view x none by auto
    moreover have "(eid, a) \<in> set (jobs w') \<longleftrightarrow> a = ?n" for a
      using fresh(1) by (auto simp: True jobs rev_image_eqI)
    ultimately show ?thesis
      by (auto simp: row_status_def row_running_def heap True jobs)
  next
    case False
    then have "row_status w eid x" using inv(1) view x b by (auto simp: hist_inv_def)
    moreover have "(eid, a) \<in> set (jobs w') \<longleftrightarrow> (eid, a) \<in> set (jobs w)" for a
      using False by (simp add: jobs)
    moreover have "eid \<notin> fst ` set (jobs w') \<longleftrightarrow> eid \<notin> fst ` set (jobs w)"
      using False by (simp add: jobs)
    moreover have "ag_heap ?s' ! a = ag_heap ?s ! a" if "(eid, a) \<in> set (jobs w)" for a
      using inv(2) that by (auto simp: jobs_inv_def heap nth_append)
    moreover have "row_complete w x \<Longrightarrow> row_complete w' x"
      by (auto simp: row_complete_def heap nth_append less_SucI)
    moreover have "row_lost w eid x \<Longrightarrow> row_lost w' eid x"
      using log by (auto simp: row_lost_def)
    ultimately show ?thesis by (auto simp: row_status_def row_running_def)
  qed
  then show ?thesis using ok by (simp add: hist_inv_def)
qed

lemma jobs_inv_started:
  assumes inv: "jobs_inv w" and st: "started rows v (wd_agent w) (wd_agent w')"
    and fresh: "sv_execID v \<notin> fst ` set (jobs w)"
    and js: "mset (jobs w') = add_mset (sv_execID v, length (ag_heap (wd_agent w))) (mset (jobs w))"
  shows "jobs_inv w'"
proof -
  have "mset (map fst (jobs w')) = mset (sv_execID v # map fst (jobs w))"
    using js by simp
  from mset_eq_imp_distinct_iff [OF this] have "distinct (map fst (jobs w'))"
    using inv fresh by (simp add: jobs_inv_def)
  moreover have "set (jobs w') = insert (sv_execID v, length (ag_heap (wd_agent w))) (set (jobs w))"
    using arg_cong [OF js, of set_mset] by simp
  ultimately show ?thesis
    using inv st by (auto simp: jobs_inv_def started_def)
qed

text \<open>The end of one job, seen by the history.\<close>

lemma jobs_inv_remove:
  assumes inv: "jobs_inv w" and heap: "ag_heap (wd_agent w') = ag_heap (wd_agent w)"
    and js: "mset (jobs w) = add_mset job (mset (jobs w'))"
  shows "jobs_inv w'" and "set (jobs w) = insert job (set (jobs w'))" and "fst job \<notin> fst ` set (jobs w')"
proof -
  have "mset (map fst (jobs w)) = mset (fst job # map fst (jobs w'))"
    using js by simp
  from mset_eq_imp_distinct_iff [OF this] have d: "distinct (fst job # map fst (jobs w'))"
    using inv by (simp add: jobs_inv_def)
  show set: "set (jobs w) = insert job (set (jobs w'))"
    using arg_cong [OF js, of set_mset] by simp
  show "jobs_inv w'" using inv d by (auto simp: jobs_inv_def heap set)
  show "fst job \<notin> fst ` set (jobs w')" using d by auto
qed

context sqlite
begin

lemma hist_inv_ended:
  assumes inv: "hist_inv before rows w" "jobs_inv w" and t: "recordable now"
    and js: "mset (jobs w) = add_mset (eid, a) (mset (jobs w'))"
    and ag: "wd_agent w' = try_RecordEnd eng eid now (rec_ExitCode (ag_heap (wd_agent w) ! a)) s1"
    and s1: "ag_heap s1 = ag_heap (wd_agent w)" "ag_db s1 = ag_db (wd_agent w)" "ag_log s1 = ag_log (wd_agent w)"
    and ex: "rec_Exited (ag_heap (wd_agent w) ! a)"
  shows "hist_inv before rows w'"
proof -
  let ?s = "wd_agent w" and ?s' = "wd_agent w'"
  let ?c = "rec_ExitCode (ag_heap ?s ! a)"
  have heap: "ag_heap ?s' = ag_heap ?s" and log: "set (ag_log ?s) \<subseteq> set (ag_log ?s')"
    using try_RecordEnd_frame(5) [of s1 eng eid now ?c] by (simp_all add: ag s1)
  note rem = jobs_inv_remove [OF inv(2) heap js]
  have a: "a < length (ag_heap ?s)" using inv(2) rem(2) by (auto simp: jobs_inv_def)
  have ok: "table_ok (rows (ag_db ?s))" using inv(1) by (simp add: hist_inv_def)
  obtain err db where end_res: "RecordEnd eng (ag_db ?s) eid now ?c = (err, db)" by fastforce
  then have db: "ag_db ?s' = db" by (simp add: ag s1)
  have ok': "table_ok (rows (ag_db ?s'))"
    using log_ok_finish [OF ok t] end_res db by (metis snd_conv)
  have other: "row_status w' k x"
    if "k \<noteq> eid" "log_view (rows (ag_db ?s')) k = Some x" "before k = None" for k x
  proof -
    have "log_view (rows (ag_db ?s)) k = Some x"
      using finish_other [OF ok t that(1)] that(2) end_res db by (metis snd_conv)
    then have "row_status w k x" using inv(1) that(3) by (auto simp: hist_inv_def)
    then show ?thesis
      using that(1) rem(2) log by (auto simp: row_status_def row_running_def row_complete_def row_lost_def heap)
  qed
  have ended: "row_status w' eid x"
    if viewx: "log_view (rows (ag_db ?s')) eid = Some x" and before: "before eid = None" for x
  proof -
    obtain y where y: "log_view (rows (ag_db ?s)) eid = Some y"
      "err = None \<Longrightarrow> x = y\<lparr>ex_EndedAt := Some now, ex_ExitCode := ?c\<rparr>" "err \<noteq> None \<Longrightarrow> x = y"
    proof (cases err)
      case None
      then have "log_view (rows db) eid =
          map_option (\<lambda>x. x\<lparr>ex_EndedAt := Some now, ex_ExitCode := ?c\<rparr>) (log_view (rows (ag_db ?s)) eid)"
        using finish_ok [OF ok t, of eid ?c db] end_res by simp
      then show thesis using viewx None that db by auto
    next
      case (Some e)
      then have "log_view (rows db) = log_view (rows (ag_db ?s))"
        using finish_err [OF ok, of eid now ?c e db] end_res by simp
      then show thesis using viewx Some that db by auto
    qed
    then have run: "row_running w a y"
      using inv(1) before rem(2) by (auto simp: hist_inv_def row_status_def)
    show ?thesis
    proof (cases err)
      case None
      then have "row_complete w' x"
        using y(2) run a ex by (auto simp: row_complete_def row_running_def heap)
      then show ?thesis using rem(3) unfolding row_status_def by force
    next
      case (Some e)
      have "RecordEndFailed eid e \<in> set (ag_log ?s')"
        unfolding ag by (rule try_RecordEnd_err) (simp add: s1 end_res Some)
      then have "row_lost w' eid x"
        using y(3) run Some by (auto simp: row_lost_def row_running_def)
      then show ?thesis using rem(3) unfolding row_status_def by force
    qed
  qed
  show ?thesis using ok' other ended unfolding hist_inv_def by metis
qed

end

section \<open>Every step keeps the invariant\<close>

definition world_inv :: "(string \<rightharpoonup> execution) \<Rightarrow> ('db \<Rightarrow> string \<rightharpoonup> row) \<Rightarrow> 'db world \<Rightarrow> bool" where
  "world_inv before rows w \<longleftrightarrow> heap_inv (wd_agent w) \<and> jobs_inv w \<and> hist_inv before rows w"

lemma world_inv_logged:
  assumes inv: "world_inv before rows w" and lg: "only_logged (wd_agent w) (wd_agent w')"
    and wait: "wd_waiting w' = wd_waiting w"
  shows "world_inv before rows w'"
proof -
  have j: "jobs w' = jobs w" using lg wait by (simp add: jobs_def only_logged_def)
  have "row_status w' eid x" if "row_status w eid x" for eid x
    using lg by (intro row_status_mono [OF that]) (auto simp: j only_logged_def)
  then show ?thesis
    using inv lg heap_inv_cong [of "wd_agent w" "wd_agent w'"]
    by (auto simp: world_inv_def jobs_inv_def hist_inv_def j only_logged_def)
qed

context sqlite
begin

lemma world_inv_started:
  assumes inv: "world_inv before rows w" and st: "started rows v (wd_agent w) (wd_agent w')"
    and fresh: "fresh_start eng w v"
    and js: "mset (jobs w') = add_mset (sv_execID v, length (ag_heap (wd_agent w))) (mset (jobs w))"
  shows "world_inv before rows w'"
proof -
  have f: "sv_execID v \<notin> fst ` set (jobs w)" "rows (ag_db (wd_agent w)) (sv_execID v) = None"
    "sv_pid v \<notin> pr_ID ` set (ag_heap (wd_agent w))"
    using fresh select_none by (auto simp: fresh_start_def)
  show ?thesis
    using inv heap_inv_started [OF _ st f(3)] jobs_inv_started [OF _ st f(1) js]
      hist_inv_started [OF _ _ st f(1,2) js]
    unfolding world_inv_def by blast
qed

lemma world_inv_handler:
  assumes inv: "world_inv before rows w" and fresh: "fresh_start eng w v"
    and eff: "case fst r of Inl err \<Rightarrow> only_logged (wd_agent w) (snd r)
      | Inr wt \<Rightarrow> started rows v (wd_agent w) (snd r) \<and> ag_background (snd r) = ag_background (wd_agent w) \<and>
          job_of wt = (sv_execID v, length (ag_heap (wd_agent w)))"
  shows "world_inv before rows (with_result w r)"
proof (cases "fst r")
  case (Inl err)
  then show ?thesis
    using eff by (intro world_inv_logged [OF inv]) (auto simp: with_result_def split: prod.splits)
next
  case (Inr wt)
  have "wd_agent (with_result w r) = snd r" "wd_waiting (with_result w r) = wd_waiting w @ [wt]"
    using Inr by (auto simp: with_result_def split: prod.splits)
  then show ?thesis
    using eff Inr by (intro world_inv_started [OF inv _ fresh]) (auto simp: jobs_def)
qed

lemma world_inv_step:
  assumes "world_step eng h w ev w'" and inv: "world_inv before rows w"
  shows "world_inv before rows w'"
  using assms(1)
proof cases
  case (step_exec v parsed)
  have "table_ok (rows (ag_db (wd_agent w)))" "recordable (t_wall (sv_now v))"
    using inv step_exec(3) by (auto simp: world_inv_def hist_inv_def fresh_start_def)
  from world_inv_handler [OF inv step_exec(3) Exec_start_effect [OF this prod.collapse [symmetric]]]
  show ?thesis using step_exec(2) by simp
next
  case (step_read v parsed)
  have "table_ok (rows (ag_db (wd_agent w)))" "recordable (t_wall (sv_now v))"
    using inv step_read(3) by (auto simp: world_inv_def hist_inv_def fresh_start_def)
  from world_inv_handler [OF inv step_read(3) Read_start_effect [OF this prod.collapse [symmetric]]]
  show ?thesis using step_read(2) by simp
next
  case (step_process_start v parsed)
  let ?r = "process_Start eng (ch_deviceID h) parsed v (wd_agent w)"
  have "table_ok (rows (ag_db (wd_agent w)))" "recordable (t_wall (sv_now v))"
    using inv step_process_start(3) by (auto simp: world_inv_def hist_inv_def fresh_start_def)
  from process_Start_effect [OF this prod.collapse [symmetric], of "ch_deviceID h" parsed]
  show ?thesis
  proof (cases "fst ?r")
    case (Inl err)
    then show ?thesis
      using \<open>case fst ?r of Inl err \<Rightarrow> _ err | Inr x \<Rightarrow> _ x\<close> step_process_start(2)
      by (intro world_inv_logged [OF inv]) auto
  next
    case (Inr x)
    then show ?thesis
      using \<open>case fst ?r of Inl err \<Rightarrow> _ err | Inr x \<Rightarrow> _ x\<close> step_process_start(2)
      by (intro world_inv_started [OF inv _ step_process_start(3)]) (auto simp: jobs_def)
  qed
next
  case (step_proc a ev r)
  let ?s = "wd_agent w"
  have pi: "proc_inv (ag_heap ?s ! a)" using inv step_proc(3) by (simp add: world_inv_def heap_inv_def)
  have j: "jobs w' = jobs w" by (simp add: jobs_def step_proc(2))
  have "row_status w' eid x" if "row_status w eid x" for eid x
  proof (rule row_status_mono [OF that])
    show "set (jobs w') = set (jobs w)" by (simp add: j)
  qed (use exited_stuck [OF step_proc(4) pi] proc_step_ids [OF step_proc(4)] step_proc(3) in
      \<open>auto simp: step_proc(2) nth_list_update\<close>)
  then show ?thesis
    using inv heap_inv_proc [OF _ step_proc(3,4)]
    by (auto simp: world_inv_def jobs_inv_def hist_inv_def j) (auto simp: step_proc(2))
next
  case (step_return wt ctxDone arm res now)
  let ?s = "wd_agent w"
  have "mset (wd_waiting w) = add_mset wt (mset (remove1 wt (wd_waiting w)))"
    using step_return(3) by simp
  from arg_cong [OF this, of "image_mset job_of"]
  have w: "mset (map job_of (wd_waiting w)) = add_mset (job_of wt) (mset (map job_of (remove1 wt (wd_waiting w))))"
    by (simp only: mset_map image_mset_add_mset)
  show ?thesis
  proof (cases arm)
    case ArmDone
    then have ex: "rec_Exited (ag_heap ?s ! wt_addr wt)" and res: "res = (rec_ExitCode (ag_heap ?s ! wt_addr wt), False)"
      using step_return(4) by (simp_all add: waited_done)
    have ag: "wd_agent w' = try_RecordEnd eng (wt_execID wt) now (rec_ExitCode (ag_heap ?s ! wt_addr wt)) ?s"
      by (simp add: step_return(2) after_wait_def res)
    have js: "mset (jobs w) = add_mset (wt_execID wt, wt_addr wt) (mset (jobs w'))"
      using w by (simp add: jobs_def step_return(2) ag [unfolded step_return(2)] job_of_def after_wait_def res)
    show ?thesis
      using inv hist_inv_ended [OF _ _ step_return(5) js ag refl refl refl ex]
        jobs_inv_remove(1) [OF _ _ js] heap_inv_cong [of ?s "wd_agent w'"]
      by (simp add: world_inv_def ag)
  next
    case ArmCtx
    then have "res = (None, True)" using step_return(4) by (simp add: rec_Wait_def split: if_splits)
    then have ag: "wd_agent w' = recordEndEventually (wt_execID wt) (wt_addr wt) ?s"
      by (simp add: step_return(2) after_wait_def)
    have js: "mset (jobs w') = mset (jobs w)"
      using w by (simp add: jobs_def ag recordEndEventually_def) (simp add: step_return(2) job_of_def)
    have "row_status w' eid x" if "row_status w eid x" for eid x
    proof (rule row_status_mono [OF that])
      show "set (jobs w') = set (jobs w)" using js by (rule mset_eq_setD)
    qed (simp_all add: ag recordEndEventually_def)
    then show ?thesis
      using inv heap_inv_cong [of ?s "wd_agent w'"] mset_eq_setD [OF js]
        mset_eq_imp_distinct_iff [of "map fst (jobs w')" "map fst (jobs w)"] js
      by (auto simp: world_inv_def jobs_inv_def hist_inv_def ag recordEndEventually_def)
  qed
next
  case (step_background job now)
  let ?s = "wd_agent w"
  obtain eid a where job: "job = (eid, a)" by fastforce
  have ag: "wd_agent w' = try_RecordEnd eng eid now (rec_ExitCode (ag_heap ?s ! a))
      (?s\<lparr>ag_background := remove1 job (ag_background ?s)\<rparr>)"
    by (simp add: step_background(2) background_end_def job)
  have js: "mset (jobs w) = add_mset (eid, a) (mset (jobs w'))"
    using step_background(3) by (simp add: jobs_def ag) (simp add: step_background(2) job)
  have ex: "rec_Exited (ag_heap ?s ! a)" using step_background(4) by (simp add: job)
  show ?thesis
    using inv hist_inv_ended [OF _ _ step_background(5) js ag _ _ _ ex]
      jobs_inv_remove(1) [OF _ _ js] heap_inv_cong [of ?s "wd_agent w'"]
    by (simp add: world_inv_def ag)
next
  case (step_mgr_gc now)
  have j: "jobs w' = jobs w" by (simp add: jobs_def step_mgr_gc(2))
  have "row_status w' eid x" if "row_status w eid x" for eid x
  proof (rule row_status_mono [OF that])
    show "set (jobs w') = set (jobs w)" by (simp add: j)
  qed (simp_all add: step_mgr_gc(2))
  then show ?thesis
    using inv heap_inv_mgr_gc [of "wd_agent w" now]
    by (auto simp: world_inv_def jobs_inv_def hist_inv_def j) (auto simp: step_mgr_gc(2))
next
  case (step_sandbox_gc m now)
  have j: "jobs w' = jobs w" by (simp add: jobs_def step_sandbox_gc(2))
  have "row_status w' eid x" if "row_status w eid x" for eid x
  proof (rule row_status_mono [OF that])
    show "set (jobs w') = set (jobs w)" by (simp add: j)
  qed (simp_all add: step_sandbox_gc(2))
  then show ?thesis
    using inv heap_inv_sandbox_gc [OF _ step_sandbox_gc(3), of now]
    by (auto simp: world_inv_def jobs_inv_def hist_inv_def j) (auto simp: step_sandbox_gc(2))
next
  case (step_purge cutoff)
  let ?s = "wd_agent w"
  have j: "jobs w' = jobs w" by (simp add: jobs_def step_purge(2))
  have st: "row_status w' eid x" if "row_status w eid x" for eid x
  proof (rule row_status_mono [OF that])
    show "set (jobs w') = set (jobs w)" by (simp add: j)
  qed (simp_all add: step_purge(2))
  have ok: "table_ok (rows (ag_db ?s))" using inv by (simp add: world_inv_def hist_inv_def)
  obtain err db where p: "PurgeOlderThan eng (ag_db ?s) cutoff = (err, db)" by fastforce
  have "log_view (rows db) k = Some x \<Longrightarrow> log_view (rows (ag_db ?s)) k = Some x" for k x
  proof (cases err)
    case None
    then show "log_view (rows db) k = Some x \<Longrightarrow> ?thesis"
      using purge_view [OF ok step_purge(3), of db k] p by (auto split: option.splits if_splits)
  next
    case (Some e)
    then show "log_view (rows db) k = Some x \<Longrightarrow> ?thesis"
      using delete_err [of "ag_db ?s" "fmt_history cutoff" e db] p by (simp add: PurgeOlderThan_def)
  qed
  then show ?thesis
    using inv st purge_table_ok [OF ok, of cutoff] heap_inv_cong [of ?s "wd_agent w'"] p
    by (auto simp: world_inv_def jobs_inv_def hist_inv_def j) (auto simp: step_purge(2))
qed

lemma world_inv_run:
  "world_run eng h w evs w' \<Longrightarrow> world_inv before rows w \<Longrightarrow> world_inv before rows w'"
  by (induction rule: world_run.induct) (auto intro: world_inv_step)

lemma world_inv_initial:
  assumes "table_ok (rows db)" and "mg_procs m = []" and "\<forall>sm. sandbox = Some sm \<longrightarrow> mg_procs sm = []"
  shows "world_inv (log_view (rows db)) rows (initial_world m sandbox db)"
  using assms
  by (auto simp: world_inv_def heap_inv_def jobs_inv_def hist_inv_def initial_world_def jobs_def
      intro!: mgr_sound_new)

lemma world_run_inv:
  assumes "table_ok (rows db)" and "mg_procs m = []" and "\<forall>sm. sandbox = Some sm \<longrightarrow> mg_procs sm = []"
    and "world_run eng h (initial_world m sandbox db) evs w"
  shows "world_inv (log_view (rows db)) rows w"
  using world_inv_run [OF assms(4) world_inv_initial [of db m sandbox]] assms(1-3) by blast

end

text \<open>A job whose process has exited can be completed at once.\<close>

lemma job_enabled:
  assumes inv: "jobs_inv w" and job: "(eid, a) \<in> set (jobs w)" and ex: "rec_Exited (ag_heap (wd_agent w) ! a)"
    and now: "recordable now"
  shows "\<exists>ev w'. world_step eng h w ev w' \<and> (eid, a) \<notin> set (jobs w')"
proof -
  have d: "distinct (jobs w)" using inv by (simp add: jobs_inv_def distinct_map)
  have "(eid, a) \<in> set (ag_background (wd_agent w)) \<or> (\<exists>wt \<in> set (wd_waiting w). job_of wt = (eid, a))"
    using job by (auto simp: jobs_def)
  then show ?thesis
  proof
    assume bg: "(eid, a) \<in> set (ag_background (wd_agent w))"
    have "world_step eng h w (EvBackground (eid, a) now) (w\<lparr>wd_agent := background_end eng (eid, a) now (wd_agent w)\<rparr>)"
      using bg ex now by (intro step_background) auto
    moreover have "(eid, a) \<notin> set (jobs (w\<lparr>wd_agent := background_end eng (eid, a) now (wd_agent w)\<rparr>))"
      using d bg by (auto simp: jobs_def background_end_def)
    ultimately show ?thesis by blast
  next
    assume "\<exists>wt \<in> set (wd_waiting w). job_of wt = (eid, a)"
    then obtain wt where wt: "wt \<in> set (wd_waiting w)" "job_of wt = (eid, a)" by blast
    let ?res = "(rec_ExitCode (ag_heap (wd_agent w) ! wt_addr wt), False)"
    let ?w = "w\<lparr>wd_waiting := remove1 wt (wd_waiting w), wd_agent := after_wait eng wt ?res now (wd_agent w)\<rparr>"
    have "world_step eng h w (EvReturn wt False ArmDone now) ?w"
      using wt ex now by (intro step_return) (auto simp: waited_done job_of_def)
    moreover have "(eid, a) \<notin> set (jobs ?w)"
    proof -
      have "inj_on job_of (set (wd_waiting w))" "distinct (wd_waiting w)"
        using d by (auto simp: jobs_def distinct_map)
      then have "(eid, a) \<notin> job_of ` set (remove1 wt (wd_waiting w))"
        using wt by (auto simp: inj_on_def)
      moreover have "(eid, a) \<notin> set (ag_background (wd_agent w))"
        using d wt by (auto simp: jobs_def)
      ultimately show ?thesis by (simp add: jobs_def after_wait_def)
    qed
    ultimately show ?thesis by blast
  qed
qed

section \<open>Properties\<close>

text \<open>
  C16. Every history row of the running Agent is accounted for, however starts, exits, timeouts, answers
  and garbage collections interleave. A row is still open exactly while one handler or background
  goroutine is responsible for it, and as soon as its process has exited that one can move and
  gives the job up; every other row either carries an end time and the exit code the record of
  its process reports, or is open because the history refused its end, and then the log says so.
\<close>

theorem history_rows_accounted:
  assumes "sqlite_table eng rows" and "table_ok (rows db)"
    and "mg_procs m = []" and "\<forall>sm. sandbox = Some sm \<longrightarrow> mg_procs sm = []"
    and "world_run eng h (initial_world m sandbox db) evs w"
    and "log_view (rows (ag_db (wd_agent w))) eid = Some x" and "log_view (rows db) eid = None"
  shows "if eid \<in> fst ` set (jobs w)
    then ex_EndedAt x = None \<and> ex_ExitCode x = None \<and>
      (\<exists>!a. (eid, a) \<in> set (jobs w)) \<and>
      (\<forall>a. (eid, a) \<in> set (jobs w) \<longrightarrow> pr_ID (ag_heap (wd_agent w) ! a) = ex_ProcessID x \<and>
         (rec_Exited (ag_heap (wd_agent w) ! a) \<longrightarrow>
          (\<exists>ev w'. world_step eng h w ev w' \<and> (eid, a) \<notin> set (jobs w'))))
    else ex_EndedAt x \<noteq> None \<and>
        (\<exists>a < length (ag_heap (wd_agent w)). pr_ID (ag_heap (wd_agent w) ! a) = ex_ProcessID x \<and>
           rec_Exited (ag_heap (wd_agent w) ! a) \<and> ex_ExitCode x = rec_ExitCode (ag_heap (wd_agent w) ! a)) \<or>
      ex_EndedAt x = None \<and> (\<exists>err. RecordEndFailed eid err \<in> set (ag_log (wd_agent w)))"
proof -
  have inv: "world_inv (log_view (rows db)) rows w"
    by (rule sqlite.world_run_inv [OF sqlite.intro [OF assms(1)] assms(2-5)])
  then have st: "row_status w eid x" and ji: "jobs_inv w"
    using assms(6,7) by (auto simp: world_inv_def hist_inv_def)
  have unique: "\<exists>!a. (eid, a) \<in> set (jobs w)" if "eid \<in> fst ` set (jobs w)"
    using that ji by (auto simp: jobs_inv_def dest: eq_key_imp_eq_value)
  have enabled: "\<exists>ev w'. world_step eng h w ev w' \<and> (eid, a) \<notin> set (jobs w')"
    if "(eid, a) \<in> set (jobs w)" "rec_Exited (ag_heap (wd_agent w) ! a)" for a
    using job_enabled [OF ji that, of "sample_time 0"] by simp
  show ?thesis
  proof (cases "eid \<in> fst ` set (jobs w)")
    case True
    then have "\<exists>a. (eid, a) \<in> set (jobs w)" by force
    then show ?thesis
      using st unique [OF True] enabled True unfolding row_status_def row_running_def by auto
  next
    case False
    then show ?thesis
      using st unfolding row_status_def row_complete_def row_lost_def by auto
  qed
qed


subsection \<open>Witnesses\<close>

text \<open>A process's schedule as steps of the world.\<close>

lemma world_proc_run:
  assumes "proc_run r evs r'" and "ag_heap (wd_agent w) ! a = r" and "a < length (ag_heap (wd_agent w))"
  shows "world_run eng h w (map (EvProc a) evs)
    (w\<lparr>wd_agent := (wd_agent w)\<lparr>ag_heap := (ag_heap (wd_agent w))[a := r']\<rparr>\<rparr>)"
  using assms
proof (induction rule: proc_run.induct)
  case (run_nil r)
  then have "(ag_heap (wd_agent w))[a := r] = ag_heap (wd_agent w)" by auto
  then have "w\<lparr>wd_agent := (wd_agent w)\<lparr>ag_heap := (ag_heap (wd_agent w))[a := r]\<rparr>\<rparr> = w" by simp
  then show ?case by (metis list.map_disc_iff world_run.world_nil)
next
  case (run_snoc r evs r' ev r'')
  let ?w = "w\<lparr>wd_agent := (wd_agent w)\<lparr>ag_heap := (ag_heap (wd_agent w))[a := r']\<rparr>\<rparr>"
  have "world_step eng h ?w (EvProc a ev)
      (?w\<lparr>wd_agent := (wd_agent ?w)\<lparr>ag_heap := (ag_heap (wd_agent ?w))[a := r'']\<rparr>\<rparr>)"
    using run_snoc by (intro step_proc) auto
  then show ?case using run_snoc by (auto intro: world_run.world_snoc)
qed

definition sample_process :: process_start_params where
  "sample_process = \<lparr>ps_Command = ''make'', ps_Cwd = [], ps_Env = [], ps_ClientContextID = [], ps_ClientSubject = []\<rparr>"

definition sample_manager :: manager where
  "sample_manager = NewManager 4 4 10"

abbreviation sample_handlers :: command_handlers where
  "sample_handlers \<equiv> NewCommandHandlers ''dev'' 30000"

abbreviation sample_world :: "mem_db world" where
  "sample_world \<equiv> initial_world sample_manager None sample_db"

lemma recordable_sample_now [simp]: "recordable (t_wall sample_now)"
  by (simp add: sample_now_def recordable_def valid_utc_def four_digit_year_def days_in_def)

lemma sample_select_none: "eid \<notin> {''a'', ''b''} \<Longrightarrow> sq_select mem_engine sample_db eid = Inl ErrNoRows"
  using mem.select_none [of sample_db eid] by (simp add: sample_rows)

text \<open>One process.start.\<close>

lemma sample_run1:
  obtains w where
    "world_run mem_engine sample_handlers sample_world [EvProcessStart (Inr sample_process) sample_env] w"
    "ag_heap (wd_agent w) = [sample_record]" "jobs w = [(sample_execID, 0)]" "ag_log (wd_agent w) = []"
    "wd_waiting w = []"
    "\<exists>x. log_view (mem_rows (ag_db (wd_agent w))) sample_execID = Some x"
    "table_ok (mem_rows (ag_db (wd_agent w)))" "md_busy (ag_db (wd_agent w)) = 0"
proof -
  let ?s = "wd_agent sample_world"
  define e where "e = \<lparr>es_ExecutionID = sample_execID, es_ProcessID = sample_pid, es_DeviceID = ''dev'',
    es_Mode = ''process'', es_Command = ''make'', es_Cwd = [], es_StartedAt = t_wall sample_now,
    es_ClientContextID = [], es_ClientSubject = []\<rparr>"
  let ?r = "process_Start mem_engine (ch_deviceID sample_handlers) (Inr sample_process) sample_env ?s"
  let ?w = "sample_world\<lparr>wd_agent := snd ?r\<rparr>"
  obtain db1 where rs: "RecordStart mem_engine sample_db e = (None, db1)" and idle: "md_busy db1 = 0"
    by (simp add: e_def RecordStart_def mem_engine_def mem_write_def sample_db_def start_row_def sample_start_def)
  have "fresh_start mem_engine sample_world sample_env"
    by (simp add: fresh_start_def initial_world_def jobs_def sample_env_defs sample_select_none)
  then have step: "world_step mem_engine sample_handlers sample_world (EvProcessStart (Inr sample_process) sample_env) ?w"
    by (rule step_process_start)
  have s': "snd ?r = ?s\<lparr>ag_mgr := mgr_put sample_pid 0 sample_manager, ag_heap := [sample_record], ag_db := db1,
      ag_background := [(sample_execID, 0)]\<rparr>"
    by (simp add: process_Start_def sample_process_def sample_env_defs mgr_Start_def initial_world_def Let_def
        sample_record_def new_record_def NewCommandHandlers_def sample_manager_def NewManager_def
        try_RecordStart_def rs [unfolded e_def] e_def)
  have t: "recordable (es_StartedAt e)" by (simp add: e_def)
  show thesis
  proof (rule that)
    show "world_run mem_engine sample_handlers sample_world [EvProcessStart (Inr sample_process) sample_env] ?w"
      using world_run.world_snoc [OF world_run.world_nil step] by simp
    show "\<exists>x. log_view (mem_rows (ag_db (wd_agent ?w))) sample_execID = Some x"
      using mem.start_ok [OF sample_table_ok t rs] by (simp add: s' e_def)
    show "table_ok (mem_rows (ag_db (wd_agent ?w)))"
      using mem.start_ok [OF sample_table_ok t rs] by (simp add: s')
  qed (unfold s', simp_all add: initial_world_def jobs_def idle)
qed

lemma mem_RecordEnd_idle:
  "md_busy db = 0 \<Longrightarrow> \<exists>db'. RecordEnd mem_engine db eid t c = (None, db')"
  by (simp add: RecordEnd_def RecordEnd_counted_def recordEndMaxRetries_def eval_nat_numeral mem_engine_def mem_write_def)

lemma world_run_trans:
  "world_run eng h w' evs' w'' \<Longrightarrow> world_run eng h w evs w' \<Longrightarrow> world_run eng h w (evs @ evs') w''"
proof (induction rule: world_run.induct)
  case (world_nil w)
  then show ?case by simp
next
  case (world_snoc w evs w' ev w'')
  then show ?case by (metis append_assoc world_run.world_snoc)
qed

text \<open>A process is started, exits, and its row is completed.\<close>

theorem history_rows_accounted_witness:
  "\<exists>evs w x. world_run mem_engine sample_handlers sample_world evs w \<and> jobs w = [] \<and>
     log_view (mem_rows (ag_db (wd_agent w))) sample_execID = Some x \<and> ex_EndedAt x \<noteq> None \<and>
     (\<exists>a < length (ag_heap (wd_agent w)). ex_ExitCode x = rec_ExitCode (ag_heap (wd_agent w) ! a))"
proof (rule sample_run1)
  fix w
  let ?evs1 = "[EvProcessStart (Inr sample_process) sample_env]"
  assume w: "world_run mem_engine sample_handlers sample_world ?evs1 w"
    "ag_heap (wd_agent w) = [sample_record]" "jobs w = [(sample_execID, 0)]" "ag_log (wd_agent w) = []" "wd_waiting w = []"
    "\<exists>x. log_view (mem_rows (ag_db (wd_agent w))) sample_execID = Some x" "table_ok (mem_rows (ag_db (wd_agent w)))"
    "md_busy (ag_db (wd_agent w)) = 0"
  obtain r where r: "proc_run sample_record sample_schedule r" "rec_ExitCode r = Some 3" "pr_waiter r = Published"
    using sample_exec by metis
  let ?r = "r\<lparr>pr_done := True, pr_waiter := Finished\<rparr>"
  let ?w = "w\<lparr>wd_agent := (wd_agent w)\<lparr>ag_heap := [?r]\<rparr>\<rparr>"
  let ?w' = "?w\<lparr>wd_agent := background_end mem_engine (sample_execID, 0) (sample_time 9) (wd_agent ?w)\<rparr>"
  have "proc_run sample_record (sample_schedule @ [CloseDone]) ?r"
    using r by (intro proc_run.run_snoc [OF r(1)]) simp
  from world_proc_run [OF this, of w 0 mem_engine sample_handlers] w(2)
  have "world_run mem_engine sample_handlers w (map (EvProc 0) (sample_schedule @ [CloseDone])) ?w" by simp
  from world_run_trans [OF this w(1)] obtain evs where
    run: "world_run mem_engine sample_handlers sample_world evs ?w" by blast
  have bg: "ag_background (wd_agent w) = [(sample_execID, 0)]" using w(3,5) by (simp add: jobs_def)
  have "world_step mem_engine sample_handlers ?w (EvBackground (sample_execID, 0) (sample_time 9)) ?w'"
    by (rule step_background) (simp_all add: bg rec_Exited_def)
  from world_run.world_snoc [OF run this] obtain evs' where
    run': "world_run mem_engine sample_handlers sample_world evs' ?w'" by blast
  obtain db where db: "RecordEnd mem_engine (ag_db (wd_agent w)) sample_execID (sample_time 9) (Some 3) = (None, db)"
    using mem_RecordEnd_idle [OF w(8)] by blast
  have ag: "wd_agent ?w' = (wd_agent w)\<lparr>ag_heap := [?r], ag_background := [], ag_db := db\<rparr>"
    using r(2) by (simp add: background_end_def try_RecordEnd_def db bg rec_ExitCode_def)
  obtain x where x: "log_view (mem_rows (ag_db (wd_agent ?w'))) sample_execID = Some x"
    unfolding ag using mem.finish_ok [OF w(7) _ db] w(6) by auto
  have j: "jobs ?w' = []" unfolding jobs_def ag by (simp add: w(5))
  have l: "ag_log (wd_agent ?w') = []" unfolding ag by (simp add: w(4))
  have v: "log_view (mem_rows sample_db) sample_execID = None" by (simp add: log_view_def sample_rows)
  have "mg_procs sample_manager = []" by (simp add: sample_manager_def NewManager_def)
  from history_rows_accounted [OF mem.table sample_table_ok this _ run' x v]
  have "ex_EndedAt x \<noteq> None \<and> (\<exists>a < length (ag_heap (wd_agent ?w')). ex_ExitCode x = rec_ExitCode (ag_heap (wd_agent ?w') ! a))"
    unfolding j l by auto
  then show ?thesis using run' x j by blast
qed


end
