(* ===== verification/AgentLoop.thy ===== *)
theory AgentLoop
  imports AgentServer
begin

text \<open>
  The whole life of an Agent's connection (agent/connection.go): \<open>Run\<close> with its reconnects, \<open>runOnce\<close>, one
  goroutine per request, and the ping loops, interleaved in any way. The state holds every socket the
  Agent ever dialed, with the lock on its writes and what was written, and every goroutine that was
  started for a request; \<open>loop_next\<close> is one step of one of them. What the environment decides (a dial,
  a frame, a failed read or write or ping, the outcome of a handler, the end of the context) is in
  the event.
\<close>

section \<open>State\<close>

text \<open>
  A socket: not yet closed by \<open>CloseNow\<close>, its ping loop still running, the goroutine that holds \<open>writeMu\<close>,
  and the messages written with the goroutine that wrote each; the hello has none.
\<close>

record socket =
  sk_open :: bool
  sk_pinging :: bool
  sk_lock :: "nat option"
  sk_sent :: "(nat option \<times> bytes) list"

text \<open>
  A request's goroutine: in its handler, with a response that waits for the lock, in the write, or
  ended, with the response written or without.
\<close>

datatype handler_state = Handling | Ready bytes | Writing bytes | Replied bytes | NoReply

fun finished :: "handler_state \<Rightarrow> bool" where
  "finished (Replied out) = True"
| "finished NoReply = True"
| "finished _ = False"

record 'raw request_task =
  rt_conn :: nat
  rt_req :: "'raw request"
  rt_state :: handler_state

text \<open>
  Where \<open>Run\<close> is: at the top of its loop, in the dial, in the read of a connection, in the wait before
  the next attempt, in the deferred \<open>wg.Wait\<close>, or returned.
\<close>

datatype run_phase = Looping | Dialing | Reading nat | Pausing | Draining | Returned

record 'raw agent_loop =
  al_phase :: run_phase
  al_cancelled :: bool
  al_backoff :: int
  al_socks :: "socket list"
  al_tasks :: "'raw request_task list"

definition new_loop :: "'raw agent_loop" where
  "new_loop = \<lparr>al_phase = Looping, al_cancelled = False, al_backoff = second, al_socks = [], al_tasks = []\<rparr>"

text \<open>JSON: parsing a request, marshalling a result and a response, and the marshalled hello.\<close>

record ('raw, 'v) loop_env =
  le_parse :: "bytes \<Rightarrow> string + 'raw request"
  le_value :: "'v \<Rightarrow> string + 'raw"
  le_response :: "'raw response \<Rightarrow> string + bytes"
  le_hello :: "string + bytes"

section \<open>Steps\<close>

text \<open>How a write ends; one that reports an error may have reached the peer all the same.\<close>

datatype write_result = WriteOk | WriteFailed bool

datatype 'v loop_event =
  Cancel
| CheckCtx
| DialFailed string
| Dialed bool
| Frame nat bytes
| ReadFailed string
| Elapsed int
| Interrupted
| Drained
| Handled nat "(rpc_error + 'v) option"
| Lock nat
| Written nat write_result
| PingFailed nat
| PingStopped nat

text \<open>
  The response the dispatcher gives when the request's handler ends with \<open>res\<close> (\<open>None\<close> a panic, which
  gives no response).
\<close>

definition dispatched :: "('raw, 'v) loop_env \<Rightarrow> 'raw request \<Rightarrow> (rpc_error + 'v) option \<Rightarrow> 'raw response option" where
  "dispatched env req res =
     map_option fst (disp_Dispatch (le_value env) (agent_dispatcher (\<lambda>m raw s. map_option (\<lambda>r. (r, s)) res)) req ())"

definition after_handler :: "('raw, 'v) loop_env \<Rightarrow> 'raw request \<Rightarrow> (rpc_error + 'v) option \<Rightarrow> handler_state" where
  "after_handler env req res =
     (case dispatched env req res of
        None \<Rightarrow> NoReply
      | Some resp \<Rightarrow> (case le_response env resp of Inl err \<Rightarrow> NoReply | Inr out \<Rightarrow> Ready out))"

definition set_task :: "nat \<Rightarrow> handler_state \<Rightarrow> 'raw agent_loop \<Rightarrow> 'raw agent_loop" where
  "set_task i st a = a\<lparr>al_tasks := (al_tasks a)[i := (al_tasks a ! i)\<lparr>rt_state := st\<rparr>]\<rparr>"

definition map_sock :: "nat \<Rightarrow> (socket \<Rightarrow> socket) \<Rightarrow> 'raw agent_loop \<Rightarrow> 'raw agent_loop" where
  "map_sock c f a = a\<lparr>al_socks := (al_socks a)[c := f (al_socks a ! c)]\<rparr>"

definition CloseNow :: "socket \<Rightarrow> socket" where
  "CloseNow k = k\<lparr>sk_open := False\<rparr>"

definition task_in :: "'raw agent_loop \<Rightarrow> nat \<Rightarrow> handler_state \<Rightarrow> bool" where
  "task_in a i st \<longleftrightarrow> i < length (al_tasks a) \<and> rt_state (al_tasks a ! i) = st"

text \<open>The goroutine that runs \<open>Run\<close> and \<open>runOnce\<close>.\<close>

fun run_next :: "('raw, 'v) loop_env \<Rightarrow> 'v loop_event \<Rightarrow> 'raw agent_loop \<Rightarrow> 'raw agent_loop option" where
  "run_next env CheckCtx a =
     (if al_phase a = Looping
      then Some (a\<lparr>al_phase := (if al_cancelled a then Draining else Dialing)\<rparr>) else None)"
| "run_next env (DialFailed err) a =
     (if al_phase a = Dialing then Some (a\<lparr>al_phase := Pausing\<rparr>) else None)"
| "run_next env (Dialed hello_written) a =
     (if al_phase a \<noteq> Dialing then None
      else (case le_hello env of
              Inl err \<Rightarrow> Some (a\<lparr>al_phase := Pausing, al_socks := al_socks a @
                [\<lparr>sk_open = False, sk_pinging = False, sk_lock = None, sk_sent = []\<rparr>]\<rparr>)
            | Inr hello \<Rightarrow>
                if hello_written
                then Some (a\<lparr>al_phase := Reading (length (al_socks a)), al_socks := al_socks a @
                  [\<lparr>sk_open = True, sk_pinging = True, sk_lock = None, sk_sent = [(None, hello)]\<rparr>]\<rparr>)
                else Some (a\<lparr>al_phase := Pausing, al_socks := al_socks a @
                  [\<lparr>sk_open = False, sk_pinging = False, sk_lock = None, sk_sent = []\<rparr>]\<rparr>)))"
| "run_next env (Frame c data) a =
     (if al_phase a = Reading c \<and> sk_open (al_socks a ! c)
      then (case le_parse env data of
              Inl err \<Rightarrow> Some a
            | Inr req \<Rightarrow> Some (a\<lparr>al_tasks := al_tasks a @ [\<lparr>rt_conn = c, rt_req = req, rt_state = Handling\<rparr>]\<rparr>))
      else None)"
| "run_next env (ReadFailed err) a =
     (case al_phase a of
        Reading c \<Rightarrow> Some (map_sock c CloseNow (a\<lparr>al_phase := Pausing\<rparr>))
      | _ \<Rightarrow> None)"
| "run_next env (Elapsed jitter) a =
     (if al_phase a = Pausing \<and> 0 \<le> jitter \<and> jitter < al_backoff a div 2 + 1
      then Some (a\<lparr>al_phase := Looping, al_backoff := next_backoff (al_backoff a)\<rparr>) else None)"
| "run_next env Interrupted a =
     (if al_phase a = Pausing \<and> al_cancelled a then Some (a\<lparr>al_phase := Draining\<rparr>) else None)"
| "run_next env Drained a =
     (if al_phase a = Draining \<and> list_all (\<lambda>t. finished (rt_state t)) (al_tasks a)
      then Some (a\<lparr>al_phase := Returned\<rparr>) else None)"
| "run_next env _ a = None"

text \<open>The goroutine of a request: handler, marshalling, lock, write, unlock.\<close>

fun task_next :: "('raw, 'v) loop_env \<Rightarrow> 'v loop_event \<Rightarrow> 'raw agent_loop \<Rightarrow> 'raw agent_loop option" where
  "task_next env (Handled i res) a =
     (if task_in a i Handling
      then Some (set_task i (after_handler env (rt_req (al_tasks a ! i)) res) a) else None)"
| "task_next env (Lock i) a =
     (if i < length (al_tasks a)
      then (let c = rt_conn (al_tasks a ! i) in
            case rt_state (al_tasks a ! i) of
              Ready out \<Rightarrow>
                if sk_lock (al_socks a ! c) = None
                then Some (set_task i (Writing out) (map_sock c (sk_lock_update (\<lambda>_. Some i)) a))
                else None
            | _ \<Rightarrow> None)
      else None)"
| "task_next env (Written i res) a =
     (if i < length (al_tasks a)
      then (let c = rt_conn (al_tasks a ! i) in
            case rt_state (al_tasks a ! i) of
              Writing out \<Rightarrow>
                (case res of
                   WriteOk \<Rightarrow>
                     if sk_open (al_socks a ! c)
                     then Some (set_task i (Replied out)
                            (map_sock c (\<lambda>k. k\<lparr>sk_lock := None, sk_sent := sk_sent k @ [(Some i, out)]\<rparr>) a))
                     else None
                 | WriteFailed reached \<Rightarrow>
                     if \<not> reached
                     then Some (set_task i NoReply (map_sock c (\<lambda>k. CloseNow (k\<lparr>sk_lock := None\<rparr>)) a))
                     else if sk_open (al_socks a ! c)
                     then Some (set_task i (Replied out)
                            (map_sock c (\<lambda>k. CloseNow (k\<lparr>sk_lock := None, sk_sent := sk_sent k @ [(Some i, out)]\<rparr>)) a))
                     else None)
            | _ \<Rightarrow> None)
      else None)"
| "task_next env _ a = None"

text \<open>
  The ping loop of a connection: a failed ping closes the socket and ends the loop, and so does the
  end of its context, which \<open>runOnce\<close> cancels when it returns.
\<close>

fun ping_next :: "'v loop_event \<Rightarrow> 'raw agent_loop \<Rightarrow> 'raw agent_loop option" where
  "ping_next (PingFailed c) a =
     (if c < length (al_socks a) \<and> sk_pinging (al_socks a ! c)
      then Some (map_sock c (\<lambda>k. CloseNow (k\<lparr>sk_pinging := False\<rparr>)) a) else None)"
| "ping_next (PingStopped c) a =
     (if c < length (al_socks a) \<and> sk_pinging (al_socks a ! c) \<and> (al_cancelled a \<or> al_phase a \<noteq> Reading c)
      then Some (map_sock c (sk_pinging_update (\<lambda>_. False)) a) else None)"
| "ping_next _ a = None"

definition loop_next :: "('raw, 'v) loop_env \<Rightarrow> 'v loop_event \<Rightarrow> 'raw agent_loop \<Rightarrow> 'raw agent_loop option" where
  "loop_next env e a =
     (case e of
        Cancel \<Rightarrow> Some (a\<lparr>al_cancelled := True\<rparr>)
      | Handled i res \<Rightarrow> task_next env e a
      | Lock i \<Rightarrow> task_next env e a
      | Written i res \<Rightarrow> task_next env e a
      | PingFailed c \<Rightarrow> ping_next e a
      | PingStopped c \<Rightarrow> ping_next e a
      | _ \<Rightarrow> run_next env e a)"

fun loop_run :: "('raw, 'v) loop_env \<Rightarrow> 'v loop_event list \<Rightarrow> 'raw agent_loop \<Rightarrow> 'raw agent_loop option" where
  "loop_run env [] a = Some a"
| "loop_run env (e # es) a = (case loop_next env e a of None \<Rightarrow> None | Some b \<Rightarrow> loop_run env es b)"

section \<open>Invariants\<close>

lemma set_task_simps [simp]:
  "al_socks (set_task i st a) = al_socks a" "al_phase (set_task i st a) = al_phase a"
  "al_cancelled (set_task i st a) = al_cancelled a"
  "al_tasks (set_task i st a) = (al_tasks a)[i := (al_tasks a ! i)\<lparr>rt_state := st\<rparr>]"
  by (simp_all add: set_task_def)

lemma map_sock_simps [simp]:
  "al_tasks (map_sock c f a) = al_tasks a" "al_phase (map_sock c f a) = al_phase a"
  "al_cancelled (map_sock c f a) = al_cancelled a"
  "al_socks (map_sock c f a) = (al_socks a)[c := f (al_socks a ! c)]"
  by (simp_all add: map_sock_def)

lemma CloseNow_simps [simp]:
  "sk_pinging (CloseNow k) = sk_pinging k" "sk_lock (CloseNow k) = sk_lock k" "sk_sent (CloseNow k) = sk_sent k"
  "sk_open (CloseNow k) = False"
  by (simp_all add: CloseNow_def)

text \<open>Every step is one of the cases below, with what it found and what it left.\<close>

lemma loop_next_cases:
  assumes "loop_next env e a = Some b"
  obtains
    (cancel) "e = Cancel" "b = a\<lparr>al_cancelled := True\<rparr>"
  | (run) "run_next env e a = Some b" "\<And>i res. e \<noteq> Handled i res" "e \<noteq> Cancel"
  | (handled) i res where "e = Handled i res" "task_in a i Handling"
      "b = set_task i (after_handler env (rt_req (al_tasks a ! i)) res) a"
  | (lock) i out where "e = Lock i" "task_in a i (Ready out)" "sk_lock (al_socks a ! rt_conn (al_tasks a ! i)) = None"
      "b = set_task i (Writing out) (map_sock (rt_conn (al_tasks a ! i)) (sk_lock_update (\<lambda>_. Some i)) a)"
  | (failed) i out where "e = Written i (WriteFailed False)" "task_in a i (Writing out)"
      "b = set_task i NoReply (map_sock (rt_conn (al_tasks a ! i)) (\<lambda>k. CloseNow (k\<lparr>sk_lock := None\<rparr>)) a)"
  | (written) i out res f where "e = Written i res" "task_in a i (Writing out)"
      "b = set_task i (Replied out) (map_sock (rt_conn (al_tasks a ! i)) f a)"
      "\<And>k. sk_lock (f k) = None \<and> sk_sent (f k) = sk_sent k @ [(Some i, out)]"
  | (ping) c f where "c < length (al_socks a)" "b = map_sock c f a"
      "\<And>k. sk_lock (f k) = sk_lock k \<and> sk_sent (f k) = sk_sent k" "e = PingFailed c \<or> e = PingStopped c"
proof (cases e)
  case (PingFailed c)
  with assms show ?thesis by (intro ping [of c "\<lambda>k. CloseNow (k\<lparr>sk_pinging := False\<rparr>)"]) (auto simp: loop_next_def split: if_splits)
next
  case (PingStopped c)
  with assms show ?thesis by (intro ping [of c "sk_pinging_update (\<lambda>_. False)"]) (auto simp: loop_next_def split: if_splits)
next
  case (Written i res)
  then obtain out where w: "task_in a i (Writing out)"
    using assms by (auto simp: loop_next_def task_in_def Let_def split: if_splits handler_state.splits)
  let ?ok = "\<lambda>k. k\<lparr>sk_lock := None, sk_sent := sk_sent k @ [(Some i, out)]\<rparr>"
  show ?thesis
    using assms Written w failed [of i out] written [of i res out ?ok] written [of i res out "\<lambda>k. CloseNow (?ok k)"]
    by (auto simp: loop_next_def task_in_def Let_def split: if_splits write_result.splits)
next
  case (Lock i)
  with assms show ?thesis
    by (auto simp: loop_next_def task_in_def Let_def split: if_splits handler_state.splits intro: lock)
next
  case (Handled i res)
  with assms show ?thesis by (auto simp: loop_next_def split: if_splits intro: handled)
qed (use assms in \<open>auto simp: loop_next_def intro: cancel run\<close>)

text \<open>
  The lock on a socket's writes is held exactly by the goroutine that is in its write, and what a
  goroutine is about to write answers its request.
\<close>

definition answers :: "('raw, 'v) loop_env \<Rightarrow> 'raw request \<Rightarrow> bytes \<Rightarrow> bool" where
  "answers env req out \<longleftrightarrow>
     (\<exists>res resp. dispatched env req res = Some resp \<and> le_response env resp = Inr out)"

fun output_of :: "handler_state \<Rightarrow> bytes option" where
  "output_of (Ready out) = Some out"
| "output_of (Writing out) = Some out"
| "output_of (Replied out) = Some out"
| "output_of _ = None"

definition task_ok :: "('raw, 'v) loop_env \<Rightarrow> 'raw agent_loop \<Rightarrow> nat \<Rightarrow> bool" where
  "task_ok env a i \<longleftrightarrow>
     rt_conn (al_tasks a ! i) < length (al_socks a) \<and> sk_sent (al_socks a ! rt_conn (al_tasks a ! i)) \<noteq> [] \<and>
     (\<forall>out. output_of (rt_state (al_tasks a ! i)) = Some out \<longrightarrow> answers env (rt_req (al_tasks a ! i)) out) \<and>
     ((\<exists>out. rt_state (al_tasks a ! i) = Writing out) \<longleftrightarrow> sk_lock (al_socks a ! rt_conn (al_tasks a ! i)) = Some i)"

definition sock_ok :: "('raw, 'v) loop_env \<Rightarrow> 'raw agent_loop \<Rightarrow> nat \<Rightarrow> bool" where
  "sock_ok env a c \<longleftrightarrow>
     (\<forall>i. sk_lock (al_socks a ! c) = Some i \<longrightarrow> i < length (al_tasks a) \<and> rt_conn (al_tasks a ! i) = c) \<and>
     distinct (map fst (sk_sent (al_socks a ! c))) \<and>
     (sk_sent (al_socks a ! c) = [] \<or> fst (hd (sk_sent (al_socks a ! c))) = None) \<and>
     (\<forall>msg. (None, msg) \<in> set (sk_sent (al_socks a ! c)) \<longrightarrow> le_hello env = Inr msg) \<and>
     (\<forall>i msg. (Some i, msg) \<in> set (sk_sent (al_socks a ! c)) \<longrightarrow>
        i < length (al_tasks a) \<and> rt_conn (al_tasks a ! i) = c \<and> rt_state (al_tasks a ! i) = Replied msg)"

definition phase_ok :: "'raw agent_loop \<Rightarrow> bool" where
  "phase_ok a \<longleftrightarrow>
     (\<forall>c. al_phase a = Reading c \<longrightarrow> c < length (al_socks a) \<and> sk_sent (al_socks a ! c) \<noteq> []) \<and>
     (al_phase a \<in> {Draining, Returned} \<longrightarrow> al_cancelled a) \<and>
     (al_phase a = Returned \<longrightarrow> (\<forall>t \<in> set (al_tasks a). finished (rt_state t)))"

definition loop_inv :: "('raw, 'v) loop_env \<Rightarrow> 'raw agent_loop \<Rightarrow> bool" where
  "loop_inv env a \<longleftrightarrow> phase_ok a \<and> (\<forall>i < length (al_tasks a). task_ok env a i) \<and>
     (\<forall>c < length (al_socks a). sock_ok env a c)"

lemma after_handler_answers:
  "output_of (after_handler env req res) = Some out \<Longrightarrow> answers env req out"
  "after_handler env req res \<noteq> Writing out'"
  by (auto simp: after_handler_def answers_def split: option.splits sum.splits)

text \<open>
  One goroutine's step: task \<open>i\<close> goes on to \<open>st\<close>, takes or gives back the lock of its socket and may add
  its message there.
\<close>

lemma loop_inv_touch:
  assumes inv: "loop_inv env a" and i: "task_in a i old" and unfinished: "\<not> finished old"
    and c: "c = rt_conn (al_tasks a ! i)"
    and out: "\<And>out. output_of st = Some out \<Longrightarrow> answers env (rt_req (al_tasks a ! i)) out"
    and lock: "sk_lock (f (al_socks a ! c)) =
      (if \<exists>out. st = Writing out then Some i else if sk_lock (al_socks a ! c) = Some i then None else sk_lock (al_socks a ! c))"
    and free: "(\<exists>out. st = Writing out) \<Longrightarrow> sk_lock (al_socks a ! c) = None"
    and sent: "sk_sent (f (al_socks a ! c)) =
      sk_sent (al_socks a ! c) @ (case st of Replied out \<Rightarrow> [(Some i, out)] | _ \<Rightarrow> [])"
  shows "loop_inv env (set_task i st (map_sock c f a))"
proof -
  let ?b = "set_task i st (map_sock c f a)"
  have i': "i < length (al_tasks a)" "rt_state (al_tasks a ! i) = old" using i by (auto simp: task_in_def)
  have task: "task_ok env a j" if "j < length (al_tasks a)" for j using inv that by (simp add: loop_inv_def)
  have sock: "sock_ok env a d" if "d < length (al_socks a)" for d using inv that by (simp add: loop_inv_def)
  have ph: "phase_ok a" using inv by (simp add: loop_inv_def)
  have c': "c < length (al_socks a)" using task [OF i'(1)] c by (simp add: task_ok_def)
  have greeted: "sk_sent (al_socks a ! c) \<noteq> []" using task [OF i'(1)] c by (simp add: task_ok_def)
  have unsent: "(Some i, msg) \<notin> set (sk_sent (al_socks a ! d))" if "d < length (al_socks a)" for d msg
    using sock [OF that] i' unfinished by (force simp: sock_ok_def)
  have "phase_ok ?b"
    using ph c' i' unfinished sent
    by (fastforce simp: phase_ok_def nth_list_update all_set_conv_all_nth split: handler_state.split)
  moreover have "task_ok env ?b j" if j: "j < length (al_tasks a)" for j
  proof (cases "j = i")
    case True
    then show ?thesis using i' c c' out lock sent task [OF i'(1)] by (auto simp: task_ok_def)
  next
    case False
    then show ?thesis using task [OF j] j c' lock free sent by (auto simp: task_ok_def nth_list_update split: if_splits)
  qed
  moreover have "sock_ok env ?b d" if d: "d < length (al_socks a)" for d
  proof (cases "d = c")
    case True
    have s: "sock_ok env a c" by (rule sock [OF c'])
    have k: "al_socks ?b ! d = f (al_socks a ! c)" using True c' by simp
    have old_sent: "j \<noteq> i" if "(Some j, msg) \<in> set (sk_sent (al_socks a ! c))" for j msg
      using unsent [OF c'] that by blast
    have conn: "rt_conn (al_tasks ?b ! j) = rt_conn (al_tasks a ! j)" if "j < length (al_tasks a)" for j
      using that by (cases "j = i") (simp_all add: nth_list_update)
    have "sk_lock (f (al_socks a ! c)) = Some j \<Longrightarrow> j = i \<or> sk_lock (al_socks a ! c) = Some j" for j
      unfolding lock by (simp split: if_splits)
    moreover have "sk_lock (al_socks a ! c) = Some j \<Longrightarrow> j < length (al_tasks a) \<and> rt_conn (al_tasks a ! j) = c" for j
      using s by (simp add: sock_ok_def)
    ultimately have "sk_lock (f (al_socks a ! c)) = Some j \<Longrightarrow> j < length (al_tasks a) \<and> rt_conn (al_tasks ?b ! j) = d" for j
      using i'(1) c True conn by metis
    moreover have "(Some j, msg) \<in> set (sk_sent (al_socks a ! c)) \<Longrightarrow>
        j < length (al_tasks a) \<and> rt_conn (al_tasks ?b ! j) = d \<and> rt_state (al_tasks ?b ! j) = Replied msg" for j msg
      using s True old_sent [of j msg] conn [of j] by (simp add: sock_ok_def)
    moreover have "rt_conn (al_tasks ?b ! i) = d" "rt_state (al_tasks ?b ! i) = st" using True i' c by simp_all
    moreover have "distinct (map fst (sk_sent (al_socks a ! c)))"
      "sk_sent (al_socks a ! c) = [] \<or> fst (hd (sk_sent (al_socks a ! c))) = None"
      "\<And>msg. (None, msg) \<in> set (sk_sent (al_socks a ! c)) \<Longrightarrow> le_hello env = Inr msg"
      using s by (auto simp: sock_ok_def)
    moreover have "Some i \<notin> fst ` set (sk_sent (al_socks a ! c))" using unsent [OF c'] by force
    ultimately show ?thesis
      unfolding sock_ok_def k sent using greeted i' by (cases st) auto
  next
    case False
    then show ?thesis using sock [OF d] i' unfinished by (auto simp: sock_ok_def nth_list_update)
  qed
  ultimately show ?thesis by (simp add: loop_inv_def)
qed

lemma ok_append_task:
  "i < length (al_tasks a) \<Longrightarrow> task_ok env (a\<lparr>al_tasks := al_tasks a @ ts\<rparr>) i = task_ok env a i"
  "sock_ok env a c \<Longrightarrow> sock_ok env (a\<lparr>al_tasks := al_tasks a @ ts\<rparr>) c"
  by (simp add: task_ok_def nth_append) (force simp: sock_ok_def nth_append)

lemma ok_append_sock:
  "task_ok env a i \<Longrightarrow> task_ok env (a\<lparr>al_phase := p, al_socks := al_socks a @ ks\<rparr>) i"
  "c < length (al_socks a) \<Longrightarrow> sock_ok env (a\<lparr>al_phase := p, al_socks := al_socks a @ ks\<rparr>) c = sock_ok env a c"
  by (auto simp: task_ok_def sock_ok_def nth_append)

lemma ok_irrelevant [simp]:
  "task_ok env (a\<lparr>al_phase := p\<rparr>) i = task_ok env a i" "sock_ok env (a\<lparr>al_phase := p\<rparr>) c = sock_ok env a c"
  "task_ok env (a\<lparr>al_cancelled := q\<rparr>) i = task_ok env a i" "sock_ok env (a\<lparr>al_cancelled := q\<rparr>) c = sock_ok env a c"
  "task_ok env (a\<lparr>al_backoff := n\<rparr>) i = task_ok env a i" "sock_ok env (a\<lparr>al_backoff := n\<rparr>) c = sock_ok env a c"
  by (simp_all add: task_ok_def sock_ok_def)

lemma ok_map_sock:
  assumes "\<And>k. sk_lock (f k) = sk_lock k \<and> sk_sent (f k) = sk_sent k"
  shows "task_ok env (map_sock c f a) i = task_ok env a i" "sock_ok env (map_sock c f a) d = sock_ok env a d"
    "phase_ok (map_sock c f a) = phase_ok a"
proof -
  have "sk_lock ((al_socks a)[c := f (al_socks a ! c)] ! d) = sk_lock (al_socks a ! d) \<and>
      sk_sent ((al_socks a)[c := f (al_socks a ! c)] ! d) = sk_sent (al_socks a ! d)" for d
    using assms by (cases "c < length (al_socks a)") (auto simp: nth_list_update list_update_beyond)
  then show "task_ok env (map_sock c f a) i = task_ok env a i" "sock_ok env (map_sock c f a) d = sock_ok env a d"
    "phase_ok (map_sock c f a) = phase_ok a"
    by (simp_all add: task_ok_def sock_ok_def phase_ok_def)
qed

lemma loop_inv_run_next:
  assumes inv: "loop_inv env a" and e: "run_next env e a = Some b"
  shows "loop_inv env b"
proof -
  have task: "task_ok env a j" if "j < length (al_tasks a)" for j using inv that by (simp add: loop_inv_def)
  have sock: "sock_ok env a d" if "d < length (al_socks a)" for d using inv that by (simp add: loop_inv_def)
  have ph: "phase_ok a" using inv by (simp add: loop_inv_def)
  show ?thesis
  proof (cases e)
    case (Frame c data)
    have r: "al_phase a = Reading c" using e Frame by (simp split: if_splits)
    show ?thesis
    proof (cases "le_parse env data")
      case (Inl err)
      then show ?thesis using e Frame r inv by (simp split: if_splits)
    next
      case (Inr req)
      let ?t = "\<lparr>rt_conn = c, rt_req = req, rt_state = Handling\<rparr>"
      have b: "b = a\<lparr>al_tasks := al_tasks a @ [?t]\<rparr>" using e Frame Inr r by (simp split: if_splits)
      have c: "c < length (al_socks a)" using ph r by (simp add: phase_ok_def)
      then have "sk_lock (al_socks a ! c) \<noteq> Some (length (al_tasks a))" using sock [OF c] by (auto simp: sock_ok_def)
      then have "task_ok env b (length (al_tasks a))" using c ph r by (simp add: task_ok_def phase_ok_def b)
      moreover have "phase_ok b" using ph r by (simp add: phase_ok_def b)
      ultimately show ?thesis
        using task sock by (auto simp: loop_inv_def b ok_append_task less_Suc_eq)
    qed
  next
    case (Dialed w)
    then obtain p k where b: "b = a\<lparr>al_phase := p, al_socks := al_socks a @ [k]\<rparr>"
      and k: "sk_lock k = None" "sk_sent k = [] \<and> p = Pausing \<or>
        (\<exists>h. le_hello env = Inr h \<and> sk_sent k = [(None, h)]) \<and> p = Reading (length (al_socks a))"
      using e by (auto split: if_splits sum.splits)
    have "sock_ok env b (length (al_socks a))" using k by (auto simp: sock_ok_def b)
    moreover have "phase_ok b" using k by (auto simp: phase_ok_def b)
    ultimately show ?thesis
      using task sock by (auto simp: loop_inv_def b ok_append_sock less_Suc_eq)
  next
    case (ReadFailed err)
    then obtain c where b: "b = map_sock c CloseNow (a\<lparr>al_phase := Pausing\<rparr>)"
      using e by (auto split: run_phase.splits)
    show ?thesis
      using task sock by (auto simp: loop_inv_def b ok_map_sock phase_ok_def)
  qed (use e ph task sock in \<open>auto simp: loop_inv_def phase_ok_def list_all_iff split: if_splits\<close>)
qed

lemma loop_inv_next:
  assumes inv: "loop_inv env a" and e: "loop_next env e a = Some b"
  shows "loop_inv env b"
  using e
proof (cases rule: loop_next_cases)
  case cancel
  then show ?thesis using inv by (auto simp: loop_inv_def phase_ok_def)
next
  case run
  then show ?thesis using loop_inv_run_next [OF inv] by blast
next
  case (handled i res)
  let ?st = "after_handler env (rt_req (al_tasks a ! i)) res" and ?c = "rt_conn (al_tasks a ! i)"
  have t: "i < length (al_tasks a)" "rt_state (al_tasks a ! i) = Handling" using handled(2) by (auto simp: task_in_def)
  then have "sk_lock (al_socks a ! ?c) \<noteq> Some i" using inv by (auto simp: loop_inv_def task_ok_def)
  moreover have "?st \<noteq> Replied out" for out by (auto simp: after_handler_def split: option.split sum.split)
  then have "(case ?st of Replied out \<Rightarrow> [(Some i, out)] | _ \<Rightarrow> []) = []" by (simp split: handler_state.split)
  moreover have "map_sock ?c (\<lambda>k. k) a = a" by (simp add: map_sock_def)
  ultimately show ?thesis
    using loop_inv_touch [OF inv handled(2) _ refl, where st = ?st and f = "\<lambda>k. k"]
      after_handler_answers [of env "rt_req (al_tasks a ! i)" res] \<open>\<And>out. ?st \<noteq> Replied out\<close>
    by (auto simp: handled(3))
next
  case (lock i out)
  then have "answers env (rt_req (al_tasks a ! i)) out" using inv by (auto simp: loop_inv_def task_ok_def task_in_def)
  then show ?thesis
    unfolding lock(4) by (intro loop_inv_touch [OF inv lock(2) _ refl]) (simp_all add: lock(3))
next
  case (failed i out)
  then have "sk_lock (al_socks a ! rt_conn (al_tasks a ! i)) = Some i"
    using inv by (auto simp: loop_inv_def task_ok_def task_in_def)
  then show ?thesis
    unfolding failed(3) by (intro loop_inv_touch [OF inv failed(2) _ refl]) simp_all
next
  case (written i out res f)
  then have "sk_lock (al_socks a ! rt_conn (al_tasks a ! i)) = Some i" "answers env (rt_req (al_tasks a ! i)) out"
    "sk_sent (al_socks a ! rt_conn (al_tasks a ! i)) \<noteq> []"
    using inv by (auto simp: loop_inv_def task_ok_def task_in_def)
  then show ?thesis
    unfolding written(3) by (intro loop_inv_touch [OF inv written(2) _ refl]) (simp_all add: written(4))
next
  case (ping c f)
  then show ?thesis using inv by (auto simp: loop_inv_def ok_map_sock)
qed
lemma loop_inv_run: "loop_run env es a = Some b \<Longrightarrow> loop_inv env a \<Longrightarrow> loop_inv env b"
  by (induction es arbitrary: a) (auto split: option.splits intro: loop_inv_next)

lemma loop_inv_new: "loop_inv env new_loop"
  by (simp add: loop_inv_def new_loop_def phase_ok_def)

text \<open>The requests that were read, each with the connection it was read from, in order.\<close>

fun accepted :: "('raw, 'v) loop_env \<Rightarrow> 'v loop_event list \<Rightarrow> (nat \<times> 'raw request) list" where
  "accepted env [] = []"
| "accepted env (Frame c data # es) =
     (case le_parse env data of Inl err \<Rightarrow> accepted env es | Inr req \<Rightarrow> (c, req) # accepted env es)"
| "accepted env (_ # es) = accepted env es"

abbreviation task_keys :: "'raw agent_loop \<Rightarrow> (nat \<times> 'raw request) list" where
  "task_keys a \<equiv> map (\<lambda>t. (rt_conn t, rt_req t)) (al_tasks a)"

lemma task_keys_set [simp]: "task_keys (set_task i st a) = task_keys a"
  by (cases "i < length (al_tasks a)") (auto simp: map_update list_update_same_conv list_update_beyond)

lemma task_keys_next:
  assumes "loop_next env e a = Some b"
  shows "task_keys b = task_keys a @ accepted env [e]"
  using assms
proof (cases rule: loop_next_cases)
  case run
  then show ?thesis by (cases e) (auto split: if_splits sum.splits run_phase.splits)
qed (auto simp del: set_task_simps(4))

lemma accepted_Cons: "accepted env (e # es) = accepted env [e] @ accepted env es"
  by (cases e) (auto split: sum.split)

lemma task_keys_run: "loop_run env es a = Some b \<Longrightarrow> task_keys b = task_keys a @ accepted env es"
proof (induction es arbitrary: a)
  case (Cons e es)
  then show ?case
    using task_keys_next [of env e a] by (simp add: accepted_Cons [of env e es] split: option.splits)
qed simp

lemma dispatched_id: "dispatched env req res = Some resp \<Longrightarrow> rs_RequestID resp = rq_RequestID req"
  by (auto simp: dispatched_def disp_Dispatch_def agent_dispatcher_get Let_def
      split: option.splits sum.splits if_splits)

text \<open>
  However reconnects, requests and their answers interleave, an answer never goes to another
  connection than its request came from: on each connection the first message is the hello, every
  later one is the dispatcher's response, under the request's id, to a request that was read from
  this very connection, and no request is answered twice.
\<close>

lemma replies_on_own_connection:
  assumes "loop_run env es new_loop = Some a" and "c < length (al_socks a)"
  shows "case sk_sent (al_socks a ! c) of
      [] \<Rightarrow> True
    | (who, hello) # replies \<Rightarrow> who = None \<and> le_hello env = Inr hello \<and> distinct (map fst replies) \<and>
        (\<forall>(by, msg) \<in> set replies. \<exists>i req res resp. by = Some i \<and> i < length (accepted env es) \<and>
           accepted env es ! i = (c, req) \<and> dispatched env req res = Some resp \<and>
           rs_RequestID resp = rq_RequestID req \<and> le_response env resp = Inr msg)"
proof (cases "sk_sent (al_socks a ! c)")
  case (Cons m ms)
  have inv: "loop_inv env a" by (rule loop_inv_run [OF assms(1) loop_inv_new])
  then have s: "sock_ok env a c" using assms(2) by (simp add: loop_inv_def)
  have keys: "task_keys a = accepted env es" using task_keys_run [OF assms(1)] by (simp add: new_loop_def)
  have m: "fst m = None" "le_hello env = Inr (snd m)" "distinct (map fst ms)" "None \<notin> fst ` set ms"
    using s Cons by (cases m; auto simp: sock_ok_def)+
  have "\<exists>i req res resp. by = Some i \<and> i < length (accepted env es) \<and>
      accepted env es ! i = (c, req) \<and> dispatched env req res = Some resp \<and>
      rs_RequestID resp = rq_RequestID req \<and> le_response env resp = Inr msg" if x: "(by, msg) \<in> set ms" for "by" msg
  proof -
    obtain i where i: "by = Some i" using m(4) x by (cases "by") force+
    then have t: "i < length (al_tasks a)" "rt_conn (al_tasks a ! i) = c" "rt_state (al_tasks a ! i) = Replied msg"
      using s x Cons by (auto simp: sock_ok_def)
    then have "answers env (rt_req (al_tasks a ! i)) msg" using inv by (auto simp: loop_inv_def task_ok_def)
    moreover have "accepted env es ! i = (c, rt_req (al_tasks a ! i))" "i < length (accepted env es)"
      using t by (simp_all add: keys [symmetric])
    ultimately show ?thesis using i dispatched_id unfolding answers_def by blast
  qed
  then show ?thesis using m unfolding Cons by (cases m) auto
qed simp

section \<open>Properties\<close>

text \<open>
  The end: an event of the background is the cancelling itself or a ping loop's; every other step after
  the cancel brings \<open>Run\<close> nearer to its return.
\<close>

fun background :: "'v loop_event \<Rightarrow> bool" where
  "background Cancel = True"
| "background (PingFailed c) = True"
| "background (PingStopped c) = True"
| "background _ = False"

fun task_rank :: "handler_state \<Rightarrow> nat" where
  "task_rank Handling = 3"
| "task_rank (Ready out) = 2"
| "task_rank (Writing out) = 1"
| "task_rank _ = 0"

definition drain_rank :: "'raw agent_loop \<Rightarrow> nat" where
  "drain_rank a = (if al_phase a = Draining then 1 else 0) + sum_list (map (\<lambda>t. task_rank (rt_state t)) (al_tasks a))"

lemma sum_list_update_less:
  "i < length xs \<Longrightarrow> (y :: nat) < f (xs ! i) \<Longrightarrow> f x = y \<Longrightarrow> sum_list (map f (xs[i := x])) < sum_list (map f xs)"
  by (induction xs arbitrary: i) (auto split: nat.splits simp: less_Suc_eq_0_disj)

lemma drain_rank_set:
  "i < length (al_tasks a) \<Longrightarrow> task_rank st < task_rank (rt_state (al_tasks a ! i)) \<Longrightarrow>
   drain_rank (set_task i st (map_sock c f a)) < drain_rank a"
  unfolding drain_rank_def by (auto intro: sum_list_update_less)

lemma drain_rank_next:
  assumes "loop_next env e a = Some b" and "al_phase a = Draining"
  shows "if background e then drain_rank b = drain_rank a else drain_rank b < drain_rank a"
  using assms(1)
proof (cases rule: loop_next_cases)
  case run
  then show ?thesis using assms(2) by (cases e) (auto simp: drain_rank_def split: if_splits)
next
  case (handled i res)
  have "task_rank (after_handler env (rt_req (al_tasks a ! i)) res) < 3"
    by (auto simp: after_handler_def split: option.split sum.split)
  moreover have "map_sock 0 id a = a" by (simp add: map_sock_def)
  ultimately show ?thesis
    using handled drain_rank_set [of i a _ 0 id] by (auto simp: task_in_def)
next
  case (lock i out)
  then show ?thesis by (auto simp: task_in_def intro: drain_rank_set)
next
  case (failed i out)
  then show ?thesis by (auto simp: task_in_def intro: drain_rank_set)
next
  case (written i out res f)
  then show ?thesis by (auto simp: task_in_def intro: drain_rank_set)
qed (auto simp: drain_rank_def)

lemma drain_progress:
  assumes inv: "loop_inv env a" and drain: "al_phase a = Draining"
  shows "\<exists>e b. loop_next env e a = Some b \<and> \<not> background e"
proof (cases "list_all (\<lambda>t. finished (rt_state t)) (al_tasks a)")
  case True
  then show ?thesis using drain by (intro exI [of _ Drained]) (simp add: loop_next_def)
next
  case False
  then obtain i where i: "i < length (al_tasks a)" "\<not> finished (rt_state (al_tasks a ! i))"
    by (auto simp: list_all_length)
  consider j out where "task_in a j (Writing out)" | "task_in a i Handling"
    | out where "task_in a i (Ready out)" "\<nexists>j out. task_in a j (Writing out)"
    using i by (cases "rt_state (al_tasks a ! i)") (auto simp: task_in_def)
  then show ?thesis
  proof cases
    case 1
    then show ?thesis
      by (intro exI [of _ "Written j (WriteFailed False)"]) (auto simp: loop_next_def task_in_def Let_def)
  next
    case 2
    then show ?thesis by (intro exI [of _ "Handled i None"]) (simp add: loop_next_def)
  next
    case 3
    let ?c = "rt_conn (al_tasks a ! i)"
    have "?c < length (al_socks a)" using inv i by (simp add: loop_inv_def task_ok_def)
    then have s: "sock_ok env a ?c" using inv by (simp add: loop_inv_def)
    have "\<exists>out. task_in a j (Writing out)" if l: "sk_lock (al_socks a ! ?c) = Some j" for j
    proof -
      have j: "j < length (al_tasks a)" "rt_conn (al_tasks a ! j) = ?c" using s l by (simp_all add: sock_ok_def)
      then have "task_ok env a j" using inv by (simp add: loop_inv_def)
      then show ?thesis using j l by (simp add: task_ok_def task_in_def)
    qed
    then have "sk_lock (al_socks a ! ?c) = None" using 3(2) by (cases "sk_lock (al_socks a ! ?c)") auto
    then show ?thesis
      using 3(1) by (intro exI [of _ "Lock i"]) (auto simp: loop_next_def task_in_def Let_def)
  qed
qed

lemma returned_next:
  assumes "loop_inv env a" and "al_phase a = Returned" and "loop_next env e a = Some b"
  shows "al_phase b = Returned \<and> al_tasks b = al_tasks a \<and> map sk_sent (al_socks b) = map sk_sent (al_socks a)"
proof -
  have fin: "\<not> task_in a i st" if "\<not> finished st" for i st
    using assms(1,2) that by (auto simp: loop_inv_def phase_ok_def task_in_def all_set_conv_all_nth)
  show ?thesis
    using assms(3)
  proof (cases rule: loop_next_cases)
    case run
    then show ?thesis using assms(2) by (cases e) (auto split: if_splits)
  next
    case (ping c f)
    then show ?thesis using assms(2)
      by (simp add: map_update) (metis list_update_id nth_map)
  qed (use assms(2) fin in auto)
qed

lemma cancelled_drains:
  assumes "al_cancelled a" and "al_phase a \<notin> {Draining, Returned}"
  shows "\<exists>es b. length es \<le> 2 \<and> loop_run env es a = Some b \<and> al_phase b = Draining"
proof -
  have "\<exists>es. length es \<le> 2 \<and> (\<exists>b. loop_run env es a = Some b \<and> al_phase b = Draining)"
  proof (cases "al_phase a")
    case Looping
    then show ?thesis using assms by (intro exI [of _ "[CheckCtx]"]) (simp add: loop_next_def)
  next
    case Dialing
    then show ?thesis using assms by (intro exI [of _ "[DialFailed [], Interrupted]"]) (simp add: loop_next_def)
  next
    case (Reading c)
    then show ?thesis using assms by (intro exI [of _ "[ReadFailed [], Interrupted]"]) (simp add: loop_next_def)
  next
    case Pausing
    then show ?thesis using assms by (intro exI [of _ "[Interrupted]"]) (simp add: loop_next_def)
  qed (use assms in auto)
  then show ?thesis by blast
qed


text \<open>
  The wait has no limit: while a request's handler does not return, \<open>Run\<close> does not either, whatever
  else happens. (A \<open>process.write\<close> to a process that does not read is such a handler: it ignores the
  context.)
\<close>

lemma handling_kept:
  assumes "loop_next env e a = Some b" and "task_in a i Handling" and "\<forall>res. e \<noteq> Handled i res"
  shows "task_in b i Handling"
  using assms(1)
proof (cases rule: loop_next_cases)
  case run
  then show ?thesis using assms(2)
    by (cases e) (auto simp: task_in_def nth_append split: if_splits sum.splits run_phase.splits)
qed (use assms(2,3) in \<open>auto simp: task_in_def nth_list_update\<close>)

lemma no_return_while_handling:
  assumes "loop_run env es a = Some b" and "task_in a i Handling" and "\<forall>res. Handled i res \<notin> set es"
    and "loop_inv env a"
  shows "task_in b i Handling \<and> al_phase b \<noteq> Returned"
proof -
  have "task_in b i Handling" using assms(1-3)
    by (induction es arbitrary: a) (auto split: option.splits dest: handling_kept)
  moreover have "loop_inv env b" by (rule loop_inv_run [OF assms(1,4)])
  ultimately show ?thesis by (auto simp: loop_inv_def phase_ok_def task_in_def all_set_conv_all_nth)
qed

subsection \<open>Witnesses\<close>

text \<open>An Agent that reads two pings, answers one and loses the connection before it answers the other.\<close>

definition ping_env :: "(unit, ping_result) loop_env" where
  "ping_env =
     \<lparr>le_parse = (\<lambda>data. Inr \<lparr>rq_Type = TypeRequest, rq_RequestID = data, rq_Method = MethodDevicePing, rq_Params = ()\<rparr>),
      le_value = (\<lambda>v. Inr ()), le_response = (\<lambda>resp. Inr (''re'' @ rs_RequestID resp)), le_hello = Inr ''hello''\<rparr>"

definition ping_events :: "ping_result loop_event list" where
  "ping_events =
     [CheckCtx, Dialed True, Frame 0 ''1'', Frame 0 ''2'', Handled 1 (Some (Inr \<lparr>pg_Status = ''pong''\<rparr>)), Lock 1,
      Written 1 WriteOk, Cancel, ReadFailed ''closed'', Interrupted, PingStopped 0, Handled 0 None, Drained]"

lemma ping_env_simps:
  "le_parse ping_env data = Inr \<lparr>rq_Type = TypeRequest, rq_RequestID = data, rq_Method = MethodDevicePing, rq_Params = ()\<rparr>"
  "le_hello ping_env = Inr ''hello''"
  "after_handler ping_env \<lparr>rq_Type = TypeRequest, rq_RequestID = data, rq_Method = MethodDevicePing, rq_Params = ()\<rparr>
     (Some (Inr v)) = Ready (''re'' @ data)"
  "after_handler ping_env req None = NoReply \<or> rq_Method req \<noteq> MethodDevicePing"
  by (simp_all add: after_handler_def dispatched_def disp_Dispatch_def agent_dispatcher_get ping_env_def agent_methods_def)

lemma ping_no_reply:
  "after_handler ping_env \<lparr>rq_Type = t, rq_RequestID = i, rq_Method = MethodDevicePing, rq_Params = ()\<rparr> None = NoReply"
  using ping_env_simps(4) by (metis request.select_convs(3))

lemma ping_run:
  obtains a where "loop_run ping_env ping_events new_loop = Some a" "al_phase a = Returned"
    "map sk_sent (al_socks a) = [[(None, ''hello''), (Some 1, ''re2'')]]"
proof -
  have "case loop_run ping_env ping_events new_loop of None \<Rightarrow> False | Some a \<Rightarrow> al_phase a = Returned \<and>
    map sk_sent (al_socks a) = [[(None, ''hello''), (Some 1, ''re2'')]]"
    by (simp add: ping_events_def new_loop_def loop_next_def task_in_def set_task_def map_sock_def
        CloseNow_def ping_env_simps(1-3) ping_no_reply Let_def)
  then show ?thesis using that by (cases "loop_run ping_env ping_events new_loop") auto
qed

end
