(* ===== verification/SelfUpdate.thy ===== *)
theory SelfUpdate
  imports Paths
begin

text \<open>
  The Agent's self-update (internal/selfupdate): choosing a release and its assets (release.go),
  checking a download against the checksums file (checksum.go), extracting the binary and
  replacing the running one (apply.go), and when checks run (selfupdate.go). HTTP, JSON, gzip and
  tar, SHA-256 and the system calls are parameters; the replacement of the binary keeps every
  state of the file system it goes through.
\<close>

section \<open>Errors\<close>

datatype update_error =
  UnsupportedGOARCH string
| NoAsset string string
| NoChecksums string
| RequestFailed string
| BadStatus string int
| BadRelease string
| DownloadTooLarge string
| DownloadFailed string update_error
| ChecksumMismatch string string string
| NoChecksumEntry string
| GzipError string
| TarError string
| EntryTooLarge string
| NotInArchive string
| ReadEntryFailed string
| NoExecutablePath string
| TempCreateFailed string
| TempWriteFailed string
| TempCloseFailed string
| ChmodFailed string
| RenameFailed string
| ReExecFailed string string

section \<open>Releases\<close>

definition DevVersion :: string where "DevVersion = ''dev''"

definition binaryName :: string where "binaryName = ''command-relay-agent''"

record asset =
  as_Name :: string
  as_BrowserDownloadURL :: string

record release =
  rl_TagName :: string
  rl_Assets :: "asset list"

definition normalizeVersion :: "string \<Rightarrow> string" where
  "normalizeVersion tag = (if has_prefix tag ''v'' then drop 1 tag else tag)"

definition updateNeeded :: "string \<Rightarrow> string \<Rightarrow> bool" where
  "updateNeeded currentVersion tagName \<longleftrightarrow> currentVersion \<noteq> normalizeVersion tagName"

definition archiveAssetName :: "string \<Rightarrow> update_error + string" where
  "archiveAssetName goarch =
     (if goarch = ''amd64'' then Inr (binaryName @ ''_Linux_x86_64.tar.gz'')
      else if goarch = ''arm64'' then Inr (binaryName @ ''_Linux_arm64.tar.gz'')
      else Inl (UnsupportedGOARCH goarch))"

definition selectAsset :: "release \<Rightarrow> string \<Rightarrow> update_error + asset" where
  "selectAsset rel name =
     (case find (\<lambda>a. as_Name a = name) (rl_Assets rel) of
        None \<Rightarrow> Inl (NoAsset (rl_TagName rel) name)
      | Some a \<Rightarrow> Inr a)"

definition selectChecksumsAsset :: "release \<Rightarrow> update_error + asset" where
  "selectChecksumsAsset rel =
     (case find (\<lambda>a. has_suffix (as_Name a) ''_checksums.txt'') (rl_Assets rel) of
        None \<Rightarrow> Inl (NoChecksums (rl_TagName rel))
      | Some a \<Rightarrow> Inr a)"

section \<open>Downloads\<close>

text \<open>
  A GET: the error of building or sending the request, or the status, the body as far as it could
  be read and the error that ended it.
\<close>

type_synonym http_get = "string \<Rightarrow> string + int \<times> bytes \<times> string option"

definition maxAssetBytes :: int where "maxAssetBytes = 100 * 2 ^ 20"

definition fetchLatestRelease :: "http_get \<Rightarrow> (bytes \<Rightarrow> string + release) \<Rightarrow> string \<Rightarrow> update_error + release" where
  "fetchLatestRelease get decode apiURL =
     (case get apiURL of
        Inl err \<Rightarrow> Inl (RequestFailed err)
      | Inr (status, body, _) \<Rightarrow>
          if status \<noteq> 200 then Inl (BadStatus apiURL status)
          else (case decode body of Inl err \<Rightarrow> Inl (BadRelease err) | Inr rel \<Rightarrow> Inr rel))"

text \<open>\<open>io.LimitReader\<close> stops one byte beyond the limit, before a later read error shows.\<close>

definition downloadAsset :: "http_get \<Rightarrow> string \<Rightarrow> update_error + bytes" where
  "downloadAsset get url =
     (case get url of
        Inl err \<Rightarrow> Inl (RequestFailed err)
      | Inr (status, body, read_err) \<Rightarrow>
          if status \<noteq> 200 then Inl (BadStatus url status)
          else if int (length body) > maxAssetBytes then Inl (DownloadTooLarge url)
          else (case read_err of Some err \<Rightarrow> Inl (RequestFailed err) | None \<Rightarrow> Inr body))"

section \<open>Checksums\<close>

fun verify_lines :: "string \<Rightarrow> string \<Rightarrow> string list \<Rightarrow> update_error option" where
  "verify_lines got assetName [] = Some (NoChecksumEntry assetName)"
| "verify_lines got assetName (line # rest) =
     (let fields = fields_from [] line in
      if length fields \<noteq> 2 \<or> fields ! 1 \<noteq> assetName then verify_lines got assetName rest
      else if fields ! 0 \<noteq> got then Some (ChecksumMismatch assetName got (fields ! 0))
      else None)"

text \<open>\<open>sha256\<close> gives the bytes of the digest.\<close>

definition verifySHA256 :: "(bytes \<Rightarrow> string) \<Rightarrow> bytes \<Rightarrow> string \<Rightarrow> string \<Rightarrow> update_error option" where
  "verifySHA256 sha256 data checksumsText assetName =
     verify_lines (hex_encode (sha256 data)) assetName (split_on CHR 0x0A checksumsText)"

section \<open>The archive\<close>

text \<open>
  An entry of a tar archive: whether it is a regular file, its name, the size of its header and what
  reading it gives. \<open>untar\<close> is the archive as the readers deliver it: the entries up to the end or
  to an error of the tar stream; or the error of opening the gzip stream.
\<close>

record tar_entry =
  te_regular :: bool
  te_Name :: string
  te_Size :: int
  te_data :: "string + bytes"

fun extract_entries :: "string \<Rightarrow> (string + tar_entry) list \<Rightarrow> update_error + bytes" where
  "extract_entries name [] = Inl (NotInArchive name)"
| "extract_entries name (Inl err # rest) = Inl (TarError err)"
| "extract_entries name (Inr hdr # rest) =
     (if te_regular hdr \<and> path_Base (te_Name hdr) = name
      then (if te_Size hdr > maxAssetBytes then Inl (EntryTooLarge name)
            else (case te_data hdr of
                    Inl err \<Rightarrow> Inl (ReadEntryFailed err)
                  | Inr data \<Rightarrow> Inr (take (nat (maxAssetBytes + 1)) data)))
      else extract_entries name rest)"

definition extractBinary ::
    "(bytes \<Rightarrow> string + (string + tar_entry) list) \<Rightarrow> bytes \<Rightarrow> string \<Rightarrow> update_error + bytes" where
  "extractBinary untar tarGzData name =
     (case untar tarGzData of Inl err \<Rightarrow> Inl (GzipError err) | Inr entries \<Rightarrow> extract_entries name entries)"

section \<open>Replacing the binary\<close>

record image =
  im_data :: bytes
  im_mode :: nat

type_synonym files = "string \<Rightarrow> image option"

text \<open>
  The outcomes of the system calls: \<open>CreateTemp\<close> in a directory (the path of a new file, or an
  error), the write (an error after some of the bytes, or all of them), and the others.
\<close>

record replace_env =
  re_create :: "string \<Rightarrow> string + string"
  re_write :: "(nat \<times> string) option"
  re_close :: "string option"
  re_chmod :: "string option"
  re_rename :: "string option"
  re_remove_fails :: bool

text \<open>The deferred \<open>Remove\<close>, whose error is ignored.\<close>

definition remove_temp :: "replace_env \<Rightarrow> string \<Rightarrow> files \<Rightarrow> files" where
  "remove_temp env tmp fs = (if re_remove_fails env then fs else fs(tmp := None))"

text \<open>The result, and every state of the files after the first, in order.\<close>

definition replaceBinary ::
    "replace_env \<Rightarrow> string \<Rightarrow> bytes \<Rightarrow> files \<Rightarrow> update_error option \<times> files list" where
  "replaceBinary env destPath data fs =
     (case re_create env (path_Dir destPath) of
        Inl err \<Rightarrow> (Some (TempCreateFailed err), [])
      | Inr tmp \<Rightarrow>
     (let fs1 = fs(tmp \<mapsto> \<lparr>im_data = [], im_mode = 384\<rparr>) in
      case re_write env of
        Some (n, err) \<Rightarrow>
          (let fs2 = fs(tmp \<mapsto> \<lparr>im_data = take n data, im_mode = 384\<rparr>)
           in (Some (TempWriteFailed err), [fs1, fs2, remove_temp env tmp fs2]))
      | None \<Rightarrow>
     (let fs2 = fs(tmp \<mapsto> \<lparr>im_data = data, im_mode = 384\<rparr>) in
      case re_close env of
        Some err \<Rightarrow> (Some (TempCloseFailed err), [fs1, fs2, remove_temp env tmp fs2])
      | None \<Rightarrow>
     (case re_chmod env of
        Some err \<Rightarrow> (Some (ChmodFailed err), [fs1, fs2, remove_temp env tmp fs2])
      | None \<Rightarrow>
     (let fs3 = fs(tmp \<mapsto> \<lparr>im_data = data, im_mode = 493\<rparr>) in
      case re_rename env of
        Some err \<Rightarrow> (Some (RenameFailed err), [fs1, fs2, fs3, remove_temp env tmp fs3])
      | None \<Rightarrow>
          (let fs4 = fs3(destPath := fs3 tmp, tmp := None)
           in (None, [fs1, fs2, fs3, fs4, remove_temp env tmp fs4])))))))"

section \<open>One check\<close>

text \<open>
  The world of a check; \<open>ue_exec\<close> is the error of the re-exec, \<open>None\<close> when the process image was
  replaced and the call never returns.
\<close>

record update_env =
  ue_goarch :: string
  ue_get :: http_get
  ue_decode :: "bytes \<Rightarrow> string + release"
  ue_sha256 :: "bytes \<Rightarrow> bytes"
  ue_untar :: "bytes \<Rightarrow> string + (string + tar_entry) list"
  ue_executable :: "string + string"
  ue_replace :: replace_env
  ue_exec :: "string option"

text \<open>How a check ends: with an error or none, or as the program at a path; and the states of the files.\<close>

datatype check_result = Finished "update_error option" | ReExeced string

definition applyUpdate :: "update_env \<Rightarrow> release \<Rightarrow> files \<Rightarrow> check_result \<times> files list" where
  "applyUpdate env rel fs =
     (let failed = (\<lambda>e. (Finished (Some e), [])) in
      case archiveAssetName (ue_goarch env) of Inl e \<Rightarrow> failed e | Inr archiveName \<Rightarrow>
     (case selectAsset rel archiveName of Inl e \<Rightarrow> failed e | Inr archiveAsset \<Rightarrow>
     (case selectChecksumsAsset rel of Inl e \<Rightarrow> failed e | Inr checksumsAsset \<Rightarrow>
     (case downloadAsset (ue_get env) (as_BrowserDownloadURL archiveAsset) of
        Inl e \<Rightarrow> failed (DownloadFailed (as_Name archiveAsset) e)
      | Inr archiveData \<Rightarrow>
     (case downloadAsset (ue_get env) (as_BrowserDownloadURL checksumsAsset) of
        Inl e \<Rightarrow> failed (DownloadFailed (as_Name checksumsAsset) e)
      | Inr checksumsData \<Rightarrow>
     (case verifySHA256 (ue_sha256 env) archiveData checksumsData (as_Name archiveAsset) of
        Some e \<Rightarrow> failed e
      | None \<Rightarrow>
     (case extractBinary (ue_untar env) archiveData binaryName of Inl e \<Rightarrow> failed e | Inr binData \<Rightarrow>
     (case ue_executable env of
        Inl err \<Rightarrow> failed (NoExecutablePath err)
      | Inr destPath \<Rightarrow>
     (case replaceBinary (ue_replace env) destPath binData fs of
        (Some e, states) \<Rightarrow> (Finished (Some e), states)
      | (None, states) \<Rightarrow>
     (case ue_exec env of
        Some err \<Rightarrow> (Finished (Some (ReExecFailed destPath err)), states)
      | None \<Rightarrow> (ReExeced destPath, states)))))))))))"

definition checkOnce :: "update_env \<Rightarrow> string \<Rightarrow> string \<Rightarrow> files \<Rightarrow> check_result \<times> files list" where
  "checkOnce env apiURL currentVersion fs =
     (case fetchLatestRelease (ue_get env) (ue_decode env) apiURL of
        Inl e \<Rightarrow> (Finished (Some e), [])
      | Inr rel \<Rightarrow>
          if \<not> updateNeeded currentVersion (rl_TagName rel) then (Finished None, [])
          else applyUpdate env rel fs)"

section \<open>When checks run\<close>

definition releasesAPIURL :: string where
  "releasesAPIURL = ''https://api.github.com/repos/tomacheese/command-relay-mcp/releases/latest''"

definition defaultInterval :: int where "defaultInterval = 6 * 3600 * 10 ^ 9"
definition httpTimeout :: int where "httpTimeout = 30 * 10 ^ 9"

text \<open>\<open>None\<close> for a client or URL that the options leave out; a client is its timeout here.\<close>

record update_options =
  uo_Enabled :: bool
  uo_Interval :: int
  uo_CurrentVersion :: string
  uo_HTTPClient :: "int option"
  uo_ReleasesAPIURL :: string

record update_loop =
  ul_timeout :: int
  ul_apiURL :: string
  ul_interval :: int
  ul_currentVersion :: string

definition selfupdate_Start :: "update_options \<Rightarrow> update_loop option" where
  "selfupdate_Start opts =
     (if \<not> uo_Enabled opts \<or> uo_CurrentVersion opts = DevVersion then None
      else Some
        \<lparr>ul_timeout = (case uo_HTTPClient opts of None \<Rightarrow> httpTimeout | Some c \<Rightarrow> c),
         ul_apiURL = (if uo_ReleasesAPIURL opts = [] then releasesAPIURL else uo_ReleasesAPIURL opts),
         ul_interval = (if uo_Interval opts \<le> 0 then defaultInterval else uo_Interval opts),
         ul_currentVersion = uo_CurrentVersion opts\<rparr>)"

text \<open>
  The loop: a check at once and one per tick, each in the world it finds, until the process is
  replaced or the ticks end; \<open>time.NewTicker\<close> panics (\<open>None\<close>) unless the interval is positive. An
  error is logged.
\<close>

fun run_checks :: "update_loop \<Rightarrow> update_env list \<Rightarrow> files \<Rightarrow> update_error list \<times> files \<times> string option" where
  "run_checks lp [] fs = ([], fs, None)"
| "run_checks lp (env # rest) fs =
     (case checkOnce env (ul_apiURL lp) (ul_currentVersion lp) fs of
        (ReExeced path, states) \<Rightarrow> ([], last (fs # states), Some path)
      | (Finished err, states) \<Rightarrow>
          (case run_checks lp rest (last (fs # states)) of
             (log, fs', out) \<Rightarrow> ((case err of None \<Rightarrow> [] | Some e \<Rightarrow> [e]) @ log, fs', out)))"

definition NewTicker :: "int \<Rightarrow> int option" where
  "NewTicker d = (if d \<le> 0 then None else Some d)"

section \<open>Properties\<close>

text \<open>What a passed check of the digest says: the first entry for the name has it.\<close>

lemma verify_lines_None:
  "verify_lines got name ls = None \<longleftrightarrow>
   (\<exists>pre line post. ls = pre @ line # post \<and> fields_from [] line = [got, name] \<and>
      (\<forall>l \<in> set pre. \<forall>d. fields_from [] l \<noteq> [d, name]))"
proof (induction ls)
  case (Cons l ls)
  let ?f = "fields_from [] l"
  show ?case
  proof (cases "length ?f = 2 \<and> ?f ! 1 = name")
    case True
    then obtain d where f: "?f = [d, name]" by (auto simp: length_Suc_conv numeral_2_eq_2)
    show ?thesis
    proof
      assume "verify_lines got name (l # ls) = None"
      then have "?f = [got, name]" using f by (simp split: if_splits)
      then show "\<exists>pre line post. l # ls = pre @ line # post \<and> fields_from [] line = [got, name] \<and>
          (\<forall>l \<in> set pre. \<forall>d. fields_from [] l \<noteq> [d, name])"
        by (intro exI [of _ "[]"] exI [of _ l] exI [of _ ls]) simp
    next
      assume "\<exists>pre line post. l # ls = pre @ line # post \<and> fields_from [] line = [got, name] \<and>
          (\<forall>l \<in> set pre. \<forall>d. fields_from [] l \<noteq> [d, name])"
      then obtain pre line post where e: "l # ls = pre @ line # post" "fields_from [] line = [got, name]"
        "\<forall>l \<in> set pre. \<forall>d. fields_from [] l \<noteq> [d, name]" by blast
      then have "pre = []" using f by (cases pre) auto
      then show "verify_lines got name (l # ls) = None" using e f by simp
    qed
  next
    case False
    then have no: "?f \<noteq> [d, name]" for d by auto
    have step: "verify_lines got name (l # ls) = verify_lines got name ls" using False by (auto simp: Let_def)
    show ?thesis (is "_ \<longleftrightarrow> ?R")
    proof
      assume "verify_lines got name (l # ls) = None"
      then obtain pre line post where "ls = pre @ line # post" "fields_from [] line = [got, name]"
        "\<forall>l \<in> set pre. \<forall>d. fields_from [] l \<noteq> [d, name]"
        unfolding step Cons.IH by blast
      then show ?R using no by (intro exI [of _ "l # pre"] exI [of _ line] exI [of _ post]) simp
    next
      assume ?R
      then obtain pre line post where e: "l # ls = pre @ line # post" "fields_from [] line = [got, name]"
        "\<forall>l \<in> set pre. \<forall>d. fields_from [] l \<noteq> [d, name]" by blast
      then obtain pre' where "pre = l # pre'" using no by (cases pre) auto
      then have "ls = pre' @ line # post" "\<forall>l \<in> set pre'. \<forall>d. fields_from [] l \<noteq> [d, name]" using e by auto
      then show "verify_lines got name (l # ls) = None" unfolding step Cons.IH using e(2) by blast
    qed
  qed
qed simp

lemma extract_entries_Inr:
  "extract_entries name es = Inr d \<Longrightarrow>
   \<exists>hdr data. Inr hdr \<in> set es \<and> te_regular hdr \<and> path_Base (te_Name hdr) = name \<and> te_Size hdr \<le> maxAssetBytes \<and>
     te_data hdr = Inr data \<and> d = take (nat (maxAssetBytes + 1)) data"
proof (induction name es rule: extract_entries.induct)
  case (3 name hdr rest)
  show ?case
  proof (cases "te_regular hdr \<and> path_Base (te_Name hdr) = name")
    case True
    then show ?thesis using "3.prems" by (auto split: if_splits sum.splits)
  next
    case False
    then show ?thesis using 3 by fastforce
  qed
qed auto

text \<open>Every state the replacement goes through has the old or the whole new binary.\<close>

lemma replaceBinary_states:
  assumes "replaceBinary env dest data fs = (err, states)"
    and fresh: "\<And>tmp. re_create env (path_Dir dest) = Inr tmp \<Longrightarrow> fs tmp = None \<and> tmp \<noteq> dest"
  defines "img \<equiv> \<lparr>im_data = data, im_mode = 493\<rparr>"
  shows "\<forall>s \<in> set states. s dest = fs dest \<or> s dest = Some img"
    and "err = None \<Longrightarrow> states \<noteq> [] \<and> last states = fs(dest \<mapsto> img)"
    and "err \<noteq> None \<Longrightarrow> (\<forall>s \<in> set states. s dest = fs dest) \<and>
           (\<not> re_remove_fails env \<longrightarrow> last (fs # states) = fs)"
proof -
  have "(\<forall>s \<in> set states. s dest = fs dest \<or> s dest = Some img) \<and>
    (err = None \<longrightarrow> states \<noteq> [] \<and> last states = fs(dest \<mapsto> img)) \<and>
    (err \<noteq> None \<longrightarrow> (\<forall>s \<in> set states. s dest = fs dest) \<and> (\<not> re_remove_fails env \<longrightarrow> last (fs # states) = fs))"
  proof (cases "re_create env (path_Dir dest)")
    case (Inl e)
    then show ?thesis using assms(1) by (auto simp: replaceBinary_def)
  next
    case (Inr tmp)
    then have t: "fs tmp = None" "tmp \<noteq> dest" using fresh by auto
    have undo: "remove_temp env tmp (fs(tmp \<mapsto> x)) dest = fs dest"
      "\<not> re_remove_fails env \<Longrightarrow> remove_temp env tmp (fs(tmp \<mapsto> x)) = fs" for x
      using t by (auto simp: remove_temp_def fun_eq_iff)
    have ren: "(fs(tmp \<mapsto> x))(dest := (fs(tmp \<mapsto> x)) tmp, tmp := None) = fs(dest \<mapsto> x)" for x
      using t by (auto simp: fun_eq_iff)
    have keep: "remove_temp env tmp (fs(dest \<mapsto> x)) = fs(dest \<mapsto> x)" for x
      using t by (auto simp: remove_temp_def fun_eq_iff)
    show ?thesis
      using assms(1) t undo
      unfolding replaceBinary_def Inr sum.case Let_def ren keep img_def
      by (auto split: option.splits prod.splits)
  qed
  then show "\<forall>s \<in> set states. s dest = fs dest \<or> s dest = Some img"
    and "err = None \<Longrightarrow> states \<noteq> [] \<and> last states = fs(dest \<mapsto> img)"
    and "err \<noteq> None \<Longrightarrow> (\<forall>s \<in> set states. s dest = fs dest) \<and>
           (\<not> re_remove_fails env \<longrightarrow> last (fs # states) = fs)" by blast+
qed

text \<open>
  C8. Replacing the running binary is atomic: in every state the file system goes through, also when
  the Agent dies in between, the path holds the old binary or the whole new one with its
  execute bits. Success means the new one is there and nothing else changed; after an error the
  old one is, and no temporary file stays unless removing it failed.
\<close>

theorem replace_binary_atomic:
  assumes "replaceBinary env dest data fs = (err, states)"
    and "\<And>tmp. re_create env (path_Dir dest) = Inr tmp \<Longrightarrow> fs tmp = None \<and> tmp \<noteq> dest"
  shows "(\<forall>s \<in> set states. s dest = fs dest \<or> s dest = Some \<lparr>im_data = data, im_mode = 493\<rparr>) \<and>
    (case err of
       None \<Rightarrow> last states = fs(dest \<mapsto> \<lparr>im_data = data, im_mode = 493\<rparr>)
     | Some e \<Rightarrow> (\<forall>s \<in> set states. s dest = fs dest) \<and> (\<not> re_remove_fails env \<longrightarrow> last (fs # states) = fs))"
  using replaceBinary_states [OF assms] by (cases err) auto

lemma applyUpdate_effect:
  assumes "applyUpdate env rel fs = (res, states)" and "states \<noteq> [] \<or> (\<exists>p. res = ReExeced p)"
  obtains name a c archive sums bin dest err where
    "archiveAssetName (ue_goarch env) = Inr name" "selectAsset rel name = Inr a" "selectChecksumsAsset rel = Inr c"
    "downloadAsset (ue_get env) (as_BrowserDownloadURL a) = Inr archive"
    "downloadAsset (ue_get env) (as_BrowserDownloadURL c) = Inr sums"
    "verifySHA256 (ue_sha256 env) archive sums (as_Name a) = None"
    "extractBinary (ue_untar env) archive binaryName = Inr bin" "ue_executable env = Inr dest"
    "replaceBinary (ue_replace env) dest bin fs = (err, states)" "\<And>p. res = ReExeced p \<Longrightarrow> p = dest \<and> err = None"
  using assms unfolding applyUpdate_def Let_def
  by (auto split: sum.splits option.splits prod.splits)

lemma find_Some_in: "find P xs = Some x \<Longrightarrow> x \<in> set xs \<and> P x"
  by (auto simp: find_Some_iff)


subsection \<open>The loop never starts a ticker that panics\<close>

lemma Start_ticker: "selfupdate_Start opts = Some l \<Longrightarrow> NewTicker (ul_interval l) = Some (ul_interval l)"
  by (auto simp: selfupdate_Start_def NewTicker_def defaultInterval_def split: if_splits)

lemma Start_noop: "selfupdate_Start opts = None \<longleftrightarrow> \<not> uo_Enabled opts \<or> uo_CurrentVersion opts = DevVersion"
  by (simp add: selfupdate_Start_def)

text \<open>
  A version that differs is enough, an older one too: nothing compares which of the two is newer.
\<close>

lemma older_release_installed: "updateNeeded ''2.0.0'' ''v1.0.0''"
  by (simp add: updateNeeded_def normalizeVersion_def has_prefix_def)

subsection \<open>Witnesses\<close>

definition sample_replace :: replace_env where
  "sample_replace = \<lparr>re_create = (\<lambda>dir. Inr ''/bin/.t''), re_write = None, re_close = None, re_chmod = None,
     re_rename = None, re_remove_fails = False\<rparr>"

definition old_files :: files where
  "old_files = [''/bin/agent'' \<mapsto> \<lparr>im_data = ''old'', im_mode = 493\<rparr>]"

definition sample_release :: release where
  "sample_release = \<lparr>rl_TagName = ''v2'', rl_Assets =
     [\<lparr>as_Name = ''agent_checksums.txt'', as_BrowserDownloadURL = ''c''\<rparr>,
      \<lparr>as_Name = ''command-relay-agent_Linux_x86_64.tar.gz'', as_BrowserDownloadURL = ''a''\<rparr>]\<rparr>"

definition sample_update :: update_env where
  "sample_update = \<lparr>ue_goarch = ''amd64'',
     ue_get = (\<lambda>url. if url = ''c'' then Inr (200, ''0f  command-relay-agent_Linux_x86_64.tar.gz'', None) else Inr (200, ''AR'', None)),
     ue_decode = (\<lambda>body. Inr sample_release), ue_sha256 = (\<lambda>data. [CHR 0x0F]),
     ue_untar = (\<lambda>data. Inr [Inr \<lparr>te_regular = True, te_Name = ''command-relay-agent'', te_Size = 3, te_data = Inr ''new''\<rparr>]),
     ue_executable = Inr ''/bin/agent'', ue_replace = sample_replace, ue_exec = None\<rparr>"

theorem replace_binary_atomic_witness:
  "\<exists>states. replaceBinary (sample_replace\<lparr>re_write := Some (1, ''disk full'')\<rparr>) ''/bin/agent'' ''new'' old_files =
       (Some (TempWriteFailed ''disk full''), states) \<and>
     (\<forall>s \<in> set states. s ''/bin/agent'' = old_files ''/bin/agent'') \<and> last (old_files # states) = old_files"
proof -
  let ?env = "sample_replace\<lparr>re_write := Some (1, ''disk full'')\<rparr>"
  obtain states where r: "replaceBinary ?env ''/bin/agent'' ''new'' old_files = (Some (TempWriteFailed ''disk full''), states)"
    by (simp add: replaceBinary_def sample_replace_def Let_def)
  have "\<And>tmp. re_create ?env (path_Dir ''/bin/agent'') = Inr tmp \<Longrightarrow> old_files tmp = None \<and> tmp \<noteq> ''/bin/agent''"
    by (auto simp: sample_replace_def old_files_def)
  from replace_binary_atomic [OF r this] r show ?thesis by (auto simp: sample_replace_def)
qed

lemma sample_check: "\<exists>states. checkOnce sample_update ''api'' ''1'' old_files = (ReExeced ''/bin/agent'', states)"
proof -
  have "downloadAsset (ue_get sample_update) ''a'' = Inr ''AR''"
    and "downloadAsset (ue_get sample_update) ''c'' = Inr ''0f  command-relay-agent_Linux_x86_64.tar.gz''"
    by (simp_all add: downloadAsset_def sample_update_def maxAssetBytes_def)
  moreover have "verifySHA256 (ue_sha256 sample_update) ''AR'' ''0f  command-relay-agent_Linux_x86_64.tar.gz''
      ''command-relay-agent_Linux_x86_64.tar.gz'' = None"
    by (simp add: verifySHA256_def sample_update_def is_space_def hex_encode_def hex_char_def digit_char_def char_of_def bit_0)
  moreover have "extractBinary (ue_untar sample_update) ''AR'' binaryName = Inr ''new''"
    by (simp add: extractBinary_def sample_update_def binaryName_def path_Base_def maxAssetBytes_def)
  moreover have "fetchLatestRelease (ue_get sample_update) (ue_decode sample_update) ''api'' = Inr sample_release"
    by (simp add: fetchLatestRelease_def sample_update_def)
  ultimately show ?thesis
    by (simp add: checkOnce_def applyUpdate_def updateNeeded_def normalizeVersion_def sample_release_def
        archiveAssetName_def selectAsset_def selectChecksumsAsset_def has_suffix_def has_prefix_def binaryName_def Let_def)
       (simp add: sample_update_def replaceBinary_def sample_replace_def Let_def)
qed


end
