(* ===== verification/AgentMain.thy ===== *)
theory AgentMain
  imports AgentServer SelfUpdate
begin

text \<open>
  The Agent's entry point (agent/cmd/main.go): the three ways the binary runs, the child that
  confines itself with Landlock and becomes the command of command.read, and how the Agent
  starts and stops. The kernel's answers and the opened database are parameters.
\<close>

section \<open>The ways the binary runs\<close>

definition versionRequested :: "string list \<Rightarrow> bool" where
  "versionRequested args \<longleftrightarrow> length args \<ge> 2 \<and> args ! 1 = ''--version''"

datatype run_mode = PrintVersion | LandlockExec "string list" | RunAgent

definition main_mode :: "string list \<Rightarrow> run_mode" where
  "main_mode args =
     (if versionRequested args then PrintVersion
      else if length args \<ge> 3 \<and> args ! 1 = ''--landlock-exec'' \<and> args ! 2 = ''--'' then LandlockExec (drop 3 args)
      else RunAgent)"

section \<open>The sandboxed child\<close>

definition hostHomeEntriesToLink :: "string list" where
  "hostHomeEntriesToLink =
     [''.profile'', ''.bash_profile'', ''.bash_login'', ''.bashrc'', ''.zshenv'', ''.zprofile'', ''.zshrc'',
      ''.config'', ''.local'', ''.cache'']"

text \<open>The symbolic links it tries to make, target first; \<open>exists\<close> is \<open>os.Lstat\<close> succeeding.\<close>

definition linkHostHomeEntries :: "(string \<Rightarrow> bool) \<Rightarrow> string \<Rightarrow> string \<Rightarrow> (string \<times> string) list" where
  "linkHostHomeEntries exists realHome scratchDir =
     (if realHome = [] then []
      else map (\<lambda>name. (path_Join [realHome, name], path_Join [scratchDir, name]))
             (filter (\<lambda>name. exists (path_Join [realHome, name])) hostHomeEntriesToLink))"

definition env_get :: "string list \<Rightarrow> string \<Rightarrow> string" where
  "env_get env k = (case env_lookup env k of None \<Rightarrow> [] | Some v \<Rightarrow> v)"

definition env_set :: "string list \<Rightarrow> string \<Rightarrow> string \<Rightarrow> string list" where
  "env_set env k v = filter (\<lambda>e. entry_key e \<noteq> k) env @ [k @ ''='' @ v]"

text \<open>What a Landlock ruleset allows beyond nothing.\<close>

datatype landlock_rule = RODirs string | RWDirs string | RWFiles string

text \<open>
  The kernel's answers: \<open>RestrictPaths\<close> with its error, \<open>LookPath\<close> under an environment, and \<open>Exec\<close>,
  which returns only with an error.
\<close>

record child_os =
  lo_lstat :: "string \<Rightarrow> bool"
  lo_restrict :: "landlock_rule list \<Rightarrow> string option"
  lo_lookpath :: "string list \<Rightarrow> string \<Rightarrow> string + string"
  lo_exec :: "string \<Rightarrow> string option"

record process_image =
  pi_path :: string
  pi_argv :: "string list"
  pi_env :: "string list"
  pi_rules :: "landlock_rule list"

datatype child_end = ChildExited int | ChildBecame process_image

text \<open>
  A run of the child: what it wrote to the status pipe, the links it made and how it ended. The pipe
  is closed on exec, so the parent reads exactly \<open>lx_status\<close>.
\<close>

record child_run =
  lx_status :: bytes
  lx_links :: "(string \<times> string) list"
  lx_end :: child_end

definition landlock_fail :: "(string \<times> string) list \<Rightarrow> child_run" where
  "landlock_fail links =
     \<lparr>lx_status = [CHR 0x01], lx_links = links, lx_end = ChildExited SandboxSetupFailedExitCode\<rparr>"

definition landlockExecMain :: "child_os \<Rightarrow> string list \<Rightarrow> string list \<Rightarrow> child_run" where
  "landlockExecMain os env execArgv =
     (if execArgv = [] then landlock_fail []
      else
        let scratchDir = env_get env scratchDirEnvVar in
        if scratchDir = [] then landlock_fail []
        else
          let links = linkHostHomeEntries (lo_lstat os) (env_get env ''HOME'') scratchDir;
              env = env_set env ''TMPDIR'' scratchDir;
              env = env_set env ''HOME'' scratchDir;
              rules = [RODirs ''/'', RWDirs scratchDir, RWFiles ''/dev/null'']
          in (case lo_restrict os rules of
                Some err \<Rightarrow> landlock_fail links
              | None \<Rightarrow>
                  (case lo_lookpath os env (hd execArgv) of
                     Inl err \<Rightarrow> landlock_fail links
                   | Inr path \<Rightarrow>
                       (case lo_exec os path of
                          Some err \<Rightarrow> landlock_fail links
                        | None \<Rightarrow>
                            \<lparr>lx_status = [], lx_links = links,
                             lx_end = ChildBecame \<lparr>pi_path = path, pi_argv = execArgv, pi_env = env, pi_rules = rules\<rparr>\<rparr>))))"

section \<open>Starting and stopping\<close>

text \<open>A start ends in \<open>log.Fatal\<close>, or with the handlers' state and what else it runs.\<close>

record 'db started_agent =
  sa_agent :: "'db agent"
  sa_capabilities :: capabilities
  sa_commands :: command_handlers
  sa_update :: "update_loop option"

definition mustEnv :: "(string \<Rightarrow> string) \<Rightarrow> string list \<Rightarrow> string option" where
  "mustEnv getenv keys = find (\<lambda>k. getenv k = []) keys"

text \<open>
  \<open>open_db\<close> opens the history at a path, \<open>executable\<close> is \<open>os.Executable\<close>, \<open>probe\<close> the sandbox probe with
  that binary and the configured shell.
\<close>

definition agent_startup ::
    "(string \<Rightarrow> string) \<Rightarrow> agent_config \<Rightarrow> (string \<Rightarrow> string + 'db) \<Rightarrow> string + string \<Rightarrow>
     (string \<Rightarrow> string list \<Rightarrow> bool) \<Rightarrow> string + 'db started_agent" where
  "agent_startup getenv cfg open_db executable probe =
     (case mustEnv getenv [''DEVICE_ID'', ''DEVICE_SECRET'', ''GATEWAY_URL''] of
        Some key \<Rightarrow> Inl (''agent: required env var '' @ key @ '' not set'')
      | None \<Rightarrow>
     (case open_db (envOr_agent getenv ''HISTORY_DB_PATH'' ''agent-history.db'') of
        Inl err \<Rightarrow> Inl (''agent: open history store: '' @ err)
      | Inr db \<Rightarrow>
     (case executable of
        Inl err \<Rightarrow> Inl (''agent: os.Executable: '' @ err)
      | Inr selfPath \<Rightarrow>
          let supported = probe selfPath (cf_DefaultShell cfg);
              mgr = NewManager (cf_StdoutBufferBytes cfg) (cf_StderrBufferBytes cfg) (cf_FinishedProcessTTL cfg)
          in Inr
            \<lparr>sa_agent = \<lparr>ag_mgr = mgr, ag_sandboxMgr = sandbox_manager cfg supported, ag_heap = [], ag_db = db,
                        ag_background = [], ag_log = []\<rparr>,
             sa_capabilities = agent_capabilities supported,
             sa_commands = NewCommandHandlers (cf_DeviceID cfg) 30000,
             sa_update = selfupdate_Start
               \<lparr>uo_Enabled = cf_AutoUpdateEnabled cfg, uo_Interval = cf_AutoUpdateInterval cfg,
                uo_CurrentVersion = cf_AgentVersion cfg, uo_HTTPClient = None, uo_ReleasesAPIURL = []\<rparr>\<rparr>)))"

text \<open>
  The end of \<open>main\<close>, after \<open>conn.Run\<close> returned and every handler with it: all processes that have not
  exited are terminated, the plain Manager's first. The second component says whether \<open>log.Fatalf\<close>
  follows.
\<close>

definition agent_shutdown ::
    "string option \<Rightarrow> bool \<Rightarrow> (nat \<Rightarrow> nat \<Rightarrow> signal \<Rightarrow> errno option) \<Rightarrow> (nat \<Rightarrow> select_arm list) \<Rightarrow> 'db agent \<Rightarrow>
     (nat \<times> (errno option \<times> signal list) option) list \<times> bool" where
  "agent_shutdown runErr ctx_ended kill arms s =
     (mgr_TerminateAll (ag_mgr s) (ag_heap s) kill arms @
      (case ag_sandboxMgr s of None \<Rightarrow> [] | Some m \<Rightarrow> mgr_TerminateAll m (ag_heap s) kill arms),
      runErr \<noteq> None \<and> \<not> ctx_ended)"

section \<open>Properties\<close>

lemma env_lookup_filter: "k \<noteq> k' \<Longrightarrow> env_lookup (filter (\<lambda>e. entry_key e \<noteq> k') env) k = env_lookup env k"
  by (induction env) (auto split: option.splits)

lemma env_lookup_set:
  assumes "CHR ''='' \<notin> set k'"
  shows "env_lookup (env_set env k' v) k = (if k = k' then Some v else env_lookup env k)"
proof (cases "k = k'")
  case True
  then show ?thesis using env_lookup_last [OF assms] by (simp add: env_set_def)
next
  case False
  then show ?thesis
    using entry_key_entry [OF assms, of v] by (simp add: env_set_def env_lookup_append env_lookup_filter)
qed

text \<open>
  C4. A command of command.read runs confined or not at all. Started by the sandboxed backend, whatever
  command and environment the caller chose, the child either exits with 111 and a byte on the
  status pipe, and the parent reports the setup as failed; or it becomes the shell with the command
  after Landlock accepted exactly this ruleset: everything read-only but the scratch directory the
  parent created and /dev/null, with HOME and TMPDIR at that directory, and the parent reports
  no failure.
\<close>

theorem sandbox_confines_command:
  "let cmd = sandbox_command bin shell environ ids dir opts;
       run = landlockExecMain os (the (ec_env cmd)) (shell @ [so_Command opts]);
       rules = [RODirs ''/'', RWDirs dir, RWFiles ''/dev/null''];
       failed = er_SandboxSetupFailed (fst (sandbox_wait h st (lx_status run) remove_err w))
   in main_mode (ec_path cmd # ec_args cmd) = LandlockExec (shell @ [so_Command opts]) \<and>
      (case lx_end run of
         ChildExited n \<Rightarrow> n = 111 \<and> failed
       | ChildBecame im \<Rightarrow> \<not> failed \<and> lo_restrict os rules = None \<and> pi_rules im = rules \<and>
           pi_argv im = shell @ [so_Command opts] \<and>
           env_lookup (pi_env im) ''HOME'' = Some dir \<and> env_lookup (pi_env im) ''TMPDIR'' = Some dir)"
proof -
  let ?cmd = "sandbox_command bin shell environ ids dir opts"
  let ?env = "the (ec_env ?cmd)"
  have scratch: "env_get ?env scratchDirEnvVar = dir"
    using env_lookup_last [of scratchDirEnvVar "environ (so_Cwd opts) @ env_entries (so_Env opts)" dir]
    by (simp add: env_get_def sandbox_command_def scratchDirEnvVar_def)
  have eq: "CHR ''='' \<notin> set ''HOME''" "CHR ''='' \<notin> set ''TMPDIR''" by simp_all
  have "main_mode (ec_path ?cmd # ec_args ?cmd) = LandlockExec (shell @ [so_Command opts])"
    by (simp add: main_mode_def versionRequested_def sandbox_command_def)
  then show ?thesis
    using scratch
    by (auto simp: landlockExecMain_def landlock_fail_def SandboxSetupFailedExitCode_def sandbox_wait_def Let_def
        env_lookup_set [OF eq(1)] env_lookup_set [OF eq(2)] split: option.split sum.split)
qed

text \<open>The Agent advertises command.read exactly when its handler has a sandbox to run in.\<close>

lemma startup_capability:
  "agent_startup getenv cfg open_db executable probe = Inr sa \<Longrightarrow>
   cap_CommandRead (sa_capabilities sa) \<longleftrightarrow> ag_sandboxMgr (sa_agent sa) \<noteq> None"
  by (auto simp: agent_startup_def agent_capabilities_def sandbox_manager_def Let_def
      split: option.splits sum.splits if_splits)

text \<open>No link leaves the scratch directory: each is a dot entry directly in it.\<close>

lemma links_in_scratch:
  "(target, link) \<in> set (linkHostHomeEntries exists home scratch) \<Longrightarrow>
   exists target \<and> (\<exists>name \<in> set hostHomeEntriesToLink. target = path_Join [home, name] \<and> link = path_Join [scratch, name])"
  by (auto simp: linkHostHomeEntries_def split: if_splits)

text \<open>How the termination of one group ends, and the calls of a shutdown.\<close>

definition terminated :: "(nat \<Rightarrow> signal \<Rightarrow> errno option) \<Rightarrow> errno option \<times> signal list \<Rightarrow> bool" where
  "terminated kill = (\<lambda>(err, sigs). hd sigs = SIGTERM \<and>
     (case err of
        None \<Rightarrow> (\<exists>n. kill n Signal0 = Some ESRCH) \<or> last sigs = SIGKILL
      | Some e \<Rightarrow> e \<noteq> ESRCH \<and> (\<exists>n sg. kill n sg = Some e)))"

lemma handle_Terminate_terminates: "\<exists>r. handle_Terminate kill (arms_for ticks) = Some r \<and> terminated kill r"
  using handle_Terminate_summary [of kill ticks] by (force simp: terminated_def split: option.split)

lemma shutdown_calls:
  "(a, r) \<in> set (fst (agent_shutdown runErr ended kill arms s)) \<longleftrightarrow>
     r = handle_Terminate (kill a) (arms a) \<and> \<not> rec_Exited (ag_heap s ! a) \<and>
     (a \<in> set (mgr_List (ag_mgr s)) \<or> (\<exists>m. ag_sandboxMgr s = Some m \<and> a \<in> set (mgr_List m)))"
  by (auto simp: agent_shutdown_def mgr_TerminateAll_def split: option.splits)

lemma find_process_listed:
  "find_process s pid = Some (a, who) \<Longrightarrow>
   a \<in> set (mgr_List (ag_mgr s)) \<or> (\<exists>m. ag_sandboxMgr s = Some m \<and> a \<in> set (mgr_List m))"
  by (force simp: find_process_def mgr_Get_def mgr_List_def split: option.splits dest: map_of_SomeD)

end
