(* ===== verification/AgentLife.thy ===== *)
theory AgentLife
  imports AgentMain AgentRuntime AgentLoop
begin

text \<open>
  The life of an Agent (agent/cmd/main.go): the state \<open>agent_startup\<close> builds; its connection's \<open>Run\<close> with
  the goroutines of requests (theory AgentLoop) and the handlers, process goroutines and garbage
  collectors they work with (theory AgentRuntime), interleaved; and, when \<open>Run\<close> has returned, the
  shutdown, which finds every process that is left.
\<close>

section \<open>Connection and handlers together\<close>

text \<open>\<open>lf_busy\<close> are the requests' goroutines that wait for a command, each with what it waits for.\<close>

record ('raw, 'db) life =
  lf_loop :: "'raw agent_loop"
  lf_world :: "'db world"
  lf_busy :: "(nat \<times> waiting) list"

definition started_world :: "'db started_agent \<Rightarrow> 'db world" where
  "started_world sa = \<lparr>wd_agent = sa_agent sa, wd_waiting = []\<rparr>"

definition start_life :: "'db started_agent \<Rightarrow> ('raw, 'db) life" where
  "start_life sa = \<lparr>lf_loop = new_loop, lf_world = started_world sa, lf_busy = []\<rparr>"

text \<open>The goroutine of request \<open>i\<close> is at the start of the handler of method \<open>m\<close>.\<close>

definition enters :: "('raw, 'db) life \<Rightarrow> nat \<Rightarrow> string \<Rightarrow> bool" where
  "enters l i m \<longleftrightarrow>
     task_in (lf_loop l) i Handling \<and> i \<notin> fst ` set (lf_busy l) \<and> rq_Method (rt_req (al_tasks (lf_loop l) ! i)) = m"

definition command_start ::
    "'db sql_engine \<Rightarrow> command_handlers \<Rightarrow> string \<Rightarrow> string + command_params \<Rightarrow> start_env \<Rightarrow> 'db agent \<Rightarrow>
     (rpc_error + waiting) \<times> 'db agent" where
  "command_start eng h m parsed v s =
     (if m = MethodCommandExec then Exec_start eng h parsed v s else Read_start eng h parsed v s)"

text \<open>What else goes on in an Agent: the goroutines of processes, completions and garbage collectors.\<close>

fun own_event :: "world_event \<Rightarrow> bool" where
  "own_event (EvProc a ev) = True"
| "own_event (EvBackground job now) = True"
| "own_event (EvMgrGC now) = True"
| "own_event (EvSandboxGC now) = True"
| "own_event (EvPurge cutoff) = True"
| "own_event _ = False"

text \<open>
  The steps. \<open>res\<close> is what a handler returns to the dispatcher, \<open>None\<close> when it panics. The other
  handlers neither start processes nor change the Managers, and their results are any.
\<close>

inductive life_step ::
    "('raw, 'v) loop_env \<Rightarrow> 'db sql_engine \<Rightarrow> command_handlers \<Rightarrow> ('raw, 'db) life \<Rightarrow> ('raw, 'db) life \<Rightarrow> bool"
  for env eng h where
  connection: "loop_next env e (lf_loop l) = Some a \<Longrightarrow> \<forall>i res. e \<noteq> Handled i res \<Longrightarrow>
    life_step env eng h l (l\<lparr>lf_loop := a\<rparr>)"
| own: "world_step eng h (lf_world l) ev w \<Longrightarrow> own_event ev \<Longrightarrow> life_step env eng h l (l\<lparr>lf_world := w\<rparr>)"
| command_begins: "enters l i m \<Longrightarrow> m \<in> {MethodCommandExec, MethodCommandRead} \<Longrightarrow> fresh_start eng (lf_world l) v \<Longrightarrow>
    command_start eng h m parsed v (wd_agent (lf_world l)) = (Inr wt, s) \<Longrightarrow>
    life_step env eng h l (l\<lparr>lf_world := with_result (lf_world l) (Inr wt, s), lf_busy := (i, wt) # lf_busy l\<rparr>)"
| command_refused: "enters l i m \<Longrightarrow> m \<in> {MethodCommandExec, MethodCommandRead} \<Longrightarrow> fresh_start eng (lf_world l) v \<Longrightarrow>
    command_start eng h m parsed v (wd_agent (lf_world l)) = (Inl err, s) \<Longrightarrow>
    loop_next env (Handled i (Some (Inl err))) (lf_loop l) = Some a \<Longrightarrow>
    life_step env eng h l (l\<lparr>lf_loop := a, lf_world := with_result (lf_world l) (Inl err, s)\<rparr>)"
| command_returns: "(i, wt) \<in> set (lf_busy l) \<Longrightarrow> world_step eng h (lf_world l) (EvReturn wt ctxDone arm now) w \<Longrightarrow>
    loop_next env (Handled i res) (lf_loop l) = Some a \<Longrightarrow>
    life_step env eng h l (l\<lparr>lf_loop := a, lf_world := w, lf_busy := remove1 (i, wt) (lf_busy l)\<rparr>)"
| process_starts: "enters l i MethodProcessStart \<Longrightarrow> world_step eng h (lf_world l) (EvProcessStart parsed v) w \<Longrightarrow>
    loop_next env (Handled i res) (lf_loop l) = Some a \<Longrightarrow>
    life_step env eng h l (l\<lparr>lf_loop := a, lf_world := w\<rparr>)"
| other_handler: "enters l i m \<Longrightarrow> m \<notin> {MethodCommandExec, MethodCommandRead, MethodProcessStart} \<Longrightarrow>
    loop_next env (Handled i res) (lf_loop l) = Some a \<Longrightarrow> life_step env eng h l (l\<lparr>lf_loop := a\<rparr>)"

inductive life_run ::
    "('raw, 'v) loop_env \<Rightarrow> 'db sql_engine \<Rightarrow> command_handlers \<Rightarrow> ('raw, 'db) life \<Rightarrow> ('raw, 'db) life \<Rightarrow> bool"
  for env eng h where
  life_refl: "life_run env eng h l l"
| life_snoc: "life_run env eng h l l' \<Longrightarrow> life_step env eng h l' l'' \<Longrightarrow> life_run env eng h l l''"

text \<open>Every step is a step, or none, of the connection and of the handlers' world.\<close>

lemma command_start_step:
  assumes "m \<in> {MethodCommandExec, MethodCommandRead}" and "fresh_start eng w v"
  shows "\<exists>ev. world_step eng h w ev (with_result w (command_start eng h m parsed v (wd_agent w)))"
  using assms by (auto simp: command_start_def intro: step_exec step_read)

lemma life_step_world:
  assumes "life_step env eng h l l'"
  shows "lf_world l' = lf_world l \<or> (\<exists>ev. world_step eng h (lf_world l) ev (lf_world l'))"
  using assms
proof cases
  case (command_begins i m v parsed wt s)
  then show ?thesis using command_start_step [of m eng "lf_world l" v h parsed] by auto
next
  case (command_refused i m v parsed err s a)
  then show ?thesis using command_start_step [of m eng "lf_world l" v h parsed] by auto
qed auto

lemma life_run_world:
  "life_run env eng h l l' \<Longrightarrow> \<exists>evs. world_run eng h (lf_world l) evs (lf_world l')"
proof (induction rule: life_run.induct)
  case (life_refl l)
  then show ?case using world_run.world_nil by blast
next
  case (life_snoc l l' l'')
  then show ?case using life_step_world [of env eng h l' l''] by (metis world_run.world_snoc)
qed

lemma life_step_loop:
  "life_step env eng h l l' \<Longrightarrow> lf_loop l' = lf_loop l \<or> (\<exists>e. loop_next env e (lf_loop l) = Some (lf_loop l'))"
  by (induction rule: life_step.induct) auto

lemma life_run_loop_inv: "life_run env eng h l l' \<Longrightarrow> loop_inv env (lf_loop l) \<Longrightarrow> loop_inv env (lf_loop l')"
  by (induction rule: life_run.induct) (auto dest: life_step_loop loop_inv_next)

text \<open>The goroutines that wait for a command are those the handlers' world knows, and all are in their handler.\<close>

definition busy_inv :: "('raw, 'db) life \<Rightarrow> bool" where
  "busy_inv l \<longleftrightarrow>
     mset (map snd (lf_busy l)) = mset (wd_waiting (lf_world l)) \<and> distinct (map fst (lf_busy l)) \<and>
     (\<forall>i \<in> fst ` set (lf_busy l). task_in (lf_loop l) i Handling)"

inductive_cases world_returnE: "world_step eng h w (EvReturn wt ctxDone arm now) w'"
inductive_cases world_process_startE: "world_step eng h w (EvProcessStart parsed v) w'"

lemma own_event_keeps:
  "world_step eng h w ev w' \<Longrightarrow> own_event ev \<Longrightarrow>
   wd_waiting w' = wd_waiting w \<and> map pr_ID (ag_heap (wd_agent w')) = map pr_ID (ag_heap (wd_agent w))"
proof (induction rule: world_step.induct)
  case (step_proc a w ev r)
  then show ?case by (simp add: map_update proc_step_ids list_update_same_conv)
qed (simp_all add: background_end_def try_RecordEnd_def ag_logf_def Let_def split: option.split prod.split)

lemma mset_remove1_map:
  "x \<in> set xs \<Longrightarrow> mset (map f (remove1 x xs)) = mset (map f xs) - {#f x#}"
  by (simp add: image_mset_Diff)

lemma distinct_remove1_map: "distinct (map f xs) \<Longrightarrow> x \<in> set xs \<Longrightarrow>
  distinct (map f (remove1 x xs)) \<and> f ` set (remove1 x xs) = f ` set xs - {f x}"
  by (induction xs) auto

lemma handled_keeps_others:
  assumes "loop_next env (Handled i res) a = Some b" and "\<forall>j \<in> J. task_in a j Handling" and "i \<notin> J"
  shows "\<forall>j \<in> J. task_in b j Handling"
  using assms handling_kept by fastforce

lemma busy_keeps:
  assumes "busy_inv l" and "enters l i m" and "loop_next env (Handled i res) (lf_loop l) = Some a"
  shows "\<forall>j \<in> fst ` set (lf_busy l). task_in a j Handling"
  by (rule handled_keeps_others [OF assms(3)]) (use assms(1,2) in \<open>auto simp: busy_inv_def enters_def\<close>)

lemma busy_inv_step:
  assumes step: "life_step env eng h l l'" and inv: "busy_inv l"
  shows "busy_inv l'"
  using step
proof cases
  case (connection e a)
  then show ?thesis using inv handling_kept [OF connection(2)] by (auto simp: busy_inv_def)
next
  case (own ev w)
  then show ?thesis using inv own_event_keeps [OF own(2,3)] by (simp add: busy_inv_def)
next
  case (command_begins i m v parsed wt s)
  then show ?thesis using inv by (simp add: busy_inv_def enters_def with_result_def)
next
  case (command_refused i m v parsed err s a)
  then show ?thesis using inv busy_keeps [OF inv command_refused(2,6)] by (simp add: busy_inv_def with_result_def)
next
  case (command_returns i wt ctxDone arm now w res a)
  have w: "wd_waiting w = remove1 wt (wd_waiting (lf_world l))"
    using command_returns(3) by (auto elim!: world_returnE)
  have d: "distinct (map fst (lf_busy l))" using inv by (simp add: busy_inv_def)
  have "\<forall>j \<in> fst ` set (lf_busy l) - {i}. task_in a j Handling"
    by (rule handled_keeps_others [OF command_returns(4)]) (use inv in \<open>auto simp: busy_inv_def\<close>)
  then show ?thesis
    using inv w mset_remove1_map [OF command_returns(2), of snd] distinct_remove1_map [OF d command_returns(2)]
    by (simp add: busy_inv_def command_returns(1))
next
  case (process_starts i parsed v w res a)
  have "wd_waiting w = wd_waiting (lf_world l)" using process_starts(3) by (auto elim!: world_process_startE)
  then show ?thesis using inv process_starts(1) busy_keeps [OF inv process_starts(2,4)] by (simp add: busy_inv_def)
next
  case (other_handler i m res a)
  then show ?thesis using inv busy_keeps [OF inv other_handler(2,4)] by (simp add: busy_inv_def)
qed

lemma busy_inv_run: "life_run env eng h l l' \<Longrightarrow> busy_inv l \<Longrightarrow> busy_inv l'"
  by (induction rule: life_run.induct) (auto intro: busy_inv_step)

text \<open>After the return of \<open>Run\<close> no handler is left, and none begins: no further process is started.\<close>

lemma returned_no_handling: "loop_inv env a \<Longrightarrow> al_phase a = Returned \<Longrightarrow> \<not> task_in a i Handling"
  by (auto simp: loop_inv_def phase_ok_def task_in_def all_set_conv_all_nth)

lemma returned_not_busy:
  assumes "loop_inv env (lf_loop l)" and "busy_inv l" and "al_phase (lf_loop l) = Returned"
  shows "lf_busy l = [] \<and> wd_waiting (lf_world l) = []"
proof -
  have "lf_busy l = []"
    using assms returned_no_handling by (cases "lf_busy l") (force simp: busy_inv_def)+
  then show ?thesis using assms(2) by (simp add: busy_inv_def)
qed

lemma returned_step:
  assumes step: "life_step env eng h l l'"
    and inv: "loop_inv env (lf_loop l)" "busy_inv l" and ret: "al_phase (lf_loop l) = Returned"
  shows "al_phase (lf_loop l') = Returned \<and>
    map pr_ID (ag_heap (wd_agent (lf_world l'))) = map pr_ID (ag_heap (wd_agent (lf_world l)))"
proof -
  have no: "\<not> enters l i m" for i m using returned_no_handling [OF inv(1) ret] by (simp add: enters_def)
  show ?thesis
    using step
  proof cases
    case (connection e a)
    then show ?thesis using returned_next [OF inv(1) ret connection(2)] by simp
  next
    case (own ev w)
    then show ?thesis using own_event_keeps [OF own(2,3)] ret by simp
  next
    case (command_returns i wt ctxDone arm now w res a)
    then show ?thesis using returned_not_busy [OF inv ret] by simp
  qed (use no in blast)+
qed

lemma returned_run:
  assumes "life_run env eng h l l'" and "loop_inv env (lf_loop l)" and "busy_inv l" and "al_phase (lf_loop l) = Returned"
  shows "al_phase (lf_loop l') = Returned \<and>
    map pr_ID (ag_heap (wd_agent (lf_world l'))) = map pr_ID (ag_heap (wd_agent (lf_world l)))"
  using assms
proof (induction rule: life_run.induct)
  case (life_snoc l l' l'')
  then show ?case
    using returned_step [OF life_snoc.hyps(2)] life_run_loop_inv [OF life_snoc.hyps(1)] busy_inv_run [OF life_snoc.hyps(1)] by simp
qed simp

section \<open>From the start to the shutdown\<close>

lemma started_world_initial:
  assumes "agent_startup getenv cfg open_db executable probe = Inr sa"
  shows "\<exists>m sandbox. started_world sa = initial_world m sandbox (ag_db (sa_agent sa)) \<and> mg_procs m = [] \<and>
    (\<forall>sm. sandbox = Some sm \<longrightarrow> mg_procs sm = [])"
proof -
  obtain db supported where sa: "sa_agent sa =
      \<lparr>ag_mgr = NewManager (cf_StdoutBufferBytes cfg) (cf_StderrBufferBytes cfg) (cf_FinishedProcessTTL cfg),
       ag_sandboxMgr = sandbox_manager cfg supported, ag_heap = [], ag_db = db, ag_background = [], ag_log = []\<rparr>"
    using assms by (auto simp: agent_startup_def Let_def split: option.splits sum.splits)
  show ?thesis
    by (intro exI conjI) (auto simp: started_world_def initial_world_def sa NewManager_def sandbox_manager_def split: if_splits)
qed

text \<open>An Agent that starts without a sandbox never gets one, and keeps the one it has.\<close>

lemma sandbox_kept_step:
  "world_step eng h w ev w' \<Longrightarrow> ag_sandboxMgr (wd_agent w') = None \<longleftrightarrow> ag_sandboxMgr (wd_agent w) = None"
  by (cases rule: world_step.cases)
    (auto simp: with_result_def Exec_start_def Read_start_def process_Start_def after_wait_def recordEndEventually_def
      background_end_def ag_logf_def Let_def split: sum.splits option.splits prod.splits if_splits)

lemma sandbox_kept:
  "world_run eng h w evs w' \<Longrightarrow> ag_sandboxMgr (wd_agent w') = None \<longleftrightarrow> ag_sandboxMgr (wd_agent w) = None"
  by (induction rule: world_run.induct) (simp_all add: sandbox_kept_step)

lemma started_heap_inv:
  assumes "sqlite_table eng rows" and "agent_startup getenv cfg open_db executable probe = Inr sa"
    and "table_ok (rows (ag_db (sa_agent sa)))" and "world_run eng (sa_commands sa) (started_world sa) evs w"
  shows "heap_inv (wd_agent w)"
proof -
  obtain m sandbox where i: "started_world sa = initial_world m sandbox (ag_db (sa_agent sa))" "mg_procs m = []"
    "\<forall>sm. sandbox = Some sm \<longrightarrow> mg_procs sm = []"
    using started_world_initial [OF assms(2)] by blast
  show ?thesis
    using sqlite.world_run_inv [OF sqlite.intro [OF assms(1)] assms(3) i(2,3) assms(4) [unfolded i(1)]]
    by (simp add: world_inv_def)
qed

lemma start_life_ok: "loop_inv env (lf_loop (start_life sa))" "busy_inv (start_life sa)"
  by (simp_all add: start_life_def loop_inv_new busy_inv_def started_world_def)

lemma tracked_terminated:
  assumes inv: "heap_inv s" and a: "a < length (ag_heap s)" "unpublished (ag_heap s ! a)"
    and total: "\<exists>r. handle_Terminate (kill a) (arms a) = Some r \<and> terminated (kill a) r"
  shows "\<exists>r. (a, Some r) \<in> set (fst (agent_shutdown runErr ended kill arms s)) \<and> terminated (kill a) r"
proof -
  have "\<not> rec_Exited (ag_heap s ! a)"
    using unpublished_running [OF _ a(2)] a(1) inv by (simp add: heap_inv_def)
  moreover obtain who where "find_process s (pr_ID (ag_heap s ! a)) = Some (a, who)"
    using heap_inv_find [OF inv a] by blast
  ultimately show ?thesis using find_process_listed total by (metis shutdown_calls)
qed

text \<open>
  C18. No process survives a graceful stop. Let the Agent start, serve any requests in any interleaving of
  its goroutines, and let \<open>Run\<close> return. Then no handler still waits for a command, and none will ever
  start another process; the shutdown sends SIGTERM to the group of every process ever started
  whose exit has not been published, whichever Manager has it, and returns from it only when a
  probe found the group gone, or SIGKILL was sent, or the kernel refused a signal for another reason
  than an empty group; every one of these calls returns, and no process that has exited is
  signalled.
\<close>

theorem shutdown_terminates_all:
  assumes "sqlite_table eng rows" and "agent_startup getenv cfg open_db executable probe = Inr sa"
    and "table_ok (rows (ag_db (sa_agent sa)))" and "life_run env eng (sa_commands sa) (start_life sa) l"
    and "al_phase (lf_loop l) = Returned" and "\<forall>a. \<exists>ticks. arms a = arms_for ticks"
  shows "let s = wd_agent (lf_world l); calls = fst (agent_shutdown runErr ended kill arms s) in
    wd_waiting (lf_world l) = [] \<and>
    (\<forall>l'. life_run env eng (sa_commands sa) l l' \<longrightarrow>
       map pr_ID (ag_heap (wd_agent (lf_world l'))) = map pr_ID (ag_heap s)) \<and>
    (\<forall>a < length (ag_heap s). unpublished (ag_heap s ! a) \<longrightarrow> (\<exists>r. (a, Some r) \<in> set calls \<and> terminated (kill a) r)) \<and>
    (\<forall>(a, r) \<in> set calls. \<not> rec_Exited (ag_heap s ! a) \<and> r \<noteq> None)"
proof -
  let ?s = "wd_agent (lf_world l)"
  have inv: "loop_inv env (lf_loop l)" "busy_inv l"
    using life_run_loop_inv [OF assms(4)] busy_inv_run [OF assms(4)] start_life_ok by blast+
  obtain evs where "world_run eng (sa_commands sa) (started_world sa) evs (lf_world l)"
    using life_run_world [OF assms(4)] by (auto simp: start_life_def)
  then have heap: "heap_inv ?s" by (rule started_heap_inv [OF assms(1-3)])
  have total: "\<exists>r. handle_Terminate (kill a) (arms a) = Some r \<and> terminated (kill a) r" for a
    using handle_Terminate_terminates assms(6) by metis
  have "\<not> rec_Exited (ag_heap ?s ! a) \<and> r \<noteq> None"
    if "(a, r) \<in> set (fst (agent_shutdown runErr ended kill arms ?s))" for a r
    using that total [of a] by (auto simp: shutdown_calls)
  moreover have "\<exists>r. (a, Some r) \<in> set (fst (agent_shutdown runErr ended kill arms ?s)) \<and> terminated (kill a) r"
    if "a < length (ag_heap ?s)" "unpublished (ag_heap ?s ! a)" for a
    by (rule tracked_terminated [OF heap that total])
  ultimately show ?thesis
    using returned_not_busy [OF inv assms(5)] returned_run [OF _ inv assms(5)] unfolding Let_def by blast
qed

subsection \<open>Witness\<close>

text \<open>
  An Agent without a sandbox reads one process.start, serves it and is told to stop; the process still
  runs at the shutdown.
\<close>

definition sample_config :: agent_config where
  "sample_config =
     \<lparr>cf_DeviceID = ''dev'', cf_DeviceSecret = ''s'', cf_GatewayURL = ''ws'', cf_DefaultShell = [''/bin/sh''],
      cf_StdoutBufferBytes = 4, cf_StderrBufferBytes = 4, cf_FinishedProcessTTL = 10, cf_HistoryRetention = 1,
      cf_AgentVersion = ''dev'', cf_AutoUpdateEnabled = False, cf_AutoUpdateInterval = 1\<rparr>"

lemma sample_startup:
  obtains sa where "agent_startup (\<lambda>k. ''x'') sample_config (\<lambda>path. Inr sample_db) (Inr ''agent'') (\<lambda>bin shell. False) = Inr sa"
    "started_world sa = sample_world" "sa_commands sa = sample_handlers"
  by (simp add: agent_startup_def mustEnv_def sandbox_manager_def started_world_def initial_world_def sample_config_def
      sample_manager_def Let_def)

definition sample_loop_env :: "(unit, unit) loop_env" where
  "sample_loop_env =
     \<lparr>le_parse = (\<lambda>data. Inr \<lparr>rq_Type = TypeRequest, rq_RequestID = data, rq_Method = MethodProcessStart, rq_Params = ()\<rparr>),
      le_value = (\<lambda>v. Inr ()), le_response = (\<lambda>resp. Inr (rs_RequestID resp)), le_hello = Inr ''hello''\<rparr>"

lemma world_single: "world_run eng h w [ev] w' \<Longrightarrow> (world_step eng h w ev w' \<Longrightarrow> P) \<Longrightarrow> P"
  by (erule world_run.cases) (auto elim: world_run.cases)

lemma life_run_trans: "life_run env eng h l' l'' \<Longrightarrow> life_run env eng h l l' \<Longrightarrow> life_run env eng h l l''"
  by (induction rule: life_run.induct) (auto intro: life_run.life_snoc)

lemma life_loop_run:
  "loop_run env es (lf_loop l) = Some a \<Longrightarrow> \<forall>i res. Handled i res \<notin> set es \<Longrightarrow> life_run env eng h l (l\<lparr>lf_loop := a\<rparr>)"
proof (induction es arbitrary: l)
  case Nil
  then have "l\<lparr>lf_loop := a\<rparr> = l" by (cases l) simp
  then show ?case by (simp add: life_run.life_refl)
next
  case (Cons e es)
  then obtain b where b: "loop_next env e (lf_loop l) = Some b" "loop_run env es b = Some a"
    by (auto split: option.splits)
  have "life_run env eng h (l\<lparr>lf_loop := b\<rparr>) (l\<lparr>lf_loop := b\<rparr>\<lparr>lf_loop := a\<rparr>)"
    by (rule Cons.IH) (use b Cons.prems in auto)
  moreover have "life_step env eng h l (l\<lparr>lf_loop := b\<rparr>)"
    by (rule connection [OF b(1)]) (use Cons.prems(2) in auto)
  ultimately show ?case
    by (auto intro: life_run_trans life_run.life_snoc [OF life_run.life_refl])
qed

definition sample_before :: "unit loop_event list" where
  "sample_before = [CheckCtx, Dialed True, Frame 0 ''1'']"

definition sample_after :: "unit loop_event list" where
  "sample_after = [Lock 0, Written 0 WriteOk, Cancel, ReadFailed ''closed'', Interrupted, Drained]"

lemma sample_loop_simps:
  "le_parse sample_loop_env data =
     Inr \<lparr>rq_Type = TypeRequest, rq_RequestID = data, rq_Method = MethodProcessStart, rq_Params = ()\<rparr>"
  "le_hello sample_loop_env = Inr ''hello''"
  "after_handler sample_loop_env \<lparr>rq_Type = TypeRequest, rq_RequestID = data, rq_Method = MethodProcessStart, rq_Params = ()\<rparr>
     (Some (Inr v)) = Ready data"
  by (simp_all add: after_handler_def dispatched_def disp_Dispatch_def agent_dispatcher_get sample_loop_env_def agent_methods_def)

lemma sample_loop:
  obtains a b c where "loop_run sample_loop_env sample_before new_loop = Some a" "task_in a 0 Handling"
    "rq_Method (rt_req (al_tasks a ! 0)) = MethodProcessStart"
    "loop_next sample_loop_env (Handled 0 (Some (Inr ()))) a = Some b"
    "loop_run sample_loop_env sample_after b = Some c" "al_phase c = Returned"
proof -
  have "case loop_run sample_loop_env sample_before new_loop of None \<Rightarrow> False | Some a \<Rightarrow> task_in a 0 Handling \<and>
      rq_Method (rt_req (al_tasks a ! 0)) = MethodProcessStart \<and>
      (case loop_next sample_loop_env (Handled 0 (Some (Inr ()))) a of None \<Rightarrow> False | Some b \<Rightarrow>
        (case loop_run sample_loop_env sample_after b of None \<Rightarrow> False | Some c \<Rightarrow> al_phase c = Returned))"
    by (simp add: sample_before_def sample_after_def new_loop_def loop_next_def task_in_def set_task_def map_sock_def
        CloseNow_def sample_loop_simps Let_def)
  then show thesis using that by (auto split: option.splits)
qed

theorem shutdown_terminates_all_witness:
  "\<exists>(sa :: mem_db started_agent) l r. life_run sample_loop_env mem_engine (sa_commands sa) (start_life sa) l \<and>
     al_phase (lf_loop l) = Returned \<and> ag_heap (wd_agent (lf_world l)) = [sample_record] \<and>
     (0, Some r) \<in> set (fst (agent_shutdown None True (\<lambda>a n sig. Some ESRCH) (\<lambda>a. arms_for 3) (wd_agent (lf_world l)))) \<and>
     terminated (\<lambda>n sig. Some ESRCH) r"
proof (rule sample_startup, rule sample_run1, rule sample_loop)
  fix sa w a b c
  assume sa: "agent_startup (\<lambda>k. ''x'') sample_config (\<lambda>path. Inr sample_db) (Inr ''agent'') (\<lambda>bin shell. False) = Inr sa"
      "started_world sa = sample_world" "sa_commands sa = sample_handlers"
    and w: "world_run mem_engine sample_handlers sample_world [EvProcessStart (Inr sample_process) sample_env] w"
      "ag_heap (wd_agent w) = [sample_record]"
    and loop: "loop_run sample_loop_env sample_before new_loop = Some a" "task_in a 0 Handling"
      "rq_Method (rt_req (al_tasks a ! 0)) = MethodProcessStart"
      "loop_next sample_loop_env (Handled 0 (Some (Inr ()))) a = Some b"
      "loop_run sample_loop_env sample_after b = Some c" "al_phase c = Returned"
  let ?run = "life_run sample_loop_env mem_engine sample_handlers"
  let ?l0 = "start_life sa :: (unit, mem_db) life" let ?l1 = "?l0\<lparr>lf_loop := a\<rparr>"
  let ?l2 = "?l1\<lparr>lf_loop := b, lf_world := w\<rparr>" let ?l3 = "?l2\<lparr>lf_loop := c\<rparr>"
  have start: "lf_loop ?l0 = new_loop" "lf_world ?l0 = sample_world" "lf_busy ?l0 = []"
    by (simp_all add: start_life_def sa(2))
  have "?run ?l0 ?l1" by (rule life_loop_run [of _ sample_before]) (simp_all add: start loop(1), simp add: sample_before_def)
  moreover have "world_step mem_engine sample_handlers sample_world (EvProcessStart (Inr sample_process) sample_env) w"
    using w(1) by (auto elim!: world_single)
  then have "life_step sample_loop_env mem_engine sample_handlers ?l1 ?l2"
    by (intro process_starts [where i = 0 and res = "Some (Inr ())"]) (auto simp: enters_def start loop)
  moreover have "?run ?l2 ?l3" by (rule life_loop_run [of _ sample_after]) (simp_all add: loop(5), simp add: sample_after_def)
  ultimately have run: "?run ?l0 ?l3" by (meson life_run_trans life_run.life_snoc)
  have "ag_db (wd_agent (started_world sa)) = sample_db" by (simp add: sa(2) initial_world_def)
  then have t: "table_ok (mem_rows (ag_db (sa_agent sa)))" by (simp add: started_world_def)
  have "unpublished sample_record" by (simp add: unpublished_def sample_record_def new_record_def)
  moreover have arms: "\<forall>a :: nat. \<exists>ticks. (\<lambda>a. arms_for 3) a = arms_for ticks" by blast
  moreover have ret: "al_phase (lf_loop ?l3) = Returned" by (simp add: loop(6))
  ultimately have "\<exists>r. (0, Some r) \<in> set (fst (agent_shutdown None True (\<lambda>a n sig. Some ESRCH) (\<lambda>a. arms_for 3)
      (wd_agent (lf_world ?l3)))) \<and> terminated (\<lambda>n sig. Some ESRCH) r"
    using shutdown_terminates_all [OF mem.table sa(1) t run [folded sa(3)] ret arms, of None True "\<lambda>a n sig. Some ESRCH"] w(2)
    by (simp add: Let_def)
  then show ?thesis using run ret w(2) by (intro exI [of _ sa] exI [of _ ?l3]) (simp add: sa(3))
qed

end
