(* ===== verification/AgentConn.thy ===== *)
theory AgentConn
  imports Proto
begin

text \<open>
  One Agent's connection on the Gateway (gateway/agentconn.go): concurrent \<open>Call\<close>s multiplexed by
  request id, and the read loop that hands each response to the call waiting for it. The
  calls, the read loop and the peer are interleaved as a step relation; a step is one atomic
  action of the code (a locked section, a channel operation, a read or write of the socket).
  The ping loop only ever closes the socket, which the read loop sees as a read error.
\<close>

section \<open>State\<close>

text \<open>
  Why a call ends: the select's three arms, or a failure before it. \<open>Answered\<close> carries the
  response taken from the call's channel.
\<close>

datatype 'raw end_reason =
  Answered "'raw response" | CtxDone | ConnClosed | WriteErr string | EncodeErr string

text \<open>
  Where a call is: its channel is registered under its id; its request is written and it waits in
  the select; it has a reason to return but its deferred delete has not run; it returned.
\<close>

datatype 'raw call_phase =
  Registered | Selecting | Deferred "'raw end_reason" | Returned "'raw end_reason"

record 'raw call =
  cl_method :: string
  cl_id :: string
  cl_phase :: "'raw call_phase"

text \<open>The read loop: in \<open>ws.Read\<close>, at the send to a channel, or returned with \<open>closed\<close> closed.\<close>

datatype 'raw reader = Reading | Delivering nat "'raw response" | ReaderDone

text \<open>
  \<open>cn_chans\<close> are the channels, of capacity 1, by address: what each one buffers. The channel of the
  \<open>n\<close>th call has address \<open>n\<close>.
\<close>

record 'raw conn =
  cn_nextID :: nat
  cn_pending :: "(string, nat) gomap"
  cn_closed :: bool
  cn_calls :: "'raw call list"
  cn_chans :: "'raw response option list"
  cn_reader :: "'raw reader"

definition new_conn :: "'raw conn" where
  "new_conn = \<lparr>cn_nextID = 0, cn_pending = [], cn_closed = False, cn_calls = [], cn_chans = [],
     cn_reader = Reading\<rparr>"

section \<open>What a call returns\<close>

datatype call_error = RPC rpc_error | Other string

text \<open>The value \<open>Call\<close> returns for each reason; the result of a response may be nil.\<close>

fun call_value :: "string \<Rightarrow> 'raw end_reason \<Rightarrow> call_error + 'raw option" where
  "call_value m (Answered resp) =
     (case rs_Error resp of Some e \<Rightarrow> Inl (RPC e) | None \<Rightarrow> Inr (rs_Result resp))"
| "call_value m CtxDone = Inl (RPC (RPCErr ErrTimeout ''RPC timed out waiting for a response''))"
| "call_value m ConnClosed =
     (if IsMutatingMethod m
      then Inl (RPC (RPCErr ErrExecutionUnknown
             ''connection lost while an execution was in flight; its outcome is unknown''))
      else Inl (RPC (RPCErr ErrTransportLost ''the underlying transport was lost'')))"
| "call_value m (WriteErr err) = Inl (Other err)"
| "call_value m (EncodeErr err) = Inl (Other err)"

section \<open>The keepalive\<close>

text \<open>
  What the ping loop of a connection finds on its turns: its context ended, a pong, or a failed ping,
  with or without the context having ended meanwhile. The result is whether it closed the socket,
  which the read loop sees as \<open>ReadFails\<close> below; \<open>None\<close> while it still runs.
\<close>

datatype ping_outcome = CtxEnded | PingOk | PingErr bool

fun gateway_pingLoop :: "ping_outcome list \<Rightarrow> bool option" where
  "gateway_pingLoop [] = None"
| "gateway_pingLoop (CtxEnded # outs) = Some False"
| "gateway_pingLoop (PingOk # outs) = gateway_pingLoop outs"
| "gateway_pingLoop (PingErr ended # outs) = Some (\<not> ended)"

lemma ex_nat_split: "(\<exists>n. P n) \<longleftrightarrow> P 0 \<or> (\<exists>n. P (Suc n))"
  by (metis not0_implies_Suc)

lemma gateway_pingLoop_closes:
  "gateway_pingLoop outs = Some True \<longleftrightarrow> (\<exists>n rest. outs = replicate n PingOk @ PingErr False # rest)"
proof (induction outs rule: gateway_pingLoop.induct)
  case (2 outs)
  then show ?case by (simp add: ex_nat_split)
next
  case (3 outs)
  then show ?case by (simp add: ex_nat_split [of "\<lambda>n. \<exists>rest. PingOk # outs = replicate n PingOk @ PingErr False # rest"])
next
  case (4 ended outs)
  then show ?case by (simp add: ex_nat_split)
qed simp

section \<open>The steps\<close>

text \<open>
  \<open>Begin m\<close> registers a call whose parameters marshal (a call whose parameters do not leaves no
  trace); \<open>Write\<close> is the outcome of encoding and writing its request; \<open>TakeResponse\<close>,
  \<open>TakeTimeout\<close> and \<open>TakeClosed\<close> are the select's arms, \<open>Cleanup\<close> the deferred delete. \<open>Read\<close> is a
  message that parses, \<open>ReadGarbage\<close> one that does not, \<open>Deliver\<close> the send to the channel.
\<close>

datatype 'raw conn_event =
  Begin string
| Encode nat string
| Write nat "string option"
| TakeResponse nat
| TakeTimeout nat
| TakeClosed nat
| Cleanup nat
| Read "'raw response"
| ReadGarbage
| Deliver
| ReadFails

definition set_phase :: "nat \<Rightarrow> 'raw call_phase \<Rightarrow> 'raw conn \<Rightarrow> 'raw conn" where
  "set_phase i ph c = c\<lparr>cn_calls := (cn_calls c)[i := (cn_calls c ! i)\<lparr>cl_phase := ph\<rparr>]\<rparr>"

definition in_phase :: "'raw conn \<Rightarrow> nat \<Rightarrow> 'raw call_phase \<Rightarrow> bool" where
  "in_phase c i ph \<longleftrightarrow> i < length (cn_calls c) \<and> cl_phase (cn_calls c ! i) = ph"

text \<open>\<open>nextID.Add(1)\<close> on a \<open>uint64\<close>, and the id it prints.\<close>

definition next_id :: "nat \<Rightarrow> nat" where
  "next_id n = (n + 1) mod 2 ^ 64"

inductive conn_step :: "'raw conn \<Rightarrow> 'raw conn_event \<Rightarrow> 'raw conn \<Rightarrow> bool" where
  begin_call: "n = next_id (cn_nextID c) \<Longrightarrow> rid = dec_digits n \<Longrightarrow>
    conn_step c (Begin m)
      (c\<lparr>cn_nextID := n, cn_pending := gm_put rid (length (cn_calls c)) (cn_pending c),
         cn_calls := cn_calls c @ [\<lparr>cl_method = m, cl_id = rid, cl_phase = Registered\<rparr>],
         cn_chans := cn_chans c @ [None]\<rparr>)"
| encode_fails: "in_phase c i Registered \<Longrightarrow>
    conn_step c (Encode i err) (set_phase i (Deferred (EncodeErr err)) c)"
| write_request: "in_phase c i Registered \<Longrightarrow>
    conn_step c (Write i res)
      (set_phase i (case res of None \<Rightarrow> Selecting | Some err \<Rightarrow> Deferred (WriteErr err)) c)"
| take_response: "in_phase c i Selecting \<Longrightarrow> cn_chans c ! i = Some resp \<Longrightarrow>
    conn_step c (TakeResponse i)
      (set_phase i (Deferred (Answered resp)) (c\<lparr>cn_chans := (cn_chans c)[i := None]\<rparr>))"
| take_timeout: "in_phase c i Selecting \<Longrightarrow>
    conn_step c (TakeTimeout i) (set_phase i (Deferred CtxDone) c)"
| take_closed: "in_phase c i Selecting \<Longrightarrow> cn_closed c \<Longrightarrow>
    conn_step c (TakeClosed i) (set_phase i (Deferred ConnClosed) c)"
| cleanup: "in_phase c i (Deferred why) \<Longrightarrow>
    conn_step c (Cleanup i)
      (set_phase i (Returned why) (c\<lparr>cn_pending := gm_del (cl_id (cn_calls c ! i)) (cn_pending c)\<rparr>))"
| read_message: "cn_reader c = Reading \<Longrightarrow>
    conn_step c (Read resp)
      (c\<lparr>cn_reader := (case gm_get (cn_pending c) (rs_RequestID resp) of
                         None \<Rightarrow> Reading | Some ch \<Rightarrow> Delivering ch resp)\<rparr>)"
| read_garbage: "cn_reader c = Reading \<Longrightarrow> conn_step c ReadGarbage c"
| deliver: "cn_reader c = Delivering ch resp \<Longrightarrow> cn_chans c ! ch = None \<Longrightarrow>
    conn_step c Deliver (c\<lparr>cn_chans := (cn_chans c)[ch := Some resp], cn_reader := Reading\<rparr>)"
| read_fails: "cn_reader c = Reading \<Longrightarrow>
    conn_step c ReadFails (c\<lparr>cn_reader := ReaderDone, cn_closed := True\<rparr>)"

inductive_cases conn_stepE: "conn_step c ev c'"

inductive conn_run :: "'raw conn \<Rightarrow> 'raw conn_event list \<Rightarrow> 'raw conn \<Rightarrow> bool" where
  conn_nil: "conn_run c [] c"
| conn_snoc: "conn_run c evs c' \<Longrightarrow> conn_step c' ev c'' \<Longrightarrow> conn_run c (evs @ [ev]) c''"

text \<open>The responses the peer sent, in the order they were read.\<close>

fun responses :: "'raw conn_event list \<Rightarrow> 'raw response list" where
  "responses [] = []"
| "responses (Read resp # evs) = resp # responses evs"
| "responses (ev # evs) = responses evs"

lemma responses_append [simp]: "responses (evs @ evs') = responses evs @ responses evs'"
  by (induction evs rule: responses.induct) auto

section \<open>The invariant\<close>

fun is_returned :: "'raw call_phase \<Rightarrow> bool" where
  "is_returned (Returned why) = True"
| "is_returned ph = False"

text \<open>Ids: the \<open>n\<close>th call has id \<open>n + 1\<close>, and the table holds exactly the calls that have not returned.\<close>

definition ids_inv :: "'raw conn \<Rightarrow> bool" where
  "ids_inv c \<longleftrightarrow>
     cn_nextID c = length (cn_calls c) \<and> length (cn_chans c) = length (cn_calls c) \<and>
     (\<forall>i < length (cn_calls c). cl_id (cn_calls c ! i) = dec_digits (Suc i)) \<and> gm_ok (cn_pending c) \<and>
     (\<forall>rid ch. gm_get (cn_pending c) rid = Some ch \<longleftrightarrow>
        ch < length (cn_calls c) \<and> rid = dec_digits (Suc ch) \<and> \<not> is_returned (cl_phase (cn_calls c ! ch)))"

text \<open>
  Responses: whatever a channel buffers, the read loop carries or a call was answered with has the
  id of that call, and was read; \<open>old\<close> are the responses read before the one being delivered.
\<close>

definition holds :: "'raw conn \<Rightarrow> nat \<Rightarrow> 'raw response \<Rightarrow> bool" where
  "holds c i resp \<longleftrightarrow> i < length (cn_calls c) \<and>
     (cn_chans c ! i = Some resp \<or>
      cl_phase (cn_calls c ! i) \<in> {Deferred (Answered resp), Returned (Answered resp)})"

definition responses_inv :: "'raw response list \<Rightarrow> 'raw conn \<Rightarrow> bool" where
  "responses_inv rs c \<longleftrightarrow>
     (\<exists>old. (\<forall>i resp. holds c i resp \<longrightarrow> resp \<in> set old \<and> rs_RequestID resp = dec_digits (Suc i)) \<and>
        (case cn_reader c of
           Delivering ch resp \<Rightarrow> ch < length (cn_calls c) \<and> rs_RequestID resp = dec_digits (Suc ch) \<and> rs = old @ [resp]
         | _ \<Rightarrow> rs = old))"

lemma in_phase_set [simp]:
  "length (cn_calls (set_phase i ph c)) = length (cn_calls c)"
  "cn_chans (set_phase i ph c) = cn_chans c" "cn_nextID (set_phase i ph c) = cn_nextID c"
  "cn_pending (set_phase i ph c) = cn_pending c" "cn_reader (set_phase i ph c) = cn_reader c"
  "cn_closed (set_phase i ph c) = cn_closed c"
  by (simp_all add: set_phase_def)

lemma nth_set_phase:
  "i < length (cn_calls c) \<Longrightarrow> cn_calls (set_phase i ph c) ! j =
     (if j = i then (cn_calls c ! i)\<lparr>cl_phase := ph\<rparr> else cn_calls c ! j)"
  by (simp add: set_phase_def nth_list_update)

lemma ids_inv_phase:
  assumes "ids_inv c" and "i < length (cn_calls c)" and "\<not> is_returned (cl_phase (cn_calls c ! i))" and "\<not> is_returned ph"
    and "cn_calls c' = cn_calls (set_phase i ph c)" "cn_nextID c' = cn_nextID c" "cn_pending c' = cn_pending c"
    "length (cn_chans c') = length (cn_chans c)"
  shows "ids_inv c'"
  using assms by (auto simp: ids_inv_def nth_set_phase)

lemma ids_inv_begin:
  assumes inv: "ids_inv c" and small: "length (cn_calls c) + 1 < 2 ^ 64" and n: "n = next_id (cn_nextID c)"
  shows "ids_inv (c\<lparr>cn_nextID := n, cn_pending := gm_put (dec_digits n) (length (cn_calls c)) (cn_pending c),
         cn_calls := cn_calls c @ [\<lparr>cl_method = m, cl_id = dec_digits n, cl_phase = Registered\<rparr>],
         cn_chans := cn_chans c @ [None]\<rparr>)"
proof -
  have n: "n = Suc (length (cn_calls c))"
    using n small inv by (simp add: next_id_def ids_inv_def)
  have "gm_get (cn_pending c) (dec_digits n) = None"
    using inv n by (cases "gm_get (cn_pending c) (dec_digits n)") (auto simp: ids_inv_def dest: dec_digits_inj)
  then show ?thesis
    using inv unfolding ids_inv_def n
    by (auto simp: nth_append less_Suc_eq dest: dec_digits_inj)
qed

lemma ids_inv_cleanup:
  assumes inv: "ids_inv c" and ph: "in_phase c i (Deferred why)"
  shows "ids_inv (set_phase i (Returned why) (c\<lparr>cn_pending := gm_del (cl_id (cn_calls c ! i)) (cn_pending c)\<rparr>))"
  using inv ph unfolding ids_inv_def in_phase_def
  by (auto simp: set_phase_def nth_list_update dest: dec_digits_inj)

lemma ids_inv_step:
  assumes "conn_step c ev c'" and "ids_inv c" and "length (cn_calls c') < 2 ^ 64"
  shows "ids_inv c'"
  using assms
proof (induction rule: conn_step.induct)
  case (begin_call n c rid m)
  then show ?case using ids_inv_begin [of c n m] by simp
next
  case (encode_fails c i err)
  show ?case
    by (rule ids_inv_phase [OF encode_fails.prems(1), of i "Deferred (EncodeErr err)"]) (use encode_fails in \<open>auto simp: in_phase_def set_phase_def split: option.splits\<close>)
next
  case (write_request c i res)
  show ?case
    by (rule ids_inv_phase [OF write_request.prems(1), of i "case res of None \<Rightarrow> Selecting | Some err \<Rightarrow> Deferred (WriteErr err)"]) (use write_request in \<open>auto simp: in_phase_def set_phase_def split: option.splits\<close>)
next
  case (take_response c i resp)
  show ?case
    by (rule ids_inv_phase [OF take_response.prems(1), of i "Deferred (Answered resp)"]) (use take_response in \<open>auto simp: in_phase_def set_phase_def split: option.splits\<close>)
next
  case (take_timeout c i)
  show ?case
    by (rule ids_inv_phase [OF take_timeout.prems(1), of i "Deferred CtxDone"]) (use take_timeout in \<open>auto simp: in_phase_def set_phase_def split: option.splits\<close>)
next
  case (take_closed c i)
  show ?case
    by (rule ids_inv_phase [OF take_closed.prems(1), of i "Deferred ConnClosed"]) (use take_closed in \<open>auto simp: in_phase_def set_phase_def split: option.splits\<close>)
next
  case (cleanup c i why)
  then show ?case using ids_inv_cleanup by blast
qed (simp_all add: ids_inv_def)

lemma holds_set_phase:
  "holds (set_phase i ph c) j resp \<Longrightarrow> i < length (cn_calls c) \<Longrightarrow>
   (\<And>r. ph \<in> {Deferred (Answered r), Returned (Answered r)} \<Longrightarrow> holds c i r) \<Longrightarrow> holds c j resp"
  unfolding holds_def by (auto simp: nth_set_phase split: if_splits)

lemma responses_inv_weaken:
  assumes inv: "responses_inv rs c" and sub: "\<And>i resp. holds c' i resp \<Longrightarrow> holds c i resp"
    and len: "length (cn_calls c) \<le> length (cn_calls c')" and rd: "cn_reader c' = cn_reader c"
  shows "responses_inv rs c'"
  using inv len unfolding responses_inv_def rd by (fastforce dest: sub split: reader.splits)

lemma responses_inv_reader:
  assumes "responses_inv rs c" and "cn_reader c = Reading"
  shows "responses_inv rs (c\<lparr>cn_reader := ReaderDone, cn_closed := True\<rparr>)"
  using assms by (auto simp: responses_inv_def holds_def)

lemma responses_inv_step:
  assumes "conn_step c ev c'" and "ids_inv c" and "responses_inv rs c"
  shows "responses_inv (rs @ responses [ev]) c'"
  using assms
proof (induction rule: conn_step.induct)
  case (begin_call n c rid m)
  show ?case
    by (simp, rule responses_inv_weaken [OF begin_call.prems(2)])
      (use begin_call in \<open>auto simp: holds_def nth_append ids_inv_def less_Suc_eq split: if_splits\<close>)
next
  case (encode_fails c i err)
  show ?case
    by (simp, rule responses_inv_weaken [OF encode_fails.prems(2)])
      (use encode_fails in \<open>auto simp: in_phase_def elim!: holds_set_phase split: option.splits\<close>)
next
  case (write_request c i res)
  show ?case
    by (simp, rule responses_inv_weaken [OF write_request.prems(2)])
      (use write_request in \<open>auto simp: in_phase_def elim!: holds_set_phase split: option.splits\<close>)
next
  case (take_response c i resp)
  have "holds (set_phase i (Deferred (Answered resp)) (c\<lparr>cn_chans := (cn_chans c)[i := None]\<rparr>)) j r \<Longrightarrow> holds c j r" for j r
    using take_response by (auto simp: holds_def in_phase_def nth_set_phase nth_list_update set_phase_def ids_inv_def split: if_splits)
  then show ?case
    by (simp, intro responses_inv_weaken [OF take_response.prems(2)]) (simp_all add: set_phase_def)
next
  case (take_timeout c i)
  show ?case
    by (simp, rule responses_inv_weaken [OF take_timeout.prems(2)])
      (use take_timeout in \<open>auto simp: in_phase_def elim!: holds_set_phase split: option.splits\<close>)
next
  case (take_closed c i)
  show ?case
    by (simp, rule responses_inv_weaken [OF take_closed.prems(2)])
      (use take_closed in \<open>auto simp: in_phase_def elim!: holds_set_phase split: option.splits\<close>)
next
  case (cleanup c i why)
  have "holds (set_phase i (Returned why) (c\<lparr>cn_pending := gm_del (cl_id (cn_calls c ! i)) (cn_pending c)\<rparr>)) j r \<Longrightarrow> holds c j r" for j r
    using cleanup by (auto simp: holds_def in_phase_def set_phase_def nth_list_update split: if_splits)
  then show ?case
    by (simp, intro responses_inv_weaken [OF cleanup.prems(2)]) (simp_all add: set_phase_def)
next
  case (read_message c resp)
  then have rs: "\<forall>i r. holds c i r \<longrightarrow> r \<in> set rs \<and> rs_RequestID r = dec_digits (Suc i)"
    by (auto simp: responses_inv_def)
  have h: "holds (c\<lparr>cn_reader := rd\<rparr>) = holds c" for rd by (simp add: holds_def fun_eq_iff)
  show ?case
  proof (cases "gm_get (cn_pending c) (rs_RequestID resp)")
    case None
    then show ?thesis using rs by (auto simp: responses_inv_def h intro!: exI [of _ "rs @ [resp]"])
  next
    case (Some ch)
    then have "ch < length (cn_calls c)" "rs_RequestID resp = dec_digits (Suc ch)"
      using read_message.prems(1) by (auto simp: ids_inv_def)
    then show ?thesis using rs Some by (auto simp: responses_inv_def h intro!: exI [of _ rs])
  qed
next
  case (deliver c ch resp)
  then obtain old where old: "\<forall>i r. holds c i r \<longrightarrow> r \<in> set old \<and> rs_RequestID r = dec_digits (Suc i)"
    "ch < length (cn_calls c)" "rs_RequestID resp = dec_digits (Suc ch)" "rs = old @ [resp]"
    by (auto simp: responses_inv_def)
  have "holds (c\<lparr>cn_chans := (cn_chans c)[ch := Some resp], cn_reader := Reading\<rparr>) i r \<Longrightarrow>
      holds c i r \<or> i = ch \<and> r = resp" for i r
    using old(2) deliver.prems(1) by (auto simp: holds_def nth_list_update ids_inv_def split: if_splits)
  then show ?case using old unfolding responses_inv_def by fastforce
qed (auto intro: responses_inv_reader)

lemma calls_grow: "conn_step c ev c' \<Longrightarrow> length (cn_calls c) \<le> length (cn_calls c')"
  by (induction rule: conn_step.induct) simp_all

lemma conn_run_inv:
  "conn_run c evs c' \<Longrightarrow> c = new_conn \<Longrightarrow> length (cn_calls c') < 2 ^ 64 \<Longrightarrow>
   ids_inv c' \<and> responses_inv (responses evs) c'"
proof (induction rule: conn_run.induct)
  case (conn_nil c)
  then show ?case by (simp add: new_conn_def ids_inv_def responses_inv_def holds_def)
next
  case (conn_snoc c evs c' ev c'')
  then have "length (cn_calls c') < 2 ^ 64" using calls_grow [OF conn_snoc.hyps(2)] by simp
  then have "ids_inv c'" "responses_inv (responses evs) c'" using conn_snoc by auto
  then show ?case
    using ids_inv_step [OF conn_snoc.hyps(2)] responses_inv_step [OF conn_snoc.hyps(2)] conn_snoc.prems(2) by simp
qed

section \<open>Schedules of a single call\<close>

text \<open>The states of a connection with one call, for the concrete schedules below.\<close>

definition one_call ::
    "string \<Rightarrow> 'raw call_phase \<Rightarrow> 'raw response option list \<Rightarrow> 'raw reader \<Rightarrow> bool \<Rightarrow> 'raw conn" where
  "one_call m ph chans rd cl = \<lparr>cn_nextID = 1, cn_pending = [(''1'', 0)], cn_closed = cl,
     cn_calls = [\<lparr>cl_method = m, cl_id = ''1'', cl_phase = ph\<rparr>], cn_chans = chans, cn_reader = rd\<rparr>"

definition sample_response :: "'raw response" where
  "sample_response = \<lparr>rs_Type = TypeResponse, rs_RequestID = ''1'', rs_Result = None, rs_Error = None\<rparr>"

lemma sample_response_id [simp]: "rs_RequestID sample_response = ''1''"
  by (simp add: sample_response_def)

lemma first_id: "dec_digits (Suc 0) = ''1''"
  by code_simp

lemma one_call_steps:
  "conn_step new_conn (Begin m) (one_call m Registered [None] Reading False)"
  "conn_step (one_call m Registered ch rd cl) (Write 0 None) (one_call m Selecting ch rd cl)"
  "rs_RequestID resp = ''1'' \<Longrightarrow>
   conn_step (one_call m ph ch Reading cl) (Read resp) (one_call m ph ch (Delivering 0 resp) cl)"
  "conn_step (one_call m ph [None] (Delivering 0 resp) cl) Deliver (one_call m ph [Some resp] Reading cl)"
  "conn_step (one_call m Selecting ch rd cl) (TakeTimeout 0) (one_call m (Deferred CtxDone) ch rd cl)"
  "conn_step (one_call m Selecting [Some resp] rd cl) (TakeResponse 0) (one_call m (Deferred (Answered resp)) [None] rd cl)"
  "conn_step (one_call m ph ch Reading cl) ReadFails (one_call m ph ch ReaderDone True)"
proof -
  show "conn_step new_conn (Begin m) (one_call m Registered [None] Reading False)"
    using begin_call [OF refl refl, of new_conn m]
    by (simp add: new_conn_def one_call_def next_id_def first_id gm_put_def)
  show "conn_step (one_call m Registered ch rd cl) (Write 0 None) (one_call m Selecting ch rd cl)"
    using write_request [of "one_call m Registered ch rd cl" 0 None] by (simp add: one_call_def in_phase_def set_phase_def)
  show "conn_step (one_call m ph ch Reading cl) (Read resp) (one_call m ph ch (Delivering 0 resp) cl)"
    if "rs_RequestID resp = ''1''"
    using read_message [of "one_call m ph ch Reading cl" resp] that by (simp add: one_call_def)
  show "conn_step (one_call m ph [None] (Delivering 0 resp) cl) Deliver (one_call m ph [Some resp] Reading cl)"
    using deliver [of "one_call m ph [None] (Delivering 0 resp) cl" 0 resp] by (simp add: one_call_def)
  show "conn_step (one_call m Selecting ch rd cl) (TakeTimeout 0) (one_call m (Deferred CtxDone) ch rd cl)"
    using take_timeout [of "one_call m Selecting ch rd cl" 0] by (simp add: one_call_def in_phase_def set_phase_def)
  show "conn_step (one_call m Selecting [Some resp] rd cl) (TakeResponse 0) (one_call m (Deferred (Answered resp)) [None] rd cl)"
    using take_response [of "one_call m Selecting [Some resp] rd cl" 0 resp]
    by (simp add: one_call_def in_phase_def set_phase_def)
  show "conn_step (one_call m ph ch Reading cl) ReadFails (one_call m ph ch ReaderDone True)"
    using read_fails [of "one_call m ph ch Reading cl"] by (simp add: one_call_def)
qed

lemma conn_run_Cons: "conn_step c ev c' \<Longrightarrow> conn_run c' evs c'' \<Longrightarrow> conn_run c (ev # evs) c''"
proof (rotate_tac, induction rule: conn_run.induct)
  case (conn_nil c')
  then show ?case using conn_snoc [OF conn_run.conn_nil] by fastforce
next
  case (conn_snoc c' evs d ev' e)
  then show ?case using conn_run.conn_snoc [of c "ev # evs" d ev' e] by simp
qed

text \<open>The calls whose request was written to the socket, in order, those whose write reported an error included.\<close>

fun written_calls :: "'raw conn_event list \<Rightarrow> nat list" where
  "written_calls [] = []"
| "written_calls (Write i res # evs) = i # written_calls evs"
| "written_calls (ev # evs) = written_calls evs"

lemma written_calls_append [simp]: "written_calls (xs @ ys) = written_calls xs @ written_calls ys"
  by (induction xs rule: written_calls.induct) auto

lemma written_once:
  "conn_run c0 evs c \<Longrightarrow> c0 = new_conn \<Longrightarrow>
   distinct (written_calls evs) \<and>
   (\<forall>i \<in> set (written_calls evs). i < length (cn_calls c) \<and> cl_phase (cn_calls c ! i) \<noteq> Registered)"
proof (induction rule: conn_run.induct)
  case (conn_snoc c0 evs c' ev c'')
  then have IH: "distinct (written_calls evs)"
    "\<forall>i \<in> set (written_calls evs). i < length (cn_calls c') \<and> cl_phase (cn_calls c' ! i) \<noteq> Registered" by blast+
  show ?case
    using conn_snoc.hyps(2)
  proof (cases rule: conn_step.cases)
    case (begin_call n rid m)
    then show ?thesis using IH by (auto simp: nth_append)
  next
    case (write_request i res)
    then have "i \<notin> set (written_calls evs)" using IH(2) by (auto simp: in_phase_def)
    then show ?thesis using write_request IH by (cases res) (auto simp: nth_set_phase in_phase_def)
  qed (use IH in \<open>auto simp: nth_set_phase in_phase_def\<close>)
qed simp

section \<open>Properties\<close>


text \<open>
  C38. The pending table leaks nothing: in every reachable state it maps the id of a call to that
  call's channel exactly while the call has not returned, and holds nothing else; so it is empty
  once every call has returned.
\<close>

theorem pending_is_exact:
  assumes "conn_run new_conn evs c" and "length (cn_calls c) < 2 ^ 64"
  shows "(\<forall>i < length (cn_calls c). gm_get (cn_pending c) (cl_id (cn_calls c ! i)) =
        (if is_returned (cl_phase (cn_calls c ! i)) then None else Some i)) \<and>
    ((\<forall>i < length (cn_calls c). is_returned (cl_phase (cn_calls c ! i))) \<longrightarrow> cn_pending c = [])"
proof -
  have ids: "ids_inv c" using conn_run_inv [OF assms(1) refl assms(2)] by auto
  have "gm_get (cn_pending c) (cl_id (cn_calls c ! i)) =
      (if is_returned (cl_phase (cn_calls c ! i)) then None else Some i)" if "i < length (cn_calls c)" for i
  proof (cases "gm_get (cn_pending c) (cl_id (cn_calls c ! i))")
    case None
    then show ?thesis using ids that unfolding ids_inv_def by (metis option.distinct(1))
  next
    case (Some ch)
    then have "dec_digits (Suc ch) = dec_digits (Suc i)" "\<not> is_returned (cl_phase (cn_calls c ! ch))"
      using ids that by (auto simp: ids_inv_def)
    then show ?thesis using Some by (auto dest: dec_digits_inj)
  qed
  moreover have "cn_pending c = []" if all: "\<forall>i < length (cn_calls c). is_returned (cl_phase (cn_calls c ! i))"
  proof (rule ccontr)
    assume "cn_pending c \<noteq> []"
    then obtain rid ch rest where "cn_pending c = (rid, ch) # rest" by (cases "cn_pending c") auto
    then have "gm_get (cn_pending c) rid = Some ch" by simp
    then show False using ids all unfolding ids_inv_def by blast
  qed
  ultimately show ?thesis by blast
qed

text \<open>
  The read loop never blocks on a call: if the Agent answers each request id at most once, then
  whenever the loop has a response in hand the call's channel is empty and the send goes through,
  whatever the call is doing.
\<close>

theorem read_loop_never_blocks:
  assumes "conn_run new_conn evs c" and "length (cn_calls c) < 2 ^ 64"
    and "distinct (map rs_RequestID (responses evs))" and "cn_reader c = Delivering ch resp"
  shows "conn_step c Deliver (c\<lparr>cn_chans := (cn_chans c)[ch := Some resp], cn_reader := Reading\<rparr>)"
proof (rule deliver [OF assms(4)])
  show "cn_chans c ! ch = None"
  proof (rule ccontr)
    assume "cn_chans c ! ch \<noteq> None"
    then obtain r where r: "cn_chans c ! ch = Some r" by blast
    obtain old where old: "\<And>i resp. holds c i resp \<Longrightarrow> resp \<in> set old \<and> rs_RequestID resp = dec_digits (Suc i)"
      "ch < length (cn_calls c)" "rs_RequestID resp = dec_digits (Suc ch)" "responses evs = old @ [resp]"
      using conn_run_inv [OF assms(1) refl assms(2)] assms(4) by (auto simp: responses_inv_def)
    have "r \<in> set old" "rs_RequestID r = rs_RequestID resp"
      using old(1) [of ch r] old(2,3) r by (auto simp: holds_def)
    then show False using assms(3) old(4) by (auto simp: rev_image_eqI)
  qed
qed

text \<open>
  C29. A second response with the same id can block the read loop for good: there is a schedule of one
  call, answered twice, after which the loop sits at the send in every later state, so no later
  response is dispatched and \<open>closed\<close> is never closed, not even when the socket fails.
\<close>

theorem duplicate_response_blocks:
  "\<exists>evs c. conn_run (new_conn :: 'raw conn) evs c \<and> length (cn_calls c) = 1 \<and> length (responses evs) = 2 \<and>
     (\<forall>evs' c'. conn_run c evs' c' \<longrightarrow> (\<exists>ch resp. cn_reader c' = Delivering ch resp \<and> cn_chans c' ! ch \<noteq> None) \<and>
        \<not> cn_closed c' \<and> responses evs' = [])"
proof -
  let ?resp = "sample_response :: 'raw response" and ?m = MethodDevicePing
  let ?c = "one_call ?m (Deferred CtxDone) [Some ?resp] (Delivering 0 ?resp) False"
  let ?evs = "[Begin ?m, Write 0 None, Read ?resp, Deliver, TakeTimeout 0, Read ?resp]"
  have run: "conn_run new_conn ?evs ?c"
    by (rule conn_run_Cons one_call_steps conn_nil sample_response_id)+
  let ?stuck = "\<lambda>c. cn_reader c = Delivering 0 ?resp \<and> 0 < length (cn_calls c) \<and> length (cn_chans c) = length (cn_calls c) \<and>
    cn_chans c ! 0 \<noteq> None \<and> \<not> cn_closed c \<and> cl_phase (cn_calls c ! 0) \<in> {Deferred CtxDone, Returned CtxDone}"
  have step: "?stuck c' \<and> responses [ev] = []" if "conn_step c ev c'" "?stuck c" for c ev c'
    using that
    by (cases rule: conn_stepE)
      (auto simp: in_phase_def set_phase_def nth_append nth_list_update intro!: gr0I split: if_splits)
  have stuck: "conn_run c evs c' \<Longrightarrow> ?stuck c \<Longrightarrow> ?stuck c' \<and> responses evs = []" for c evs c'
  proof (induction rule: conn_run.induct)
    case (conn_snoc c evs c' ev c'')
    then show ?case using step [OF conn_snoc.hyps(2)] by simp
  qed simp
  have "?stuck ?c" by (simp add: one_call_def)
  then have "\<forall>evs' c'. conn_run ?c evs' c' \<longrightarrow> (\<exists>ch resp. cn_reader c' = Delivering ch resp \<and> cn_chans c' ! ch \<noteq> None) \<and>
        \<not> cn_closed c' \<and> responses evs' = []"
    using stuck by blast
  moreover have "length (cn_calls ?c) = 1" by (simp add: one_call_def)
  ultimately show ?thesis using run by (intro exI conjI) auto
qed


subsection \<open>Witnesses\<close>

lemma answered_run:
  "conn_run new_conn [Begin m, Write 0 None, Read sample_response, Deliver, TakeResponse 0]
     (one_call m (Deferred (Answered sample_response)) [None] Reading False)"
  by (rule conn_run_Cons one_call_steps conn_nil sample_response_id)+


theorem pending_is_exact_witness:
  "\<exists>evs (c :: unit conn). conn_run new_conn evs c \<and> length (cn_calls c) = 1 \<and> gm_get (cn_pending c) ''1'' = Some 0"
  using pending_is_exact [OF answered_run, of MethodDevicePing] answered_run [of MethodDevicePing]
  by (fastforce simp: one_call_def)

theorem read_loop_never_blocks_witness:
  "\<exists>evs c c'. conn_run (new_conn :: unit conn) evs c \<and> responses evs = [sample_response] \<and> conn_step c Deliver c'"
proof -
  let ?evs = "[Begin MethodDevicePing, Write 0 None, Read (sample_response :: unit response)]"
  let ?c = "one_call MethodDevicePing Selecting [None] (Delivering 0 sample_response) False :: unit conn"
  have run: "conn_run new_conn ?evs ?c"
    by (rule conn_run_Cons one_call_steps conn_nil sample_response_id)+
  have r: "cn_reader ?c = Delivering 0 sample_response" and b: "length (cn_calls ?c) < 2 ^ 64"
    and d: "distinct (map rs_RequestID (responses ?evs))"
    by (simp_all add: one_call_def)
  have step: "\<exists>c'. conn_step ?c Deliver c'"
    by (rule exI, rule read_loop_never_blocks [OF run b d r])
  have "responses ?evs = [sample_response]" by simp
  then show ?thesis using run step by blast
qed

theorem duplicate_response_blocks_witness:
  "\<exists>evs c. conn_run (new_conn :: unit conn) evs c \<and> length (responses evs) = 2 \<and> \<not> cn_closed c \<and>
     (\<exists>ch resp. cn_reader c = Delivering ch resp)"
proof -
  obtain evs and c :: "unit conn" where c: "conn_run new_conn evs c" "length (responses evs) = 2"
    "\<forall>evs' c'. conn_run c evs' c' \<longrightarrow> (\<exists>ch resp. cn_reader c' = Delivering ch resp \<and> cn_chans c' ! ch \<noteq> None) \<and>
        \<not> cn_closed c' \<and> responses evs' = []"
    using duplicate_response_blocks [where 'raw = unit] by metis
  from c(3) [rule_format, OF conn_nil] have "\<not> cn_closed c" "\<exists>ch resp. cn_reader c = Delivering ch resp" by auto
  then show ?thesis using c(1,2) by metis
qed


end
