(* ===== verification/Registry.thy ===== *)
theory Registry
  imports Proto
begin

text \<open>
  The Gateway's side of Agent connections: the registry of online devices (gateway/registry.go),
  the hello handshake and connection handler of the WebSocket endpoint (gateway/wsserver.go),
  and the device verifier and settings of gateway/cmd/main.go and gateway/config.go. A
  connection is an address, as the code compares pointers: the index of its entry in \<open>gw_conns\<close>.
\<close>

section \<open>Settings and verification\<close>

record gateway_config =
  gc_MCPListenAddress :: string
  gc_AgentListenAddress :: string
  gc_AgentSecret :: string

text \<open>\<open>getenv\<close> gives the empty string for a variable that is not set.\<close>

definition envOr :: "(string \<Rightarrow> string) \<Rightarrow> string \<Rightarrow> string \<Rightarrow> string" where
  "envOr getenv key fallback = (let v = getenv key in if v \<noteq> [] then v else fallback)"

definition LoadGatewayConfig :: "(string \<Rightarrow> string) \<Rightarrow> gateway_config" where
  "LoadGatewayConfig getenv =
     \<lparr>gc_MCPListenAddress = envOr getenv ''MCP_LISTEN_ADDRESS'' '':8080'',
      gc_AgentListenAddress = envOr getenv ''AGENT_LISTEN_ADDRESS'' '':8081'',
      gc_AgentSecret = getenv ''AGENT_SHARED_SECRET''\<rparr>"

text \<open>\<open>subtle.ConstantTimeCompare\<close>: 1 when the slices have equal length and contents.\<close>

definition ConstantTimeCompare :: "bytes \<Rightarrow> bytes \<Rightarrow> int" where
  "ConstantTimeCompare x y =
     (if length x \<noteq> length y then 0
      else if fold (\<lambda>(a, b) v. v \<or> a \<noteq> b) (zip x y) False then 0 else 1)"

definition verify_secret :: "gateway_config \<Rightarrow> string \<Rightarrow> bool" where
  "verify_secret cfg secret \<longleftrightarrow>
     gc_AgentSecret cfg \<noteq> [] \<and> ConstantTimeCompare (gc_AgentSecret cfg) secret = 1"

section \<open>State\<close>

record agent_conn =
  ac_deviceID :: string
  ac_os :: string
  ac_arch :: string
  ac_capabilities :: capabilities
  ac_readLimit :: int

definition newAgentConn :: "hello \<Rightarrow> int \<Rightarrow> agent_conn" where
  "newAgentConn h limit =
     \<lparr>ac_deviceID = he_DeviceID h, ac_os = he_OS h, ac_arch = he_Arch h,
      ac_capabilities = he_Capabilities h, ac_readLimit = limit\<rparr>"

type_synonym registry = "(string, nat) gomap"

record gateway =
  gw_conns :: "agent_conn list"
  gw_registry :: registry
  gw_closed :: "nat list"
  gw_serving :: "nat list"

text \<open>
  \<open>gw_closed\<close> are the connections \<open>Close\<close> was called on, \<open>gw_serving\<close> those whose handler is still
  in its read loop.
\<close>

definition new_gateway :: gateway where
  "new_gateway = \<lparr>gw_conns = [], gw_registry = [], gw_closed = [], gw_serving = []\<rparr>"

section \<open>The registry\<close>

abbreviation device_of :: "gateway \<Rightarrow> nat \<Rightarrow> string" where
  "device_of g c \<equiv> ac_deviceID (gw_conns g ! c)"

definition reg_Register :: "nat \<Rightarrow> gateway \<Rightarrow> gateway" where
  "reg_Register c g =
     (let old = gm_get (gw_registry g) (device_of g c);
          g' = g\<lparr>gw_registry := gm_put (device_of g c) c (gw_registry g)\<rparr>
      in (case old of None \<Rightarrow> g' | Some o' \<Rightarrow> g'\<lparr>gw_closed := gw_closed g' @ [o']\<rparr>))"

definition reg_Unregister :: "nat \<Rightarrow> gateway \<Rightarrow> gateway" where
  "reg_Unregister c g =
     (if gm_get (gw_registry g) (device_of g c) = Some c
      then g\<lparr>gw_registry := gm_del (device_of g c) (gw_registry g)\<rparr> else g)"

definition reg_Get :: "gateway \<Rightarrow> string \<Rightarrow> nat option" where
  "reg_Get g deviceID = gm_get (gw_registry g) deviceID"

definition reg_CloseAll :: "gateway \<Rightarrow> gateway" where
  "reg_CloseAll g = g\<lparr>gw_registry := [], gw_closed := gw_closed g @ map snd (gw_registry g)\<rparr>"

record device_info =
  di_DeviceID :: string
  di_OS :: string
  di_Arch :: string
  di_Capabilities :: capabilities

definition reg_List :: "gateway \<Rightarrow> device_info list" where
  "reg_List g = map (\<lambda>(_, c). let a = gw_conns g ! c in
     \<lparr>di_DeviceID = ac_deviceID a, di_OS = ac_os a, di_Arch = ac_arch a, di_Capabilities = ac_capabilities a\<rparr>)
     (gw_registry g)"

section \<open>The WebSocket endpoint\<close>

datatype close_code = StatusProtocolError | StatusPolicyViolation

text \<open>
  The handshake: \<open>accepted\<close> says that the upgrade succeeded, \<open>received\<close> is the first read and
  \<open>parse\<close> is \<open>json.Unmarshal\<close>. A refusal is the close frame sent, \<open>None\<close> when there is no
  socket to send it on.
\<close>

definition ws_handshake ::
    "(string \<Rightarrow> bool) \<Rightarrow> bool \<Rightarrow> string + bytes \<Rightarrow> (bytes \<Rightarrow> string + hello) \<Rightarrow>
     (close_code \<times> string) option + hello" where
  "ws_handshake verify accepted received parse =
     (if \<not> accepted then Inl None
      else (case received of
              Inl err \<Rightarrow> Inl (Some (StatusProtocolError, ''expected hello''))
            | Inr data \<Rightarrow>
                (case parse data of
                   Inl err \<Rightarrow> Inl (Some (StatusProtocolError, ''invalid hello''))
                 | Inr h \<Rightarrow>
                     if he_Type h \<noteq> TypeHello then Inl (Some (StatusProtocolError, ''invalid hello''))
                     else if \<not> verify (he_DeviceSecret h)
                     then Inl (Some (StatusPolicyViolation, ''invalid device credential''))
                     else Inr h)))"

text \<open>
  What happens to the Gateway: a client connects (the handler up to its read loop), the read loop
  of a connection ends (the deferred \<open>Unregister\<close>), the Gateway shuts down.
\<close>

datatype gateway_event =
  Connect bool "string + bytes"
| Disconnect nat
| Shutdown

fun gateway_step ::
    "gateway_config \<Rightarrow> (bytes \<Rightarrow> string + hello) \<Rightarrow> gateway_event \<Rightarrow> gateway \<Rightarrow> gateway" where
  "gateway_step cfg parse (Connect accepted received) g =
     (case ws_handshake (verify_secret cfg) accepted received parse of
        Inl refusal \<Rightarrow> g
      | Inr h \<Rightarrow>
          let c = length (gw_conns g);
              g' = g\<lparr>gw_conns := gw_conns g @ [newAgentConn h MaxRPCMessageBytes]\<rparr>;
              g'' = reg_Register c g'
          in g''\<lparr>gw_serving := gw_serving g'' @ [c]\<rparr>)"
| "gateway_step cfg parse (Disconnect c) g =
     (if c \<in> set (gw_serving g)
      then reg_Unregister c (g\<lparr>gw_serving := removeAll c (gw_serving g)\<rparr>) else g)"
| "gateway_step cfg parse Shutdown g = reg_CloseAll g"

definition gateway_run ::
    "gateway_config \<Rightarrow> (bytes \<Rightarrow> string + hello) \<Rightarrow> gateway_event list \<Rightarrow> gateway" where
  "gateway_run cfg parse evs = fold (gateway_step cfg parse) evs new_gateway"

section \<open>Lemmas\<close>

lemma ConstantTimeCompare_iff: "ConstantTimeCompare x y = 1 \<longleftrightarrow> x = y"
proof -
  have "fold (\<lambda>(a, b) v. v \<or> a \<noteq> b) zs acc \<longleftrightarrow> acc \<or> (\<exists>(a, b) \<in> set zs. a \<noteq> b)" for zs :: "(char \<times> char) list" and acc
    by (induction zs arbitrary: acc) auto
  moreover have "length x = length y \<Longrightarrow> (\<exists>(a, b) \<in> set (zip x y). a \<noteq> b) \<longleftrightarrow> x \<noteq> y"
    by (induction x y rule: list_induct2) auto
  ultimately show ?thesis by (auto simp: ConstantTimeCompare_def)
qed

text \<open>The registry is a table of connections by device.\<close>

interpretation devices: keyed_table "\<lambda>g. reg_Get g" "\<lambda>d c g. g\<lparr>gw_registry := gm_put d c (gw_registry g)\<rparr>"
  "\<lambda>d g. g\<lparr>gw_registry := gm_del d (gw_registry g)\<rparr>" "\<lambda>g. gm_ok (gw_registry g)"
  by unfold_locales (auto simp: reg_Get_def)

lemma Register_registry [simp]:
  "gw_registry (reg_Register c g) = gm_put (device_of g c) c (gw_registry g)"
  "gw_conns (reg_Register c g) = gw_conns g" "gw_serving (reg_Register c g) = gw_serving g"
  by (simp_all add: reg_Register_def Let_def split: option.splits)

lemma Register_closed:
  "set (gw_closed (reg_Register c g)) = set (gw_closed g) \<union> set_option (reg_Get g (device_of g c))"
  by (auto simp: reg_Register_def reg_Get_def Let_def split: option.splits)

lemma Unregister_simps [simp]:
  "gw_conns (reg_Unregister c g) = gw_conns g" "gw_serving (reg_Unregister c g) = gw_serving g"
  "gw_closed (reg_Unregister c g) = gw_closed g"
  by (simp_all add: reg_Unregister_def)

lemma Get_Unregister:
  "gm_ok (gw_registry g) \<Longrightarrow> reg_Get (reg_Unregister c g) d =
     (if d = device_of g c \<and> reg_Get g d = Some c then None else reg_Get g d)"
  by (auto simp: reg_Unregister_def reg_Get_def)

text \<open>
  The latest connection of a device, while it is served, is the registered one; a connection that
  is served but no longer registered has been closed.
\<close>

definition latest :: "gateway \<Rightarrow> string \<Rightarrow> nat \<Rightarrow> bool" where
  "latest g d c \<longleftrightarrow> c < length (gw_conns g) \<and> device_of g c = d \<and>
     (\<forall>c' < length (gw_conns g). device_of g c' = d \<longrightarrow> c' \<le> c)"

definition registry_inv :: "gateway \<Rightarrow> bool" where
  "registry_inv g \<longleftrightarrow> gm_ok (gw_registry g) \<and>
     (\<forall>d c. reg_Get g d = Some c \<longleftrightarrow> latest g d c \<and> c \<in> set (gw_serving g)) \<and>
     (\<forall>c \<in> set (gw_serving g). c < length (gw_conns g) \<and>
        (reg_Get g (device_of g c) \<noteq> Some c \<longrightarrow> c \<in> set (gw_closed g)))"

lemma registry_inv_add:
  assumes inv: "registry_inv g" and c: "c = length (gw_conns g)"
    and len: "length (gw_conns g') = Suc c" and dev: "device_of g' c = d0" "\<And>x. x < c \<Longrightarrow> device_of g' x = device_of g x"
    and get: "\<And>d. reg_Get g' d = (if d = d0 then Some c else reg_Get g d)"
    and closed: "set (gw_closed g') = set (gw_closed g) \<union> set_option (reg_Get g d0)"
    and serving: "set (gw_serving g') = insert c (set (gw_serving g))" and ok: "gm_ok (gw_registry g')"
  shows "registry_inv g'"
proof -
  have lat: "latest g' d x \<longleftrightarrow> (if d = d0 then x = c else latest g d x)" for d x
  proof (cases "d = d0")
    case True
    then show ?thesis
      unfolding latest_def len using dev(1) by (auto simp: less_Suc_eq_le intro: le_antisym)
  next
    case False
    then show ?thesis
      unfolding latest_def len c [symmetric] using dev less_Suc_eq by (auto; metis)
  qed
  have bound: "x < c" if "x \<in> set (gw_serving g)" for x using inv that by (auto simp: registry_inv_def c)
  have "reg_Get g' d = Some x \<longleftrightarrow> latest g' d x \<and> x \<in> set (gw_serving g')" for d x
  proof (cases "d = d0")
    case True
    then show ?thesis by (auto simp: get lat serving)
  next
    case False
    have "latest g d x \<Longrightarrow> x \<noteq> c" by (simp add: latest_def c)
    then show ?thesis using False inv unfolding get lat serving registry_inv_def by auto
  qed
  moreover have "x < length (gw_conns g') \<and> (reg_Get g' (device_of g' x) \<noteq> Some x \<longrightarrow> x \<in> set (gw_closed g'))"
    if "x \<in> set (gw_serving g')" for x
  proof (cases "x = c")
    case True
    then show ?thesis by (simp add: len get dev)
  next
    case False
    then have x: "x \<in> set (gw_serving g)" using that by (simp add: serving)
    have "reg_Get g (device_of g x) \<noteq> Some x \<longrightarrow> x \<in> set (gw_closed g)"
      using inv x by (auto simp: registry_inv_def)
    then show ?thesis
      using bound [OF x] unfolding len closed get by (auto simp: dev(2))
  qed
  ultimately show ?thesis using ok unfolding registry_inv_def by blast
qed

lemma registry_inv_connect:
  assumes inv: "registry_inv g" and g': "g' = g\<lparr>gw_conns := gw_conns g @ [a]\<rparr>" and c: "c = length (gw_conns g)"
  shows "registry_inv ((reg_Register c g')\<lparr>gw_serving := gw_serving (reg_Register c g') @ [c]\<rparr>)"
proof (rule registry_inv_add [OF inv c])
  have d: "device_of g' c = ac_deviceID a" by (simp add: g' c)
  show "device_of (reg_Register c g'\<lparr>gw_serving := gw_serving (reg_Register c g') @ [c]\<rparr>) c = ac_deviceID a"
    by (simp add: d)
  show "set (gw_closed (reg_Register c g'\<lparr>gw_serving := gw_serving (reg_Register c g') @ [c]\<rparr>)) =
      set (gw_closed g) \<union> set_option (reg_Get g (ac_deviceID a))"
    using Register_closed [of c g'] unfolding d by (simp add: reg_Get_def g')
  show "reg_Get (reg_Register c g'\<lparr>gw_serving := gw_serving (reg_Register c g') @ [c]\<rparr>) d' =
      (if d' = ac_deviceID a then Some c else reg_Get g d')" for d'
    by (simp add: reg_Get_def d) (simp add: g')
  show "gm_ok (gw_registry (reg_Register c g'\<lparr>gw_serving := gw_serving (reg_Register c g') @ [c]\<rparr>))"
    using inv by (simp add: registry_inv_def g')
qed (simp_all add: g' c nth_append)

lemma registry_inv_disconnect:
  assumes inv: "registry_inv g" and c: "c \<in> set (gw_serving g)"
  shows "registry_inv (reg_Unregister c (g\<lparr>gw_serving := removeAll c (gw_serving g)\<rparr>))"
proof -
  let ?g1 = "g\<lparr>gw_serving := removeAll c (gw_serving g)\<rparr>"
  obtain g' where g': "g' = reg_Unregister c ?g1" by simp
  have ok: "gm_ok (gw_registry g)" and get: "\<And>d x. reg_Get g d = Some x \<longleftrightarrow> latest g d x \<and> x \<in> set (gw_serving g)"
    and cl: "\<And>x. x \<in> set (gw_serving g) \<Longrightarrow> x < length (gw_conns g) \<and> (reg_Get g (device_of g x) \<noteq> Some x \<longrightarrow> x \<in> set (gw_closed g))"
    using inv by (auto simp: registry_inv_def)
  have get': "reg_Get g' d = (if d = device_of g c \<and> reg_Get g d = Some c then None else reg_Get g d)" for d
  proof -
    have "reg_Get ?g1 = reg_Get g" by (simp add: reg_Get_def fun_eq_iff)
    then show ?thesis using Get_Unregister [of ?g1 c d] ok unfolding g' by auto
  qed
  have conns: "gw_conns g' = gw_conns g" "gw_closed g' = gw_closed g" "set (gw_serving g') = set (gw_serving g) - {c}"
    by (auto simp: g')
  have lat: "latest g' = latest g" by (simp add: latest_def fun_eq_iff conns)
  have "reg_Get g' d = Some x \<longleftrightarrow> latest g' d x \<and> x \<in> set (gw_serving g')" for d x
  proof (cases "reg_Get g d = Some c")
    case True
    then have "latest g d c" "d = device_of g c" using get [of d c] by (auto simp: latest_def)
    moreover from this have "reg_Get g' d = None" using get' [of d] True by simp
    moreover have "latest g d x \<Longrightarrow> x \<in> set (gw_serving g) \<Longrightarrow> x = c" using get [of d x] True by simp
    ultimately show ?thesis unfolding lat conns by auto
  next
    case False
    then have "reg_Get g' d = reg_Get g d" using get' [of d] by simp
    moreover have "\<not> (latest g d c)" using False get [of d c] c by simp
    ultimately show ?thesis unfolding lat conns using get [of d x] by auto
  qed
  moreover have "gm_ok (gw_registry g')" using ok by (simp add: g' reg_Unregister_def)
  moreover have "x < length (gw_conns g') \<and> (reg_Get g' (device_of g' x) \<noteq> Some x \<longrightarrow> x \<in> set (gw_closed g'))"
    if "x \<in> set (gw_serving g')" for x
    using cl [of x] that unfolding get' conns by (auto split: if_splits)
  ultimately show ?thesis unfolding registry_inv_def g' by blast
qed

lemma gateway_run_snoc: "gateway_run cfg parse (evs @ [ev]) = gateway_step cfg parse ev (gateway_run cfg parse evs)"
  by (simp add: gateway_run_def)

lemma registry_inv_step:
  "registry_inv g \<Longrightarrow> ev \<noteq> Shutdown \<Longrightarrow> registry_inv (gateway_step cfg parse ev g)"
proof (cases ev)
  case (Connect accepted received)
  assume "registry_inv g"
  then show ?thesis
    using Connect registry_inv_connect [OF _ refl refl]
    by (auto simp: Let_def simp del: Register_registry split: sum.splits)
next
  case (Disconnect c)
  assume "registry_inv g"
  then show ?thesis using Disconnect registry_inv_disconnect by simp
qed simp

lemma registry_inv_run: "Shutdown \<notin> set evs \<Longrightarrow> registry_inv (gateway_run cfg parse evs)"
proof (induction evs rule: rev_induct)
  case Nil
  then show ?case by (simp add: gateway_run_def new_gateway_def registry_inv_def reg_Get_def latest_def)
next
  case (snoc ev evs)
  then show ?case using registry_inv_step [of "gateway_run cfg parse evs" ev] by (auto simp: gateway_run_snoc)
qed

text \<open>Every connection came from a handshake that succeeded; the registry points to connections.\<close>

lemma conns_step:
  "a \<in> set (gw_conns (gateway_step cfg parse ev g)) \<Longrightarrow> a \<in> set (gw_conns g) \<or>
   (\<exists>x r h. ev = Connect x r \<and> ws_handshake (verify_secret cfg) x r parse = Inr h \<and>
      a = newAgentConn h MaxRPCMessageBytes)"
  by (cases ev) (auto simp: Let_def reg_CloseAll_def split: sum.splits if_splits)

lemma conns_run:
  "a \<in> set (gw_conns (gateway_run cfg parse evs)) \<Longrightarrow>
   \<exists>x r h. Connect x r \<in> set evs \<and> ws_handshake (verify_secret cfg) x r parse = Inr h \<and>
      a = newAgentConn h MaxRPCMessageBytes"
proof (induction evs rule: rev_induct)
  case Nil
  then show ?case by (simp add: gateway_run_def new_gateway_def)
next
  case (snoc ev evs)
  have "a \<in> set (gw_conns (gateway_run cfg parse evs)) \<or>
      (\<exists>x r h. ev = Connect x r \<and> ws_handshake (verify_secret cfg) x r parse = Inr h \<and>
         a = newAgentConn h MaxRPCMessageBytes)"
    using conns_step [of a cfg parse ev "gateway_run cfg parse evs"] snoc.prems
    unfolding gateway_run_snoc by blast
  then show ?case using snoc.IH by (metis in_set_conv_decomp Un_iff set_append)
qed

definition tracked :: "gateway \<Rightarrow> bool" where
  "tracked g \<longleftrightarrow> gm_ok (gw_registry g) \<and> (\<forall>(d, c) \<in> set (gw_registry g). c < length (gw_conns g) \<and> device_of g c = d)"

lemma set_gm_put: "gm_ok m \<Longrightarrow> x \<in> set (gm_put k v m) \<Longrightarrow> x = (k, v) \<or> x \<in> set m"
  by (cases x) (auto simp: gm_in_set split: if_splits)

lemma set_gm_del: "x \<in> set (gm_del k m) \<Longrightarrow> x \<in> set m"
  by (auto simp: gm_del_def AList.delete_eq)

lemma tracked_connect:
  assumes tr: "tracked g" and c: "c = length (gw_conns g)"
  shows "tracked ((reg_Register c (g\<lparr>gw_conns := gw_conns g @ [a]\<rparr>))\<lparr>gw_serving := sv\<rparr>)"
proof -
  have "x = (ac_deviceID a, c) \<or> x \<in> set (gw_registry g)"
    if "x \<in> set (gm_put (ac_deviceID a) c (gw_registry g))" for x
    using that tr by (auto simp: tracked_def dest: set_gm_put)
  then show ?thesis
    using tr by (fastforce simp: tracked_def c nth_append)
qed

lemma tracked_step: "tracked g \<Longrightarrow> tracked (gateway_step cfg parse ev g)"
proof (cases ev)
  case (Connect x r)
  assume "tracked g"
  from tracked_connect [OF this refl] show ?thesis
    using \<open>tracked g\<close> Connect by (auto simp: Let_def simp del: Register_registry split: sum.splits)
next
  case (Disconnect c)
  assume "tracked g"
  then show ?thesis using Disconnect
    by (auto simp: tracked_def reg_Unregister_def dest!: set_gm_del)
next
  case Shutdown
  then show ?thesis by (simp add: tracked_def reg_CloseAll_def)
qed

lemma tracked_run: "tracked (gateway_run cfg parse evs)"
proof (induction evs rule: rev_induct)
  case Nil
  then show ?case by (simp add: gateway_run_def new_gateway_def tracked_def)
qed (simp add: gateway_run_snoc tracked_step)

text \<open>A connection that is still read is the registered one of its device, or has been closed.\<close>

definition closed_inv :: "gateway \<Rightarrow> bool" where
  "closed_inv g \<longleftrightarrow> tracked g \<and>
     (\<forall>c \<in> set (gw_serving g). c < length (gw_conns g) \<and>
        (reg_Get g (device_of g c) \<noteq> Some c \<longrightarrow> c \<in> set (gw_closed g)))"

lemma closed_inv_connect:
  assumes inv: "closed_inv g" and c: "c = length (gw_conns g)" and g': "g' = g\<lparr>gw_conns := gw_conns g @ [a]\<rparr>"
  shows "closed_inv ((reg_Register c g')\<lparr>gw_serving := gw_serving (reg_Register c g') @ [c]\<rparr>)"
proof -
  let ?g = "(reg_Register c g')\<lparr>gw_serving := gw_serving (reg_Register c g') @ [c]\<rparr>"
  have d: "device_of ?g c = ac_deviceID a" "\<And>x. x < c \<Longrightarrow> device_of ?g x = device_of g x" "length (gw_conns ?g) = Suc c"
    by (simp_all add: g' c nth_append)
  have get: "reg_Get ?g d' = (if d' = ac_deviceID a then Some c else reg_Get g d')" for d'
    by (simp add: reg_Get_def g' c)
  have cl: "set (gw_closed ?g) = set (gw_closed g) \<union> set_option (reg_Get g (ac_deviceID a))"
    using Register_closed [of c g'] by (simp add: reg_Get_def g' c)
  have "x < length (gw_conns ?g) \<and> (reg_Get ?g (device_of ?g x) \<noteq> Some x \<longrightarrow> x \<in> set (gw_closed ?g))"
    if "x \<in> set (gw_serving ?g)" for x
  proof (cases "x = c")
    case True
    then show ?thesis by (simp only: d get) simp
  next
    case False
    then have x: "x \<in> set (gw_serving g)" using that by (simp add: g')
    then have "x < c" "reg_Get g (device_of g x) \<noteq> Some x \<longrightarrow> x \<in> set (gw_closed g)"
      using inv by (auto simp: closed_inv_def c)
    then show ?thesis unfolding cl d(3) get d(2) [OF \<open>x < c\<close>] by auto
  qed
  moreover have "tracked ?g" unfolding g' by (rule tracked_connect [OF _ c]) (use inv in \<open>simp add: closed_inv_def\<close>)
  ultimately show ?thesis unfolding closed_inv_def by blast
qed

lemma closed_inv_shutdown:
  assumes "closed_inv g"
  shows "set (gw_serving g) \<subseteq> set (gw_closed (reg_CloseAll g))"
  using assms
  by (auto simp: closed_inv_def reg_CloseAll_def reg_Get_def intro: rev_image_eqI dest!: map_of_SomeD)

lemma closed_inv_step: "closed_inv g \<Longrightarrow> closed_inv (gateway_step cfg parse ev g)"
proof (cases ev)
  case (Connect x r)
  assume "closed_inv g"
  then show ?thesis
    using Connect closed_inv_connect [OF _ refl refl]
    by (auto simp: Let_def simp del: Register_registry split: sum.splits)
next
  case (Disconnect c)
  assume inv: "closed_inv g"
  then have "tracked (gateway_step cfg parse ev g)" by (simp add: tracked_step closed_inv_def)
  then show ?thesis
    using inv Disconnect by (auto simp: closed_inv_def tracked_def reg_Unregister_def reg_Get_def)
next
  case Shutdown
  assume inv: "closed_inv g"
  then have "tracked (gateway_step cfg parse ev g)" by (simp add: tracked_step closed_inv_def)
  then show ?thesis
    using inv closed_inv_shutdown [OF inv] Shutdown by (auto simp: closed_inv_def reg_CloseAll_def)
qed

lemma closed_inv_run: "closed_inv (gateway_run cfg parse evs)"
proof (induction evs rule: rev_induct)
  case Nil
  then show ?case by (simp add: gateway_run_def new_gateway_def closed_inv_def tracked_def)
qed (simp add: gateway_run_snoc closed_inv_step)

section \<open>Properties\<close>


text \<open>
  C25. Only an Agent that presented the configured secret is ever registered: every connection in the
  registry came from a client whose first message parsed as a hello with exactly that secret, and
  got the large read limit only then; without a configured secret no device is ever online,
  whatever clients send, an empty secret included.
\<close>

theorem only_authenticated_agents:
  assumes "cfg = LoadGatewayConfig getenv" and "g = gateway_run cfg parse evs" and "reg_Get g d = Some c"
  shows "getenv ''AGENT_SHARED_SECRET'' \<noteq> [] \<and> ac_readLimit (gw_conns g ! c) = MaxRPCMessageBytes \<and>
    (\<exists>data h. Connect True (Inr data) \<in> set evs \<and> parse data = Inr h \<and> he_Type h = TypeHello \<and>
       he_DeviceSecret h = getenv ''AGENT_SHARED_SECRET'' \<and> he_DeviceID h = d \<and>
       gw_conns g ! c = newAgentConn h MaxRPCMessageBytes)"
proof -
  have shake: "ws_handshake (verify_secret cfg) a r parse = Inr h \<longleftrightarrow>
      a \<and> (\<exists>data. r = Inr data \<and> parse data = Inr h) \<and> he_Type h = TypeHello \<and>
      getenv ''AGENT_SHARED_SECRET'' \<noteq> [] \<and> he_DeviceSecret h = getenv ''AGENT_SHARED_SECRET''" for a r h
    by (auto simp: ws_handshake_def verify_secret_def ConstantTimeCompare_iff assms(1) LoadGatewayConfig_def
        split: sum.splits if_splits)
  have c: "c < length (gw_conns g)" "device_of g c = d"
    using tracked_run [of cfg parse evs] assms(3)
    unfolding assms(2) [symmetric] by (auto simp: tracked_def reg_Get_def dest!: map_of_SomeD)
  then obtain x r h where "Connect x r \<in> set evs" "ws_handshake (verify_secret cfg) x r parse = Inr h"
    "gw_conns g ! c = newAgentConn h MaxRPCMessageBytes"
    using conns_run [of "gw_conns g ! c" cfg parse evs] assms(2) by fastforce
  then show ?thesis using c(2) unfolding shake by (auto simp: newAgentConn_def)
qed

text \<open>
  A shutdown leaves no Agent connected: in every reachable state it closes the socket of every
  connection that is still read, those a reconnect replaced included, and no device is online
  afterwards.
\<close>

theorem shutdown_closes_all:
  "set (gw_serving (gateway_run cfg parse evs)) \<subseteq> set (gw_closed (gateway_run cfg parse (evs @ [Shutdown]))) \<and>
   reg_Get (gateway_run cfg parse (evs @ [Shutdown])) d = None \<and>
   reg_List (gateway_run cfg parse (evs @ [Shutdown])) = []"
  using closed_inv_run [of cfg parse evs] closed_inv_shutdown [of "gateway_run cfg parse evs"]
  by (simp add: gateway_run_snoc) (simp add: reg_CloseAll_def reg_Get_def reg_List_def)

subsection \<open>Witnesses\<close>

text \<open>A parser that reads any message as a hello with that secret, and two connects of one device.\<close>

definition sample_parse :: "bytes \<Rightarrow> string + hello" where
  "sample_parse data = Inr \<lparr>he_Type = ''hello'', he_DeviceID = ''d1'', he_DeviceSecret = data,
     he_AgentVersion = [], he_OS = ''linux'', he_Arch = ''amd64'',
     he_Capabilities = \<lparr>cap_CommandRead = True, cap_CommandExec = True, cap_Process = True, cap_Filesystem = True\<rparr>\<rparr>"

definition sample_getenv :: "string \<Rightarrow> string" where
  "sample_getenv k = (if k = ''AGENT_SHARED_SECRET'' then ''s3'' else [])"

abbreviation reconnects :: "gateway_event list" where
  "reconnects \<equiv> [Connect True (Inr ''s3''), Connect True (Inr ''s3''), Connect True (Inr ''wrong''), Disconnect 0]"

lemma reconnects_get: "reg_Get (gateway_run (LoadGatewayConfig sample_getenv) sample_parse reconnects) ''d1'' = Some 1"
  by (simp add: gateway_run_def new_gateway_def ws_handshake_def sample_parse_def TypeHello_def verify_secret_def
      ConstantTimeCompare_def LoadGatewayConfig_def sample_getenv_def reg_Register_def reg_Unregister_def reg_Get_def
      newAgentConn_def Let_def gm_put_def)


theorem only_authenticated_agents_witness:
  "let g = gateway_run (LoadGatewayConfig sample_getenv) sample_parse reconnects
   in ac_readLimit (gw_conns g ! 1) = MaxRPCMessageBytes \<and> ac_deviceID (gw_conns g ! 1) = ''d1''"
  using only_authenticated_agents [OF refl refl reconnects_get] by (auto simp: Let_def newAgentConn_def)

end
