(* ===== verification/GatewayMain.thy ===== *)
theory GatewayMain
  imports Registry
begin

text \<open>
  The Gateway's process (gateway/cmd/main.go): its two HTTP servers, the goroutine that shuts them down
  after a signal, and main, which returns when the MCP server's \<open>ListenAndServe\<close> does; with the
  registry of theory Registry between them. Of net/http it uses that \<open>Shutdown\<close> first closes the listeners,
  on which \<open>ListenAndServe\<close> returns \<open>ErrServerClosed\<close> at once, and then waits for the requests in
  flight, hijacked connections excepted.
\<close>

section \<open>State and steps\<close>

datatype shutdown_pc = AwaitSignal | ClosingAgents | ClosingAgentServer | ClosingMcpServer | McpDraining | ShutdownDone

text \<open>The places of the shutdown in the order it passes them.\<close>

fun stage :: "shutdown_pc \<Rightarrow> nat" where
  "stage AwaitSignal = 0"
| "stage ClosingAgents = 1"
| "stage ClosingAgentServer = 2"
| "stage ClosingMcpServer = 3"
| "stage McpDraining = 4"
| "stage ShutdownDone = 5"

instantiation shutdown_pc :: linorder
begin

definition less_eq_shutdown_pc :: "shutdown_pc \<Rightarrow> shutdown_pc \<Rightarrow> bool" where
  "less_eq_shutdown_pc x y \<longleftrightarrow> stage x \<le> stage y"

definition less_shutdown_pc :: "shutdown_pc \<Rightarrow> shutdown_pc \<Rightarrow> bool" where
  "less_shutdown_pc x y \<longleftrightarrow> stage x < stage y"

instance
proof
  fix x y :: shutdown_pc
  assume "x \<le> y" and "y \<le> x"
  then show "x = y" by (cases x; cases y) (simp_all add: less_eq_shutdown_pc_def)
qed (auto simp: less_eq_shutdown_pc_def less_shutdown_pc_def)

end

lemmas shutdown_order = less_eq_shutdown_pc_def less_shutdown_pc_def

text \<open>
  \<open>gp_hellos\<close> counts the WebSockets that were accepted and did not say hello yet, \<open>gp_calls\<close> the tool calls
  in flight.
\<close>

record gateway_proc =
  gp_gateway :: gateway
  gp_pc :: shutdown_pc
  gp_agent_listens :: bool
  gp_hellos :: nat
  gp_mcp_listens :: bool
  gp_calls :: nat
  gp_exited :: bool

definition start_gateway :: gateway_proc where
  "start_gateway =
     \<lparr>gp_gateway = new_gateway, gp_pc = AwaitSignal, gp_agent_listens = True, gp_hellos = 0, gp_mcp_listens = True,
      gp_calls = 0, gp_exited = False\<rparr>"

datatype gateway_proc_event =
  Signal
| AgentsClosed
| AgentServerClosed
| McpServerClosed
| ShutdownReturns
| Upgraded
| HelloRead "string + bytes"
| AgentGone nat
| CallBegins
| CallEnds
| MainReturns

fun live_step ::
    "gateway_config \<Rightarrow> (bytes \<Rightarrow> string + hello) \<Rightarrow> gateway_proc_event \<Rightarrow> gateway_proc \<Rightarrow> gateway_proc option" where
  "live_step cfg parse Signal p =
     (if gp_pc p = AwaitSignal then Some (p\<lparr>gp_pc := ClosingAgents\<rparr>) else None)"
| "live_step cfg parse AgentsClosed p =
     (if gp_pc p = ClosingAgents
      then Some (p\<lparr>gp_pc := ClosingAgentServer, gp_gateway := gateway_step cfg parse Shutdown (gp_gateway p)\<rparr>) else None)"
| "live_step cfg parse AgentServerClosed p =
     (if gp_pc p = ClosingAgentServer
      then Some (p\<lparr>gp_pc := ClosingMcpServer, gp_agent_listens := False\<rparr>) else None)"
| "live_step cfg parse McpServerClosed p =
     (if gp_pc p = ClosingMcpServer
      then Some (p\<lparr>gp_pc := McpDraining, gp_mcp_listens := False\<rparr>) else None)"
| "live_step cfg parse ShutdownReturns p =
     (if gp_pc p = McpDraining \<and> gp_calls p = 0 then Some (p\<lparr>gp_pc := ShutdownDone\<rparr>) else None)"
| "live_step cfg parse Upgraded p =
     (if gp_agent_listens p then Some (p\<lparr>gp_hellos := Suc (gp_hellos p)\<rparr>) else None)"
| "live_step cfg parse (HelloRead received) p =
     (if 0 < gp_hellos p
      then Some (p\<lparr>gp_hellos := gp_hellos p - 1,
                   gp_gateway := gateway_step cfg parse (Connect True received) (gp_gateway p)\<rparr>) else None)"
| "live_step cfg parse (AgentGone c) p =
     Some (p\<lparr>gp_gateway := gateway_step cfg parse (Disconnect c) (gp_gateway p)\<rparr>)"
| "live_step cfg parse CallBegins p =
     (if gp_mcp_listens p then Some (p\<lparr>gp_calls := Suc (gp_calls p)\<rparr>) else None)"
| "live_step cfg parse CallEnds p =
     (if 0 < gp_calls p then Some (p\<lparr>gp_calls := gp_calls p - 1\<rparr>) else None)"
| "live_step cfg parse MainReturns p =
     (if gp_mcp_listens p then None else Some (p\<lparr>gp_exited := True\<rparr>))"

text \<open>The return of main ends every goroutine.\<close>

fun gateway_main ::
    "gateway_config \<Rightarrow> (bytes \<Rightarrow> string + hello) \<Rightarrow> gateway_proc_event list \<Rightarrow> gateway_proc \<Rightarrow> gateway_proc option" where
  "gateway_main cfg parse [] p = Some p"
| "gateway_main cfg parse (e # es) p =
     (if gp_exited p then None
      else (case live_step cfg parse e p of None \<Rightarrow> None | Some p' \<Rightarrow> gateway_main cfg parse es p'))"

section \<open>Lemmas\<close>

text \<open>What a step of the process is to the registry.\<close>

fun registry_events :: "gateway_proc_event list \<Rightarrow> gateway_event list" where
  "registry_events [] = []"
| "registry_events (AgentsClosed # es) = Shutdown # registry_events es"
| "registry_events (HelloRead received # es) = Connect True received # registry_events es"
| "registry_events (AgentGone c # es) = Disconnect c # registry_events es"
| "registry_events (_ # es) = registry_events es"

lemma registry_events_append [simp]: "registry_events (xs @ ys) = registry_events xs @ registry_events ys"
  by (induction xs rule: registry_events.induct) auto

lemma gateway_main_append:
  "gateway_main cfg parse (xs @ [e]) p = (case gateway_main cfg parse xs p of None \<Rightarrow> None
     | Some q \<Rightarrow> if gp_exited q then None else live_step cfg parse e q)"
  by (induction xs arbitrary: p) (auto split: option.split)

text \<open>How far the shutdown is decides what listens and whether the Agents were closed.\<close>

definition proc_ok :: "gateway_proc_event list \<Rightarrow> gateway_proc \<Rightarrow> bool" where
  "proc_ok evs p \<longleftrightarrow>
     (gp_agent_listens p \<longleftrightarrow> gp_pc p \<le> ClosingAgentServer) \<and> (gp_mcp_listens p \<longleftrightarrow> gp_pc p < McpDraining) \<and>
     (gp_exited p \<longrightarrow> \<not> gp_mcp_listens p) \<and> (ClosingAgents < gp_pc p \<longleftrightarrow> AgentsClosed \<in> set evs) \<and>
     (AwaitSignal < gp_pc p \<longleftrightarrow> Signal \<in> set evs) \<and> (gp_pc p = ShutdownDone \<longrightarrow> gp_calls p = 0)"

lemma live_step_advances: "live_step cfg parse e p = Some q \<Longrightarrow> gp_pc p \<le> gp_pc q"
  by (cases e) (auto simp: shutdown_order simp del: gateway_step.simps split: if_splits)

lemma gateway_main_advances: "gateway_main cfg parse evs p = Some q \<Longrightarrow> gp_pc p \<le> gp_pc q"
  by (induction evs arbitrary: p) (auto split: option.splits if_splits dest!: live_step_advances intro: order_trans)

lemma main_inv:
  "gateway_main cfg parse evs start_gateway = Some p \<Longrightarrow>
   proc_ok evs p \<and> gp_gateway p = gateway_run cfg parse (registry_events evs)"
proof (induction evs arbitrary: p rule: rev_induct)
  case Nil
  then show ?case by (auto simp: start_gateway_def proc_ok_def gateway_run_def shutdown_order)
next
  case (snoc e es)
  obtain q where q: "gateway_main cfg parse es start_gateway = Some q" "\<not> gp_exited q" "live_step cfg parse e q = Some p"
    using snoc.prems by (auto simp: gateway_main_append split: option.splits if_splits)
  have ok: "proc_ok es q" and g: "gp_gateway q = gateway_run cfg parse (registry_events es)"
    using snoc.IH [OF q(1)] by simp_all
  have "gp_gateway p = gateway_run cfg parse (registry_events (es @ [e]))"
    using q(3) g by (cases e) (auto simp: gateway_run_snoc simp del: gateway_step.simps split: if_splits)
  moreover have "proc_ok (es @ [e]) p"
    using q(2,3) ok unfolding proc_ok_def
    by (cases e; cases "gp_pc q") (auto simp: shutdown_order simp del: gateway_step.simps split: if_splits)
  ultimately show ?case by simp
qed

lemma closed_grow: "set (gw_closed (gateway_run cfg parse xs)) \<subseteq> set (gw_closed (gateway_run cfg parse (xs @ ys)))"
proof (induction ys rule: rev_induct)
  case (snoc y ys)
  have "set (gw_closed g) \<subseteq> set (gw_closed (gateway_step cfg parse y g))" for g
    by (cases y) (auto simp: reg_Register_def reg_Unregister_def reg_CloseAll_def Let_def split: sum.split option.split)
  then show ?case using snoc by (simp add: gateway_run_snoc flip: append_assoc) blast
qed simp

lemma shutdown_event: "Shutdown \<in> set (registry_events evs) \<longleftrightarrow> AgentsClosed \<in> set evs"
  by (induction evs rule: registry_events.induct) auto

text \<open>
  The exit is not graceful for what came later. A tool call begins, a signal arrives, and an Agent says
  hello after the others were closed: at the end the call is cut off, although the shutdown waits
  for such calls, and the Agent is still registered, its connection never closed.
\<close>

definition late_agent_events :: "gateway_proc_event list" where
  "late_agent_events =
     [CallBegins, Signal, AgentsClosed, Upgraded, HelloRead (Inr ''s3''), AgentServerClosed, McpServerClosed, MainReturns]"

lemma late_agent_run:
  "\<exists>p. gateway_main (LoadGatewayConfig sample_getenv) sample_parse late_agent_events start_gateway = Some p \<and>
     gp_exited p \<and> gp_pc p \<noteq> ShutdownDone \<and> gp_calls p = 1 \<and>
     reg_Get (gp_gateway p) ''d1'' = Some 0 \<and> 0 \<notin> set (gw_closed (gp_gateway p))"
proof -
  have "case gateway_main (LoadGatewayConfig sample_getenv) sample_parse late_agent_events start_gateway of None \<Rightarrow> False
    | Some p \<Rightarrow> gp_exited p \<and> gp_pc p \<noteq> ShutdownDone \<and> gp_calls p = 1 \<and>
     reg_Get (gp_gateway p) ''d1'' = Some 0 \<and> 0 \<notin> set (gw_closed (gp_gateway p))"
    by (simp add: late_agent_events_def start_gateway_def new_gateway_def ws_handshake_def sample_parse_def
        sample_getenv_def LoadGatewayConfig_def verify_secret_def ConstantTimeCompare_iff reg_Register_def
        reg_CloseAll_def newAgentConn_def reg_Get_def Let_def TypeHello_def)
  then show ?thesis
    by (cases "gateway_main (LoadGatewayConfig sample_getenv) sample_parse late_agent_events start_gateway") auto
qed

section \<open>Properties\<close>


subsection \<open>Witnesses\<close>


end
