(* ===== verification/Tools.thy ===== *)
theory Tools
  imports Registry AgentConn Processes ReadQuery Files AgentServer
begin

text \<open>
  The MCP tools of the Gateway (gateway/mcptools.go, gateway/read_query_tools.go): the input of each
  tool, the device it goes to, the method and parameters it sends, and what it answers. The
  connection's \<open>Call\<close> is an argument here; its protocol is theory AgentConn. Tool input is decoded by
  the MCP library; the decoding of results is an argument, which theory ToolWire instantiates.
\<close>

section \<open>Inputs of the tools\<close>

record command_exec_tool_params =
  ctp_DeviceID :: string
  ctp_Command :: string
  ctp_Cwd :: string
  ctp_Env :: "(string, string) gomap"
  ctp_TimeoutMs :: int
  ctp_ClientContextID :: string

record process_start_tool_params =
  stp_DeviceID :: string
  stp_Command :: string
  stp_Cwd :: string
  stp_Env :: "(string, string) gomap"
  stp_ClientContextID :: string

record process_read_tool_params =
  rtp_DeviceID :: string
  rtp_ProcessID :: string
  rtp_StdoutOffset :: int
  rtp_StderrOffset :: int
  rtp_MaxBytes :: int

record process_write_tool_params =
  wtp_DeviceID :: string
  wtp_ProcessID :: string
  wtp_Data :: string

record process_wait_tool_params =
  atp_DeviceID :: string
  atp_ProcessID :: string
  atp_TimeoutMs :: int

record process_terminate_tool_params =
  ttp_DeviceID :: string
  ttp_ProcessID :: string
  ttp_GraceMs :: int

record execution_list_tool_params =
  ltp_DeviceID :: string
  ltp_Limit :: int

record execution_get_tool_params =
  gtp_DeviceID :: string
  gtp_ExecutionID :: string

record file_path_tool_params =
  ftp_DeviceID :: string
  ftp_Path :: string

record file_write_tool_params =
  fwt_DeviceID :: string
  fwt_Path :: string
  fwt_ContentBase64 :: string
  fwt_Mode :: string

record file_move_tool_params =
  fmt_DeviceID :: string
  fmt_From :: string
  fmt_To :: string

record directory_create_tool_params =
  dct_DeviceID :: string
  dct_Path :: string
  dct_Recursive :: bool

record git_repository_input =
  gri_DeviceID :: string
  gri_RepositoryPath :: string

record git_diff_input =
  gdi_DeviceID :: string
  gdi_RepositoryPath :: string
  gdi_Pathspec :: string
  gdi_Staged :: bool

record git_log_input =
  gli_DeviceID :: string
  gli_RepositoryPath :: string
  gli_Pathspec :: string
  gli_Limit :: int

record docker_ps_input =
  dpi_DeviceID :: string
  dpi_IncludeAll :: bool
  dpi_Limit :: int

record docker_container_input =
  dci_DeviceID :: string
  dci_Container :: string

record docker_logs_input =
  dli_DeviceID :: string
  dli_Container :: string
  dli_Tail :: int
  dli_Since :: string

record systemd_unit_input =
  sui_DeviceID :: string
  sui_Unit :: string

record journal_query_input =
  jqi_DeviceID :: string
  jqi_Unit :: string
  jqi_Since :: string
  jqi_Lines :: int

record tmux_session_input =
  tsi_DeviceID :: string
  tsi_Session :: string

record tmux_capture_input =
  tci_DeviceID :: string
  tci_PaneID :: string
  tci_Lines :: int

record github_repository_input =
  hri_DeviceID :: string
  hri_Owner :: string
  hri_Repository :: string

record github_number_input =
  hni_DeviceID :: string
  hni_Owner :: string
  hni_Repository :: string
  hni_Number :: int

text \<open>A call of a tool: the tool and its input. The input of the first two is at most a device.\<close>

datatype tool_call =
  devices_list
| device_ping string
| command_exec command_exec_tool_params
| command_read command_exec_tool_params
| process_start process_start_tool_params
| process_read process_read_tool_params
| process_write process_write_tool_params
| process_wait process_wait_tool_params
| process_terminate process_terminate_tool_params
| process_list string
| execution_list execution_list_tool_params
| execution_get execution_get_tool_params
| file_read file_path_tool_params
| file_stat file_path_tool_params
| file_list file_path_tool_params
| file_write file_write_tool_params
| file_move file_move_tool_params
| file_delete file_path_tool_params
| directory_create directory_create_tool_params
| git_status git_repository_input
| git_diff git_diff_input
| git_log git_log_input
| github_repo github_repository_input
| github_issue github_number_input
| github_pull_request github_number_input
| docker_ps docker_ps_input
| docker_inspect docker_container_input
| docker_logs docker_logs_input
| systemd_status systemd_unit_input
| systemd_units string
| journal_query journal_query_input
| tmux_sessions string
| tmux_panes tmux_session_input
| tmux_capture tmux_capture_input

section \<open>What a tool sends\<close>

text \<open>The parameter values of the RPC methods, by the Go type they are marshalled from.\<close>

datatype agent_params =
  NoParams
| CommandExecParams command_params
| ProcessStartParams process_start_params
| ProcessReadParams process_read_params
| ProcessWriteParams process_write_params
| ProcessWaitParams process_wait_params
| ProcessTerminateParams process_terminate_params
| ExecutionListParams int
| ExecutionGetParams string
| FileReadParams string
| FileStatParams string
| FileListParams string
| FileWriteParams file_write_params
| FileMoveParams file_move_params
| FileDeleteParams string
| DirectoryCreateParams directory_create_params
| ReadQueryParams read_query_params

text \<open>\<open>subject\<close> is the user of the request's token, when it has one.\<close>

definition toAgentParams :: "command_exec_tool_params \<Rightarrow> string option \<Rightarrow> command_params" where
  "toAgentParams p subject =
     \<lparr>cp_Command = ctp_Command p, cp_Cwd = ctp_Cwd p, cp_Env = ctp_Env p, cp_TimeoutMs = ctp_TimeoutMs p,
      cp_ClientContextID = ctp_ClientContextID p,
      cp_ClientSubject = (case subject of None \<Rightarrow> [] | Some u \<Rightarrow> u)\<rparr>"

definition processStartParams :: "string option \<Rightarrow> process_start_tool_params \<Rightarrow> process_start_params" where
  "processStartParams subject p =
     \<lparr>ps_Command = stp_Command p, ps_Cwd = stp_Cwd p, ps_Env = stp_Env p,
      ps_ClientContextID = stp_ClientContextID p,
      ps_ClientSubject = (case subject of None \<Rightarrow> [] | Some u \<Rightarrow> u)\<rparr>"

text \<open>Fields a read-query tool does not set have Go's zero values.\<close>

definition zero_query :: read_query_params where
  "zero_query =
     \<lparr>rqp_Operation = [], rqp_RepositoryPath = [], rqp_Pathspec = [], rqp_Staged = False, rqp_Limit = 0,
      rqp_IncludeAll = False, rqp_Container = [], rqp_Tail = 0, rqp_Since = [], rqp_Unit = [],
      rqp_Session = [], rqp_PaneID = [], rqp_Lines = 0, rqp_Owner = [], rqp_Repository = [], rqp_Number = 0\<rparr>"

fun read_query_request :: "tool_call \<Rightarrow> read_query_params option" where
  "read_query_request (git_status p) =
     Some (zero_query\<lparr>rqp_Operation := ''git_status'', rqp_RepositoryPath := gri_RepositoryPath p\<rparr>)"
| "read_query_request (git_diff p) =
     Some (zero_query\<lparr>rqp_Operation := ''git_diff'', rqp_RepositoryPath := gdi_RepositoryPath p,
       rqp_Pathspec := gdi_Pathspec p, rqp_Staged := gdi_Staged p\<rparr>)"
| "read_query_request (git_log p) =
     Some (zero_query\<lparr>rqp_Operation := ''git_log'', rqp_RepositoryPath := gli_RepositoryPath p,
       rqp_Pathspec := gli_Pathspec p, rqp_Limit := gli_Limit p\<rparr>)"
| "read_query_request (github_repo p) =
     Some (zero_query\<lparr>rqp_Operation := ''github_repo'', rqp_Owner := hri_Owner p, rqp_Repository := hri_Repository p\<rparr>)"
| "read_query_request (github_issue p) =
     Some (zero_query\<lparr>rqp_Operation := ''github_issue'', rqp_Owner := hni_Owner p,
       rqp_Repository := hni_Repository p, rqp_Number := hni_Number p\<rparr>)"
| "read_query_request (github_pull_request p) =
     Some (zero_query\<lparr>rqp_Operation := ''github_pull_request'', rqp_Owner := hni_Owner p,
       rqp_Repository := hni_Repository p, rqp_Number := hni_Number p\<rparr>)"
| "read_query_request (docker_ps p) =
     Some (zero_query\<lparr>rqp_Operation := ''docker_ps'', rqp_IncludeAll := dpi_IncludeAll p, rqp_Limit := dpi_Limit p\<rparr>)"
| "read_query_request (docker_inspect p) =
     Some (zero_query\<lparr>rqp_Operation := ''docker_inspect'', rqp_Container := dci_Container p\<rparr>)"
| "read_query_request (docker_logs p) =
     Some (zero_query\<lparr>rqp_Operation := ''docker_logs'', rqp_Container := dli_Container p,
       rqp_Tail := dli_Tail p, rqp_Since := dli_Since p\<rparr>)"
| "read_query_request (systemd_status p) =
     Some (zero_query\<lparr>rqp_Operation := ''systemd_status'', rqp_Unit := sui_Unit p\<rparr>)"
| "read_query_request (systemd_units d) = Some (zero_query\<lparr>rqp_Operation := ''systemd_units''\<rparr>)"
| "read_query_request (journal_query p) =
     Some (zero_query\<lparr>rqp_Operation := ''journal_query'', rqp_Unit := jqi_Unit p,
       rqp_Since := jqi_Since p, rqp_Lines := jqi_Lines p\<rparr>)"
| "read_query_request (tmux_sessions d) = Some (zero_query\<lparr>rqp_Operation := ''tmux_sessions''\<rparr>)"
| "read_query_request (tmux_panes p) =
     Some (zero_query\<lparr>rqp_Operation := ''tmux_panes'', rqp_Session := tsi_Session p\<rparr>)"
| "read_query_request (tmux_capture p) =
     Some (zero_query\<lparr>rqp_Operation := ''tmux_capture'', rqp_PaneID := tci_PaneID p, rqp_Lines := tci_Lines p\<rparr>)"
| "read_query_request _ = None"

text \<open>The device of a read-query tool; the other tools do not go through it.\<close>

fun readQueryDeviceID :: "tool_call \<Rightarrow> string" where
  "readQueryDeviceID (systemd_units d) = d"
| "readQueryDeviceID (tmux_sessions d) = d"
| "readQueryDeviceID (git_status p) = gri_DeviceID p"
| "readQueryDeviceID (git_diff p) = gdi_DeviceID p"
| "readQueryDeviceID (git_log p) = gli_DeviceID p"
| "readQueryDeviceID (docker_ps p) = dpi_DeviceID p"
| "readQueryDeviceID (docker_inspect p) = dci_DeviceID p"
| "readQueryDeviceID (docker_logs p) = dli_DeviceID p"
| "readQueryDeviceID (systemd_status p) = sui_DeviceID p"
| "readQueryDeviceID (journal_query p) = jqi_DeviceID p"
| "readQueryDeviceID (tmux_panes p) = tsi_DeviceID p"
| "readQueryDeviceID (tmux_capture p) = tci_DeviceID p"
| "readQueryDeviceID (github_repo p) = hri_DeviceID p"
| "readQueryDeviceID (github_issue p) = hni_DeviceID p"
| "readQueryDeviceID (github_pull_request p) = hni_DeviceID p"
| "readQueryDeviceID _ = []"

text \<open>Device, method and parameters of the command tools, \<open>registerCommandTools\<close>.\<close>

fun command_request :: "string option \<Rightarrow> tool_call \<Rightarrow> (string \<times> string \<times> agent_params) option" where
  "command_request subject (command_exec p) =
     Some (ctp_DeviceID p, MethodCommandExec, CommandExecParams (toAgentParams p subject))"
| "command_request subject (command_read p) =
     Some (ctp_DeviceID p, MethodCommandRead, CommandExecParams (toAgentParams p subject))"
| "command_request subject _ = None"

text \<open>The process tools, \<open>registerProcessTools\<close>.\<close>

fun process_request :: "string option \<Rightarrow> tool_call \<Rightarrow> (string \<times> string \<times> agent_params) option" where
  "process_request subject (process_start p) =
     Some (stp_DeviceID p, MethodProcessStart, ProcessStartParams (processStartParams subject p))"
| "process_request subject (process_read p) =
     Some (rtp_DeviceID p, MethodProcessRead, ProcessReadParams
       \<lparr>prp_ProcessID = rtp_ProcessID p, prp_StdoutOffset = rtp_StdoutOffset p,
        prp_StderrOffset = rtp_StderrOffset p, prp_MaxBytes = rtp_MaxBytes p\<rparr>)"
| "process_request subject (process_write p) =
     Some (wtp_DeviceID p, MethodProcessWrite, ProcessWriteParams \<lparr>pwp_ProcessID = wtp_ProcessID p, pwp_Data = wtp_Data p\<rparr>)"
| "process_request subject (process_wait p) =
     Some (atp_DeviceID p, MethodProcessWait, ProcessWaitParams \<lparr>pwt_ProcessID = atp_ProcessID p, pwt_TimeoutMs = atp_TimeoutMs p\<rparr>)"
| "process_request subject (process_terminate p) =
     Some (ttp_DeviceID p, MethodProcessTerminate,
           ProcessTerminateParams \<lparr>ptp_ProcessID = ttp_ProcessID p, ptp_GraceMs = ttp_GraceMs p\<rparr>)"
| "process_request subject (process_list d) = Some (d, MethodProcessList, NoParams)"
| "process_request subject _ = None"

text \<open>The history tools, \<open>registerExecutionTools\<close>.\<close>

fun execution_request :: "tool_call \<Rightarrow> (string \<times> string \<times> agent_params) option" where
  "execution_request (execution_list p) = Some (ltp_DeviceID p, MethodExecutionList, ExecutionListParams (ltp_Limit p))"
| "execution_request (execution_get p) = Some (gtp_DeviceID p, MethodExecutionGet, ExecutionGetParams (gtp_ExecutionID p))"
| "execution_request _ = None"

text \<open>The file tools, \<open>registerFilesystemTools\<close>.\<close>

fun filesystem_request :: "tool_call \<Rightarrow> (string \<times> string \<times> agent_params) option" where
  "filesystem_request (file_read p) = Some (ftp_DeviceID p, MethodFileRead, FileReadParams (ftp_Path p))"
| "filesystem_request (file_stat p) = Some (ftp_DeviceID p, MethodFileStat, FileStatParams (ftp_Path p))"
| "filesystem_request (file_list p) = Some (ftp_DeviceID p, MethodFileList, FileListParams (ftp_Path p))"
| "filesystem_request (file_write p) =
     Some (fwt_DeviceID p, MethodFileWrite, FileWriteParams
       \<lparr>fwp_Path = fwt_Path p, fwp_ContentBase64 = fwt_ContentBase64 p, fwp_Mode = fwt_Mode p\<rparr>)"
| "filesystem_request (file_move p) =
     Some (fmt_DeviceID p, MethodFileMove, FileMoveParams \<lparr>fmp_From = fmt_From p, fmp_To = fmt_To p\<rparr>)"
| "filesystem_request (file_delete p) = Some (ftp_DeviceID p, MethodFileDelete, FileDeleteParams (ftp_Path p))"
| "filesystem_request (directory_create p) =
     Some (dct_DeviceID p, MethodDirectoryCreate, DirectoryCreateParams
       \<lparr>dcp_Path = dct_Path p, dcp_Recursive = dct_Recursive p\<rparr>)"
| "filesystem_request _ = None"

text \<open>All tools that are not read queries, in the order \<open>NewMCPServer\<close> registers their groups.\<close>

definition direct_request :: "string option \<Rightarrow> tool_call \<Rightarrow> (string \<times> string \<times> agent_params) option" where
  "direct_request subject t =
     (case t of
        device_ping d \<Rightarrow> Some (d, MethodDevicePing, NoParams)
      | _ \<Rightarrow>
          (case command_request subject t of Some r \<Rightarrow> Some r | None \<Rightarrow>
          (case process_request subject t of Some r \<Rightarrow> Some r | None \<Rightarrow>
          (case execution_request t of Some r \<Rightarrow> Some r | None \<Rightarrow> filesystem_request t))))"

definition tool_request :: "string option \<Rightarrow> tool_call \<Rightarrow> (string \<times> string \<times> agent_params) option" where
  "tool_request subject t =
     (case read_query_request t of
        Some p \<Rightarrow> Some (readQueryDeviceID t, MethodReadQuery, ReadQueryParams p)
      | None \<Rightarrow> direct_request subject t)"

text \<open>The tools annotated with \<open>ReadOnlyHint\<close>.\<close>

fun read_only_hint :: "tool_call \<Rightarrow> bool" where
  "read_only_hint devices_list = False"
| "read_only_hint (command_exec p) = False"
| "read_only_hint (process_start p) = False"
| "read_only_hint (process_write p) = False"
| "read_only_hint (process_terminate p) = False"
| "read_only_hint (file_write p) = False"
| "read_only_hint (file_move p) = False"
| "read_only_hint (file_delete p) = False"
| "read_only_hint (directory_create p) = False"
| "read_only_hint _ = True"

section \<open>What a tool answers\<close>

text \<open>
  \<open>quote\<close> is the \<open>%q\<close> of fmt; \<open>call c m p\<close> is \<open>Call\<close> on connection \<open>c\<close>, whose result may be nil.
\<close>

definition deviceCall ::
    "gateway \<Rightarrow> (string \<Rightarrow> string) \<Rightarrow> (nat \<Rightarrow> string \<Rightarrow> agent_params \<Rightarrow> call_error + 'raw option) \<Rightarrow>
     string \<Rightarrow> string \<Rightarrow> agent_params \<Rightarrow> call_error + 'raw option" where
  "deviceCall g quote call deviceID m params =
     (case reg_Get g deviceID of
        None \<Rightarrow> Inl (RPC (RPCErr ErrDeviceOffline (''device '' @ quote deviceID @ '' is offline'')))
      | Some c \<Rightarrow> call c m params)"

record device_summary =
  ds_DeviceID :: string
  ds_OS :: string
  ds_Arch :: string

definition list_devices :: "gateway \<Rightarrow> device_summary list" where
  "list_devices g = map (\<lambda>d. \<lparr>ds_DeviceID = di_DeviceID d, ds_OS = di_OS d, ds_Arch = di_Arch d\<rparr>) (reg_List g)"

text \<open>The tools that return no payload ignore the result of the call.\<close>

fun empty_result :: "tool_call \<Rightarrow> bool" where
  "empty_result (process_write p) = True"
| "empty_result (file_write p) = True"
| "empty_result (file_move p) = True"
| "empty_result (file_delete p) = True"
| "empty_result (directory_create p) = True"
| "empty_result _ = False"

datatype 'v tool_value = Devices "device_summary list" | Payload 'v | EmptyPayload

datatype tool_error = CallFailed call_error | BadResult string

text \<open>\<open>unmarshal\<close> decodes the result of a call into the tool's output type; nil does not decode.\<close>

definition run_tool ::
    "gateway \<Rightarrow> (string \<Rightarrow> string) \<Rightarrow> (nat \<Rightarrow> string \<Rightarrow> agent_params \<Rightarrow> call_error + 'raw option) \<Rightarrow>
     ('raw option \<Rightarrow> string + 'v) \<Rightarrow> string option \<Rightarrow> tool_call \<Rightarrow> tool_error + 'v tool_value" where
  "run_tool g quote call unmarshal subject t =
     (case tool_request subject t of
        None \<Rightarrow> Inr (Devices (list_devices g))
      | Some (deviceID, m, params) \<Rightarrow>
          (case deviceCall g quote call deviceID m params of
             Inl err \<Rightarrow> Inl (CallFailed err)
           | Inr raw \<Rightarrow>
               if empty_result t then Inr EmptyPayload
               else (case unmarshal raw of Inl err \<Rightarrow> Inl (BadResult err) | Inr v \<Rightarrow> Inr (Payload v))))"

section \<open>What the Agent accepts\<close>

definition read_query_operations :: "string list" where
  "read_query_operations =
     [readQueryGitStatus, readQueryGitDiff, readQueryGitLog, readQueryDockerPS, readQueryDockerInspect,
      readQueryDockerLogs, readQuerySystemdStatus, readQuerySystemdUnits, readQueryJournal,
      readQueryTmuxSessions, readQueryTmuxPanes, readQueryTmuxCapture, readQueryGitHubRepo,
      readQueryGitHubIssue, readQueryGitHubPull]"

text \<open>An operation outside the list is refused as unsupported.\<close>

lemma unsupported_operation:
  "rqp_Operation p \<notin> set read_query_operations \<Longrightarrow>
   read_Query env (Inr p) True run github = Inl (RPCErr ErrInvalidRequest ''operation is not supported'')"
  by (simp add: read_query_operations_def read_Query_def buildReadQueryCommand_def isGitHubReadQuery_def
      invalidReadQuery_def Let_def)

text \<open>
  The parameters each method's handler unmarshals, by their Go type; a query must also name an
  operation. \<open>device.ping\<close> and \<open>process.list\<close> do not look at theirs.
\<close>

inductive accepts :: "string \<Rightarrow> agent_params \<Rightarrow> bool" where
  "accepts MethodDevicePing NoParams"
| "accepts MethodProcessList NoParams"
| "accepts MethodCommandExec (CommandExecParams p)"
| "accepts MethodCommandRead (CommandExecParams p)"
| "accepts MethodProcessStart (ProcessStartParams p')"
| "accepts MethodProcessRead (ProcessReadParams q)"
| "accepts MethodProcessWrite (ProcessWriteParams w)"
| "accepts MethodProcessWait (ProcessWaitParams x)"
| "accepts MethodProcessTerminate (ProcessTerminateParams y)"
| "accepts MethodExecutionList (ExecutionListParams n)"
| "accepts MethodExecutionGet (ExecutionGetParams i)"
| "accepts MethodFileRead (FileReadParams path)"
| "accepts MethodFileStat (FileStatParams path)"
| "accepts MethodFileList (FileListParams path)"
| "accepts MethodFileWrite (FileWriteParams fw)"
| "accepts MethodFileMove (FileMoveParams fm)"
| "accepts MethodFileDelete (FileDeleteParams path)"
| "accepts MethodDirectoryCreate (DirectoryCreateParams dc)"
| query: "rqp_Operation r \<in> set read_query_operations \<Longrightarrow> accepts MethodReadQuery (ReadQueryParams r)"

lemma read_query_request_supported:
  "read_query_request t = Some p \<Longrightarrow> rqp_Operation p \<in> set read_query_operations"
  by (cases t rule: read_query_request.cases) (auto simp: read_query_operations_def operation_defs)

lemma read_query_request_hint: "read_query_request t = Some p \<Longrightarrow> read_only_hint t \<and> \<not> empty_result t"
  by (cases t rule: read_query_request.cases) auto

lemma direct_request_accepts: "direct_request subject t = Some (d, m, p) \<Longrightarrow> accepts m p"
  by (cases t) (auto simp: direct_request_def intro: accepts.intros)

lemma direct_request_hint:
  "direct_request subject t = Some (d, m, p) \<Longrightarrow>
   m \<in> set agent_methods \<and> (read_only_hint t \<longleftrightarrow> \<not> IsMutatingMethod m) \<and>
   (empty_result t \<longleftrightarrow> m \<in> {MethodProcessWrite, MethodFileWrite, MethodFileMove, MethodFileDelete, MethodDirectoryCreate})"
  by (cases t) (auto simp: direct_request_def mutating_iff agent_methods_def method_defs)

lemma no_request: "read_query_request t = None \<Longrightarrow> direct_request subject t = None \<Longrightarrow> t = devices_list"
  by (cases t) (auto simp: direct_request_def)

lemma read_query_method: "\<not> IsMutatingMethod MethodReadQuery" "MethodReadQuery \<in> set agent_methods"
  "MethodReadQuery \<notin> {MethodProcessWrite, MethodFileWrite, MethodFileMove, MethodFileDelete, MethodDirectoryCreate}"
  by (simp_all add: mutating_iff agent_methods_def method_defs)

lemma tool_request_typed:
  assumes "tool_request subject t = Some (d, m, p)"
  shows "accepts m p \<and> m \<in> set agent_methods \<and> (read_only_hint t \<longleftrightarrow> \<not> IsMutatingMethod m) \<and>
    (empty_result t \<longleftrightarrow> m \<in> {MethodProcessWrite, MethodFileWrite, MethodFileMove, MethodFileDelete, MethodDirectoryCreate})"
proof (cases "read_query_request t")
  case (Some q)
  then show ?thesis
    using assms read_query_request_hint [OF Some] read_query_method query [OF read_query_request_supported [OF Some]]
    unfolding tool_request_def Some option.case by auto
next
  case None
  then show ?thesis
    using assms direct_request_accepts [of subject t] direct_request_hint [of subject t]
    unfolding tool_request_def None option.case by blast
qed

section \<open>Properties\<close>

text \<open>
  C36. Tools and handlers agree on types: every tool but \<open>devices_list\<close> sends a method the Agent
  registers, with parameters of the type that method's handler decodes and, for a query, an
  operation the Agent knows; it is annotated as read-only exactly when its method is not one of
  those that change state; and it drops the result exactly for the methods that return none.
\<close>

theorem tools_well_typed:
  "case tool_request subject t of
     None \<Rightarrow> t = devices_list
   | Some (d, m, p) \<Rightarrow> accepts m p \<and> m \<in> set agent_methods \<and>
       (read_only_hint t \<longleftrightarrow> \<not> IsMutatingMethod m) \<and>
       (empty_result t \<longleftrightarrow> m \<in> {MethodProcessWrite, MethodFileWrite, MethodFileMove, MethodFileDelete, MethodDirectoryCreate})"
proof (cases "tool_request subject t")
  case None
  then show ?thesis using no_request [of t subject] by (simp add: tool_request_def split: option.splits)
next
  case (Some r)
  then show ?thesis using tool_request_typed [of subject t] by (cases r) auto
qed

end
