(* ===== verification/ToolWire.thy ===== *)
theory ToolWire
  imports Structs Tools
begin

text \<open>
  A tool call down to the bytes: the parameters a tool sends (gateway/mcptools.go, read_query_tools.go) as
  JSON inside a request, the handlers' \<open>json.Unmarshal\<close> of them, the results the Agent's dispatcher marshals
  into a response, and the tools' \<open>json.Unmarshal\<close> of those.
\<close>

section \<open>Parameters\<close>

fun params_json :: "agent_params \<Rightarrow> json" where
  "params_json NoParams = JObj []"
| "params_json (CommandExecParams p) = encode_struct command_fields p"
| "params_json (ProcessStartParams p) = encode_struct process_start_fields p"
| "params_json (ProcessReadParams p) = encode_struct process_read_fields p"
| "params_json (ProcessWriteParams p) = encode_struct process_write_fields p"
| "params_json (ProcessWaitParams p) = encode_struct process_wait_fields p"
| "params_json (ProcessTerminateParams p) = encode_struct process_terminate_fields p"
| "params_json (ExecutionListParams n) = encode_struct execution_list_fields n"
| "params_json (ExecutionGetParams i) = encode_struct execution_get_fields i"
| "params_json (FileReadParams path) = encode_struct file_path_fields path"
| "params_json (FileStatParams path) = encode_struct file_path_fields path"
| "params_json (FileListParams path) = encode_struct file_path_fields path"
| "params_json (FileWriteParams p) = encode_struct file_write_fields p"
| "params_json (FileMoveParams p) = encode_struct file_move_fields p"
| "params_json (FileDeleteParams path) = encode_struct file_path_fields path"
| "params_json (DirectoryCreateParams p) = encode_struct directory_create_fields p"
| "params_json (ReadQueryParams p) = encode_struct read_query_fields p"

text \<open>The parameters as the handler of a method reads them; two handlers do not look at theirs.\<close>

definition parse_params :: "string \<Rightarrow> string \<Rightarrow> raw \<Rightarrow> string + agent_params" where
  "parse_params why m raw =
     (if m = MethodCommandExec \<or> m = MethodCommandRead
      then map_sum id CommandExecParams (unmarshal_raw why command_fields zero_command raw)
      else if m = MethodProcessStart
      then map_sum id ProcessStartParams (unmarshal_raw why process_start_fields zero_process_start raw)
      else if m = MethodProcessRead
      then map_sum id ProcessReadParams (unmarshal_raw why process_read_fields zero_process_read raw)
      else if m = MethodProcessWrite
      then map_sum id ProcessWriteParams (unmarshal_raw why process_write_fields zero_process_write raw)
      else if m = MethodProcessWait
      then map_sum id ProcessWaitParams (unmarshal_raw why process_wait_fields zero_process_wait raw)
      else if m = MethodProcessTerminate
      then map_sum id ProcessTerminateParams (unmarshal_raw why process_terminate_fields zero_process_terminate raw)
      else if m = MethodExecutionList then map_sum id ExecutionListParams (unmarshal_raw why execution_list_fields 0 raw)
      else if m = MethodExecutionGet then map_sum id ExecutionGetParams (unmarshal_raw why execution_get_fields [] raw)
      else if m = MethodFileRead then map_sum id FileReadParams (unmarshal_raw why file_path_fields [] raw)
      else if m = MethodFileStat then map_sum id FileStatParams (unmarshal_raw why file_path_fields [] raw)
      else if m = MethodFileList then map_sum id FileListParams (unmarshal_raw why file_path_fields [] raw)
      else if m = MethodFileWrite then map_sum id FileWriteParams (unmarshal_raw why file_write_fields zero_file_write raw)
      else if m = MethodFileMove then map_sum id FileMoveParams (unmarshal_raw why file_move_fields zero_file_move raw)
      else if m = MethodFileDelete then map_sum id FileDeleteParams (unmarshal_raw why file_path_fields [] raw)
      else if m = MethodDirectoryCreate
      then map_sum id DirectoryCreateParams (unmarshal_raw why directory_create_fields zero_directory_create raw)
      else if m = MethodReadQuery then map_sum id ReadQueryParams (decode_strictly why read_query_fields no_query raw)
      else Inr NoParams)"

text \<open>Parameters whose integers have 64 bits, and what arrives of them.\<close>

fun params_fit :: "agent_params \<Rightarrow> bool" where
  "params_fit (CommandExecParams p) = in_i64 (cp_TimeoutMs p)"
| "params_fit (ProcessReadParams p) = process_read_fits p"
| "params_fit (ProcessWaitParams p) = in_i64 (pwt_TimeoutMs p)"
| "params_fit (ProcessTerminateParams p) = in_i64 (ptp_GraceMs p)"
| "params_fit (ExecutionListParams n) = in_i64 n"
| "params_fit (ReadQueryParams p) = query_fits p"
| "params_fit _ = True"

fun received_params :: "agent_params \<Rightarrow> agent_params" where
  "received_params NoParams = NoParams"
| "received_params (CommandExecParams p) = CommandExecParams (received_command p)"
| "received_params (ProcessStartParams p) = ProcessStartParams (received_process_start p)"
| "received_params (ProcessReadParams p) = ProcessReadParams (received_process_read p)"
| "received_params (ProcessWriteParams p) = ProcessWriteParams (received_process_write p)"
| "received_params (ProcessWaitParams p) = ProcessWaitParams (received_process_wait p)"
| "received_params (ProcessTerminateParams p) = ProcessTerminateParams (received_process_terminate p)"
| "received_params (ExecutionListParams n) = ExecutionListParams n"
| "received_params (ExecutionGetParams i) = ExecutionGetParams (clean i)"
| "received_params (FileReadParams path) = FileReadParams (clean path)"
| "received_params (FileStatParams path) = FileStatParams (clean path)"
| "received_params (FileListParams path) = FileListParams (clean path)"
| "received_params (FileWriteParams p) = FileWriteParams (received_file_write p)"
| "received_params (FileMoveParams p) = FileMoveParams (received_file_move p)"
| "received_params (FileDeleteParams path) = FileDeleteParams (clean path)"
| "received_params (DirectoryCreateParams p) = DirectoryCreateParams (received_directory_create p)"
| "received_params (ReadQueryParams p) = ReadQueryParams (received_query p)"

section \<open>Results\<close>

text \<open>The result values of the RPC methods, by the Go type they are marshalled from.\<close>

datatype agent_result =
  EmptyResult
| PingResult ping_result
| CommandExecResult command_result
| ProcessStartResult process_start_result
| ProcessReadResult process_read_result
| ProcessWaitResult process_wait_result
| ProcessTerminateResult bool
| ProcessListResult "process_summary list"
| ExecutionListResult "execution list"
| ExecutionGetResult execution
| FileReadResult file_read_result
| FileStatResult file_stat_result
| FileListResult "file_entry list"
| ReadQueryResult read_query_result

fun result_json :: "agent_result \<Rightarrow> json" where
  "result_json EmptyResult = JObj []"
| "result_json (PingResult r) = encode_struct ping_fields r"
| "result_json (CommandExecResult r) = encode_struct command_result_fields r"
| "result_json (ProcessStartResult r) = encode_struct process_start_result_fields r"
| "result_json (ProcessReadResult r) = encode_struct process_read_result_fields r"
| "result_json (ProcessWaitResult r) = encode_struct process_wait_result_fields r"
| "result_json (ProcessTerminateResult b) = encode_struct process_terminate_result_fields b"
| "result_json (ProcessListResult xs) = encode_struct process_list_fields xs"
| "result_json (ExecutionListResult xs) = encode_struct execution_list_result_fields xs"
| "result_json (ExecutionGetResult x) = encode_struct execution_get_result_fields x"
| "result_json (FileReadResult r) = encode_struct file_read_result_fields r"
| "result_json (FileStatResult r) = encode_struct file_stat_result_fields r"
| "result_json (FileListResult xs) = encode_struct file_list_fields xs"
| "result_json (ReadQueryResult r) = encode_struct read_query_result_fields r"

text \<open>\<open>json.Marshal\<close> fails on a time whose year does not have four digits.\<close>

definition years_ok :: "execution \<Rightarrow> bool" where
  "years_ok x \<longleftrightarrow> four_digit_year (ex_StartedAt x) \<and> pred_option four_digit_year (ex_EndedAt x)"

definition marshal_result :: "agent_result \<Rightarrow> string + raw" where
  "marshal_result r =
     (if (case r of ExecutionListResult xs \<Rightarrow> list_all years_ok xs | ExecutionGetResult x \<Rightarrow> years_ok x | _ \<Rightarrow> True)
      then Inr (Some (result_json r))
      else Inl ''json: error calling MarshalJSON for type time.Time: Time.MarshalJSON: year outside of range [0,9999]'')"

text \<open>The type a tool decodes the result into; those that return none do not look at it.\<close>

fun unmarshal_result :: "string \<Rightarrow> tool_call \<Rightarrow> raw \<Rightarrow> string + agent_result" where
  "unmarshal_result why (device_ping d) raw = map_sum id PingResult (unmarshal_raw why ping_fields zero_ping raw)"
| "unmarshal_result why (command_exec p) raw =
     map_sum id CommandExecResult (unmarshal_raw why command_result_fields zero_command_result raw)"
| "unmarshal_result why (command_read p) raw =
     map_sum id CommandExecResult (unmarshal_raw why command_result_fields zero_command_result raw)"
| "unmarshal_result why (process_start ps) raw =
     map_sum id ProcessStartResult (unmarshal_raw why process_start_result_fields zero_process_start_result raw)"
| "unmarshal_result why (process_read pr) raw =
     map_sum id ProcessReadResult (unmarshal_raw why process_read_result_fields zero_process_read_result raw)"
| "unmarshal_result why (process_wait pw) raw =
     map_sum id ProcessWaitResult (unmarshal_raw why process_wait_result_fields zero_process_wait_result raw)"
| "unmarshal_result why (process_terminate pt) raw =
     map_sum id ProcessTerminateResult (unmarshal_raw why process_terminate_result_fields False raw)"
| "unmarshal_result why (process_list d) raw = map_sum id ProcessListResult (unmarshal_raw why process_list_fields [] raw)"
| "unmarshal_result why (execution_list el) raw =
     map_sum id ExecutionListResult (unmarshal_raw why execution_list_result_fields [] raw)"
| "unmarshal_result why (execution_get eg) raw =
     map_sum id ExecutionGetResult (unmarshal_raw why execution_get_result_fields zero_execution raw)"
| "unmarshal_result why (file_read fp) raw =
     map_sum id FileReadResult (unmarshal_raw why file_read_result_fields zero_file_read_result raw)"
| "unmarshal_result why (file_stat fp) raw =
     map_sum id FileStatResult (unmarshal_raw why file_stat_result_fields zero_file_stat_result raw)"
| "unmarshal_result why (file_list fp) raw = map_sum id FileListResult (unmarshal_raw why file_list_fields [] raw)"
| "unmarshal_result why t raw =
     (if t = devices_list \<or> empty_result t then Inr EmptyResult
      else map_sum id ReadQueryResult (unmarshal_raw why read_query_result_fields zero_query_result raw))"

fun result_fits :: "agent_result \<Rightarrow> bool" where
  "result_fits (CommandExecResult r) = command_result_fits r"
| "result_fits (ProcessStartResult r) = in_i64 (psr_OSPID r)"
| "result_fits (ProcessReadResult r) = process_read_result_fits r"
| "result_fits (ProcessWaitResult r) = pred_option in_i64 (pwr_ExitCode r)"
| "result_fits (ProcessListResult xs) = list_all process_summary_fits xs"
| "result_fits (ExecutionListResult xs) = list_all execution_fits xs"
| "result_fits (ExecutionGetResult x) = execution_fits x"
| "result_fits (FileReadResult r) = in_i64 (frr_Size r)"
| "result_fits (FileStatResult r) = in_i64 (fsr_Size r)"
| "result_fits (FileListResult xs) = list_all (\<lambda>e. in_i64 (fe_Size e)) xs"
| "result_fits (ReadQueryResult r) = pred_option in_i64 (rqr_ExitCode r)"
| "result_fits _ = True"

fun received_result :: "agent_result \<Rightarrow> agent_result" where
  "received_result EmptyResult = EmptyResult"
| "received_result (PingResult r) = PingResult (received_ping r)"
| "received_result (CommandExecResult r) = CommandExecResult (received_command_result r)"
| "received_result (ProcessStartResult r) = ProcessStartResult (received_process_start_result r)"
| "received_result (ProcessReadResult r) = ProcessReadResult (received_process_read_result r)"
| "received_result (ProcessWaitResult r) = ProcessWaitResult (received_process_wait_result r)"
| "received_result (ProcessTerminateResult b) = ProcessTerminateResult b"
| "received_result (ProcessListResult xs) = ProcessListResult (map received_process_summary xs)"
| "received_result (ExecutionListResult xs) = ExecutionListResult (map received_execution xs)"
| "received_result (ExecutionGetResult x) = ExecutionGetResult (received_execution x)"
| "received_result (FileReadResult r) = FileReadResult (received_file_read_result r)"
| "received_result (FileStatResult r) = FileStatResult (received_file_stat_result r)"
| "received_result (FileListResult xs) = FileListResult (map received_file_entry xs)"
| "received_result (ReadQueryResult r) = ReadQueryResult (received_query_result r)"

text \<open>The result type of each method's handler.\<close>

fun returns :: "string \<Rightarrow> agent_result \<Rightarrow> bool" where
  "returns m EmptyResult \<longleftrightarrow>
     m \<in> {MethodProcessWrite, MethodFileWrite, MethodFileMove, MethodFileDelete, MethodDirectoryCreate}"
| "returns m (PingResult r) \<longleftrightarrow> m = MethodDevicePing"
| "returns m (CommandExecResult r) \<longleftrightarrow> m = MethodCommandExec \<or> m = MethodCommandRead"
| "returns m (ProcessStartResult r) \<longleftrightarrow> m = MethodProcessStart"
| "returns m (ProcessReadResult r) \<longleftrightarrow> m = MethodProcessRead"
| "returns m (ProcessWaitResult r) \<longleftrightarrow> m = MethodProcessWait"
| "returns m (ProcessTerminateResult b) \<longleftrightarrow> m = MethodProcessTerminate"
| "returns m (ProcessListResult xs) \<longleftrightarrow> m = MethodProcessList"
| "returns m (ExecutionListResult xs) \<longleftrightarrow> m = MethodExecutionList"
| "returns m (ExecutionGetResult x) \<longleftrightarrow> m = MethodExecutionGet"
| "returns m (FileReadResult r) \<longleftrightarrow> m = MethodFileRead"
| "returns m (FileStatResult r) \<longleftrightarrow> m = MethodFileStat"
| "returns m (FileListResult xs) \<longleftrightarrow> m = MethodFileList"
| "returns m (ReadQueryResult r) \<longleftrightarrow> m = MethodReadQuery"

section \<open>A call over JSON\<close>

text \<open>
  The call of a tool: its request's frame, what the Agent dispatches, the response's frame. A frame that
  does not parse is skipped by the end that reads it, and the call times out.
\<close>

definition wire_call ::
    "(raw, agent_result, 's) dispatcher \<Rightarrow> string \<Rightarrow> 's \<Rightarrow> string \<Rightarrow> agent_params \<Rightarrow> call_error + raw option" where
  "wire_call disp rid s m p =
     (case decode_request (encode_request
        \<lparr>rq_Type = TypeRequest, rq_RequestID = rid, rq_Method = m, rq_Params = Some (params_json p)\<rparr>) of
        Inl err \<Rightarrow> call_value m CtxDone
      | Inr req \<Rightarrow>
          (case disp_Dispatch marshal_result disp req s of
             None \<Rightarrow> call_value m CtxDone
           | Some (resp, s') \<Rightarrow>
               (case decode_response (encode_response resp) of
                  Inl err \<Rightarrow> call_value m CtxDone
                | Inr resp \<Rightarrow> call_value m (end_reason.Answered resp))))"

section \<open>Lemmas\<close>

text \<open>What the codecs of the structs give: every message fits, and what the other end reads.\<close>

lemmas fits_messages =
  command_codec.fits_message process_start_codec.fits_message process_read_codec.fits_message
  process_write_codec.fits_message process_wait_codec.fits_message process_terminate_codec.fits_message
  execution_list_codec.fits_message execution_get_codec.fits_message file_path_codec.fits_message
  file_write_codec.fits_message file_move_codec.fits_message directory_create_codec.fits_message
  read_query_codec.fits_message ping_codec.fits_message command_result_codec.fits_message
  process_start_result_codec.fits_message process_read_result_codec.fits_message
  process_wait_result_codec.fits_message process_terminate_result_codec.fits_message process_list_codec.fits_message
  execution_list_result_codec.fits_message execution_get_result_codec.fits_message
  file_read_result_codec.fits_message file_stat_result_codec.fits_message file_list_codec.fits_message
  read_query_result_codec.fits_message

lemmas received_messages =
  command_codec.received_raw process_start_codec.received_raw process_read_codec.received_raw
  process_write_codec.received_raw process_wait_codec.received_raw process_terminate_codec.received_raw
  execution_list_codec.received_raw execution_get_codec.received_raw file_path_codec.received_raw
  file_write_codec.received_raw file_move_codec.received_raw directory_create_codec.received_raw
  ping_codec.received_raw command_result_codec.received_raw process_start_result_codec.received_raw
  process_read_result_codec.received_raw process_wait_result_codec.received_raw
  process_terminate_result_codec.received_raw process_list_codec.received_raw
  execution_list_result_codec.received_raw execution_get_result_codec.received_raw
  file_read_result_codec.received_raw file_stat_result_codec.received_raw file_list_codec.received_raw
  read_query_result_codec.received_raw
    read_query_codec.received_strictly

lemma embeddable_empty: "embeddable (JObj [])"
  by (simp add: embeddable_def)

lemma params_embeddable: "params_fit p \<Longrightarrow> embeddable (params_json p)"
  by (cases p) (simp_all add: fits_messages maxNestingDepth_def embeddable_empty)

lemma result_embeddable: "result_fits r \<Longrightarrow> embeddable (result_json r)"
  by (cases r) (simp_all add: fits_messages maxNestingDepth_def embeddable_empty)

lemma parse_sent:
  "accepts m p \<Longrightarrow> params_fit p \<Longrightarrow> parse_params why m (Some (json_clean (params_json p))) = Inr (received_params p)"
  by (induction rule: accepts.induct) (simp_all add: parse_params_def received_messages method_defs)

lemma marshal_fits: "result_fits r \<Longrightarrow> marshal_result r = Inr (Some (result_json r))"
proof -
  have "execution_fits x \<Longrightarrow> years_ok x" for x
    by (cases "ex_EndedAt x") (auto simp: execution_fits_def years_ok_def recordable_def)
  then show "result_fits r \<Longrightarrow> marshal_result r = Inr (Some (result_json r))"
    by (cases r) (auto simp: marshal_result_def list_all_iff)
qed

lemma unmarshal_query:
  "read_query_request t = Some p \<Longrightarrow> result_fits (ReadQueryResult r) \<Longrightarrow>
   unmarshal_result why t (Some (json_clean (result_json (ReadQueryResult r)))) = Inr (received_result (ReadQueryResult r))"
  by (cases t) (simp_all add: received_messages)

lemma unmarshal_direct:
  assumes "direct_request subject t = Some (d, m, p)" and "returns m r" and "result_fits r" and "\<not> empty_result t"
  shows "unmarshal_result why t (Some (json_clean (result_json r))) = Inr (received_result r)"
  using assms
  by (cases t; cases r) (auto simp: direct_request_def received_messages method_defs)

lemma unmarshal_sent:
  assumes "tool_request subject t = Some (d, m, p)" and "returns m r" and "result_fits r" and "\<not> empty_result t"
  shows "unmarshal_result why t (Some (json_clean (result_json r))) = Inr (received_result r)"
proof (cases "read_query_request t")
  case None
  then show ?thesis using assms unmarshal_direct by (simp add: tool_request_def)
next
  case (Some q)
  then have "m = MethodReadQuery" using assms(1) by (simp add: tool_request_def)
  then obtain x where "r = ReadQueryResult x" using assms(2) by (cases r) (auto simp: method_defs)
  then show ?thesis using unmarshal_query [OF Some] assms(3) by simp
qed

lemma sent_method: "m \<in> set agent_methods \<Longrightarrow> clean m = m"
  by (rule clean_ascii) (auto simp: agent_methods_def method_defs in_range_def)

text \<open>A call of a method with fitting parameters and a handler of the method's type.\<close>

lemma wire_call_answer:
  assumes m: "m \<in> set agent_methods" "accepts m p" "params_fit p"
    and handler: "\<And>parsed v s'. handle m parsed s = Some (Inr v, s') \<Longrightarrow> result_fits v"
  shows "wire_call (agent_dispatcher (\<lambda>m raw. handle m (parse_params why m raw))) rid s m p =
     (case handle m (Inr (received_params p)) s of
        None \<Rightarrow> Inl (RPC (RPCErr ErrTimeout ''RPC timed out waiting for a response''))
      | Some (Inl e, s') \<Rightarrow> Inl (RPC (clean_error e))
      | Some (Inr v, s') \<Rightarrow> Inr (Some (Some (json_clean (result_json v)))))"
proof -
  let ?req = "\<lparr>rq_Type = TypeRequest, rq_RequestID = rid, rq_Method = m, rq_Params = Some (params_json p)\<rparr>"
  have req: "decode_request (encode_request ?req) = Inr (clean_request ?req)"
    using params_embeddable [OF m(3)] by (simp add: decode_encode_request raw_json_def)
  have read: "clean_request ?req =
      \<lparr>rq_Type = clean TypeRequest, rq_RequestID = clean rid, rq_Method = m, rq_Params = Some (json_clean (params_json p))\<rparr>"
    by (simp add: clean_request_def raw_json_def sent_method [OF m(1)])
  show ?thesis
  proof (cases "handle m (Inr (received_params p)) s")
    case None
    then show ?thesis
      by (simp add: wire_call_def req read disp_Dispatch_def agent_dispatcher_get m(1) parse_sent [OF m(2,3)] Let_def)
  next
    case (Some res)
    obtain out s' where res: "res = (out, s')" by (cases res)
    show ?thesis
    proof (cases out)
      case (Inl e)
      then show ?thesis using Some res
        by (simp add: wire_call_def req read disp_Dispatch_def agent_dispatcher_get m(1) parse_sent [OF m(2,3)] Let_def
            decode_encode_response result_ok_def clean_response_def)
    next
      case (Inr v)
      have fits: "result_fits v" using handler Some res Inr by blast
      show ?thesis using Some res Inr result_embeddable [OF fits]
        by (simp add: wire_call_def req read disp_Dispatch_def agent_dispatcher_get m(1) parse_sent [OF m(2,3)] Let_def
            marshal_fits [OF fits] decode_encode_response result_ok_def clean_response_def)
    qed
  qed
qed

section \<open>Properties\<close>


subsection \<open>Witness\<close>

text \<open>
  A process whose output is the two bytes of one character, read by a tool one byte at a time: what is
  not a whole character does not survive the way.
\<close>

definition one_char_output :: "string \<Rightarrow> string + agent_params \<Rightarrow> unit \<Rightarrow> ((rpc_error + agent_result) \<times> unit) option" where
  "one_char_output m parsed s =
     (case parsed of
        Inr (ProcessReadParams q) \<Rightarrow>
          if m = MethodProcessRead then
            Some (Inr (ProcessReadResult
              \<lparr>prr_Stdout = take (nat (prp_MaxBytes q)) [CHR 0xC3, CHR 0xA9], prr_Stderr = [], prr_NextStdoutOffset = 1,
               prr_NextStderrOffset = 0, prr_StdoutTruncatedBefore = False, prr_StderrTruncatedBefore = False,
               prr_ExitCode = None\<rparr>), s)
          else None
      | _ \<Rightarrow> None)"


end
