(* ===== verification/FileTools.thy ===== *)
theory FileTools
  imports ToolWire
begin

text \<open>
  The file tools end to end: the file handlers as \<open>main\<close> registers them (agent/cmd/main.go), called by the
  tools \<open>file_write\<close> and \<open>file_read\<close> over JSON. Content travels as base64, which no replacement of
  invalid bytes can touch.
\<close>

section \<open>The handlers of the table\<close>

definition with_params :: "(agent_params \<Rightarrow> 'a option) \<Rightarrow> (string + 'a \<Rightarrow> 'r) \<Rightarrow> string + agent_params \<Rightarrow> 'r option" where
  "with_params pick h parsed =
     (case parsed of Inl err \<Rightarrow> Some (h (Inl err)) | Inr p \<Rightarrow> map_option (\<lambda>x. h (Inr x)) (pick p))"

fun path_of :: "agent_params \<Rightarrow> string option" where
  "path_of (FileReadParams path) = Some path"
| "path_of (FileStatParams path) = Some path"
| "path_of (FileListParams path) = Some path"
| "path_of (FileDeleteParams path) = Some path"
| "path_of _ = None"

fun write_of :: "agent_params \<Rightarrow> file_write_params option" where
  "write_of (FileWriteParams p) = Some p"
| "write_of _ = None"

fun move_of :: "agent_params \<Rightarrow> file_move_params option" where
  "move_of (FileMoveParams p) = Some p"
| "move_of _ = None"

fun directory_of :: "agent_params \<Rightarrow> directory_create_params option" where
  "directory_of (DirectoryCreateParams p) = Some p"
| "directory_of _ = None"

abbreviation no_payload :: "(rpc_error + unit) \<times> 'fs \<Rightarrow> (rpc_error + agent_result) \<times> 'fs" where
  "no_payload r \<equiv> map_prod (map_sum id (\<lambda>_. EmptyResult)) id r"

definition file_handler ::
    "'fs os_calls \<Rightarrow> (string \<Rightarrow> string) \<Rightarrow> string + string \<Rightarrow> string \<Rightarrow> string + agent_params \<Rightarrow> 'fs \<Rightarrow>
     ((rpc_error + agent_result) \<times> 'fs) option" where
  "file_handler os b64_err wd m parsed fs =
     (if m = MethodFileRead
      then with_params path_of (\<lambda>p. (map_sum id FileReadResult (file_Read os wd p fs fs), fs)) parsed
      else if m = MethodFileStat
      then with_params path_of (\<lambda>p. (map_sum id FileStatResult (file_Stat os wd p fs), fs)) parsed
      else if m = MethodFileList
      then with_params path_of (\<lambda>p. (map_sum id FileListResult (file_List os wd p fs), fs)) parsed
      else if m = MethodFileWrite then with_params write_of (\<lambda>p. no_payload (file_Write os b64_err wd p fs)) parsed
      else if m = MethodFileMove then with_params move_of (\<lambda>p. no_payload (file_Move os wd p fs)) parsed
      else if m = MethodFileDelete then with_params path_of (\<lambda>p. no_payload (file_Delete os wd p fs)) parsed
      else if m = MethodDirectoryCreate then with_params directory_of (\<lambda>p. no_payload (directory_Create os wd p fs)) parsed
      else None)"

section \<open>Base64 in JSON\<close>

lemma alphabet_ascii: "c \<in> set b64_alphabet \<Longrightarrow> in_range 0 0x7F c"
  by (auto simp: b64_alphabet_def in_range_def)

lemma b64_digit_ascii: "b64_digit c = Some i \<Longrightarrow> in_range 0 0x7F c"
  by (auto simp: b64_digit_def dest!: map_of_SomeD set_zip_leftD intro: alphabet_ascii)

lemma b64_groups_ascii: "b64_groups s = Some bs \<Longrightarrow> ascii s"
proof (induction s arbitrary: bs rule: b64_groups.induct)
  case (2 w x y z rest)
  have eq: "in_range 0 0x7F CHR ''=''" by (simp add: in_range_def)
  show ?case
    using 2 eq by (auto split: option.splits if_splits dest: b64_digit_ascii)
qed simp_all

lemma decodes_ascii: "DecodeString s = Some bs \<Longrightarrow> ascii s"
proof -
  assume "DecodeString s = Some bs"
  then have "ascii (filter (\<lambda>c. c \<noteq> CHR 0x0A \<and> c \<noteq> CHR 0x0D) s)" unfolding DecodeString_def by (rule b64_groups_ascii)
  then have "in_range 0 0x7F c" if "c \<in> set s" for c
    using that by (cases "c = CHR 0x0A \<or> c = CHR 0x0D") (auto simp: ascii_def list_all_iff in_range_def)
  then show ?thesis by (simp add: ascii_def list_all_iff)
qed

text \<open>What arrives as ASCII was sent as it is.\<close>

lemma clean_arrives_ascii: "ascii (clean s) \<Longrightarrow> clean s = s"
proof -
  assume a: "ascii (clean s)"
  have "clean_rune r = r" if r: "r \<in> set (runes s)" for r
  proof (rule ccontr)
    assume "clean_rune r \<noteq> r"
    then have "clean_rune r = replacement" by (auto simp: clean_rune_def split: if_splits)
    then have "set replacement \<subseteq> set (clean s)" using r by (force simp: clean_def)
    then show False using a by (auto simp: ascii_def list_all_iff replacement_def in_range_def)
  qed
  then have "map clean_rune (runes s) = runes s" by (simp add: map_idI)
  then show ?thesis by (simp add: clean_def)
qed

lemma encoded_arrives: "clean (EncodeToString bs) = EncodeToString bs"
  by (rule clean_ascii) (rule decodes_ascii [OF DecodeString_Encode])

section \<open>The calls of the two tools\<close>

lemma map_sum_Inr: "map_sum f g x = Inr y \<longleftrightarrow> (\<exists>z. x = Inr z \<and> y = g z)"
  by (cases x) auto

lemma handled_write: "file_handler os b64_err wd MethodFileWrite parsed fs =
    with_params write_of (\<lambda>p. no_payload (file_Write os b64_err wd p fs)) parsed"
  by (simp add: file_handler_def method_defs)

lemma handled_read: "file_handler os b64_err wd MethodFileRead parsed fs =
    with_params path_of (\<lambda>p. (map_sum id FileReadResult (file_Read os wd p fs fs), fs)) parsed"
  by (simp add: file_handler_def)

lemma wire_file_write:
  "wire_call (agent_dispatcher (\<lambda>m raw. file_handler os b64_err wd m (parse_params why m raw))) rid fs
     MethodFileWrite (FileWriteParams p) =
   (case file_Write os b64_err wd (Inr (received_file_write p)) fs of
      (Inl e, fs') \<Rightarrow> Inl (RPC (clean_error e))
    | (Inr u, fs') \<Rightarrow> Inr (Some (Some (JObj []))))"
proof -
  have m: "MethodFileWrite \<in> set agent_methods" by (simp add: agent_methods_def)
  have "result_fits v" if "file_handler os b64_err wd MethodFileWrite parsed fs = Some (Inr v, s')" for parsed v s'
    using that by (auto simp: handled_write with_params_def map_prod_def map_sum_Inr case_prod_beta split: sum.splits)
  note wire_call_answer [where handle = "file_handler os b64_err wd" and p = "FileWriteParams p" and why = why and rid = rid,
      OF m accepts.intros(15) _ this]
  then show ?thesis
    by (simp add: handled_write with_params_def split: prod.split sum.split)
qed

lemma file_Read_size:
  "(\<And>p data. os_ReadFile os fs p = Inr data \<Longrightarrow> int (length data) < 2 ^ 63) \<Longrightarrow>
   file_Read os wd parsed fs fs = Inr res \<Longrightarrow> in_i64 (frr_Size res)"
  by (auto simp: file_Read_def in_i64_def split: sum.splits if_splits intro: order.strict_trans)

lemma wire_file_read:
  assumes "\<And>p data. os_ReadFile os fs p = Inr data \<Longrightarrow> int (length data) < 2 ^ 63"
  shows "wire_call (agent_dispatcher (\<lambda>m raw. file_handler os b64_err wd m (parse_params why m raw))) rid fs
     MethodFileRead (FileReadParams p) =
   (case file_Read os wd (Inr (clean p)) fs fs of
      Inl e \<Rightarrow> Inl (RPC (clean_error e))
    | Inr res \<Rightarrow> Inr (Some (Some (json_clean (result_json (FileReadResult res))))))"
proof -
  have m: "MethodFileRead \<in> set agent_methods" by (simp add: agent_methods_def)
  have "result_fits v" if "file_handler os b64_err wd MethodFileRead parsed fs = Some (Inr v, s')" for parsed v s'
    using that file_Read_size [OF assms] by (auto simp: handled_read with_params_def map_sum_Inr split: sum.splits)
  note wire_call_answer [where handle = "file_handler os b64_err wd" and p = "FileReadParams p" and why = why and rid = rid,
      OF m accepts.intros(12) _ this]
  then show ?thesis
    by (simp add: handled_read with_params_def split: sum.split)
qed

lemma file_read_unmarshal:
  "in_i64 (frr_Size res) \<Longrightarrow>
   unmarshal_result why (file_read r) (Some (json_clean (encode_struct file_read_result_fields res))) =
     Inr (FileReadResult (received_file_read_result res))"
  by (simp add: received_messages)

section \<open>Properties\<close>


subsection \<open>Witness\<close>


end
