(* ===== verification/Spec2Isabelle.thy ===== *)
theory Spec2Isabelle
  imports Proto RingBuffer History Backend ProcessMgr Commands Processes Files GitHub AgentRuntime
    AgentServer AgentLoop SelfUpdate AgentMain AgentLife Wire AgentConn Registry GatewayMain FileTools "HOL-Library.Sublist"
begin

text \<open>
  A model of command-relay-mcp and the theorems that make it correct.

  \<^bold>\<open>The program.\<close> A \<^emph>\<open>Gateway\<close> (src/gateway) offers MCP tools over HTTP and keeps one WebSocket per
  device. On each device an \<^emph>\<open>Agent\<close> (src/agent) dials the Gateway, says hello with a shared secret, and
  serves requests: commands, long-running processes, files, fixed read-only queries and its own
  history. A tool call is routed by device id to a connection, sent as a request with an id of its
  own, dispatched by method on the Agent, and its response is routed back by that id. Commands run
  under a backend (src/internal/backend), plain or confined by Landlock and namespaces; their
  output goes to ring buffers, their start and end to an SQLite table. The Agent replaces itself
  by newer releases (src/internal/selfupdate).

  \<^bold>\<open>Conventions.\<close> Go strings and byte slices are lists of characters (one per byte); \<open>int\<close> and \<open>int64\<close> are
  integers, with the 64-bit wrap-around \<open>i64\<close> written wherever the code computes with them; a result
  \<open>(T, error)\<close> is a sum with the error on the left; \<open>None\<close> from an operation that returns an option
  is a Go panic; a Go map is the association list \<open>gomap\<close>; pointers to process records are indices
  into a heap that only grows. Goroutines are step relations or sequences of steps. Whatever is
  not under src/ (the operating system, SQLite, the WebSocket and MCP libraries, HTTP,
  SHA-256, archives, Landlock, clocks, random bytes) is a parameter of the definitions that use it, and the
  few laws a theorem needs of it are stated as hypotheses, each with a concrete instance.

  \<^bold>\<open>Theories.\<close>
  \<^item> Prelude: arithmetic of \<open>int64\<close>, slices, \<open>gomap\<close>, decimal digits, strings.Fields; the collections
    of simplification rules the others extend.
  \<^item> Proto (internal/proto/message.go): methods, error codes, limits, messages, and which methods change
    state.
  \<^item> Json (encoding/json): UTF-8 with the replacement of invalid bytes, quoting with the escapes of
    \<open>json.Marshal\<close>, printing and parsing values, and that a printed value is parsed back. Wire (the struct
    tags of internal/proto/message.go): what is written for a hello, a request and a response, and
    what \<open>json.Unmarshal\<close> stores from any text, key by key. Theorem: what one end sends the other receives.
  \<^item> Payload: how encoding/json writes and reads strings, integers, pointers, maps, slices, times and
    structs, as codecs with a field table per struct; the locale \<open>json_struct\<close> has the round trip of any such
    table. Structs: the tables of every parameter and result (agent/handlers_*.go, agent/read_query.go,
    agent/history.go), each an interpretation. GitHub: the structs GitHub's answers are decoded into and
    forwarded from. Theorem: a query reads the named repository only, and forwards only the listed fields.
  \<^item> RingBuffer (agent/ringbuffer.go): \<open>rb_Write\<close>, \<open>rb_Len\<close>, \<open>rb_ReadFrom\<close>. The locale \<open>output_log\<close>
    says what a bounded view of a byte stream is; the ring buffer interprets it. Theorems: it is
    the tail of the stream, and polling it never skips a byte silently.
  \<^item> Clock: the fixed-width timestamps of the history, their parser, and that their lexical order is
    the order of time.
  \<^item> History (agent/history.go): rows, scanning, \<open>RecordStart\<close>, \<open>RecordEnd\<close> with its retries, \<open>hist_Get\<close>,
    \<open>hist_List\<close>, \<open>PurgeOlderThan\<close>, opening the database, over the record \<open>sql_engine\<close> of statements, whose contract is
    \<open>sqlite_table\<close>; \<open>mem_engine\<close> is an engine that satisfies it. Theorems: round trip, newest first,
    exact purge, at most four tries.
  \<^item> Backend (internal/backend): the commands both backends build, their pipes and who holds which end
    (\<open>stdio_pipes\<close>, \<open>cmd_Start\<close>, \<open>CloseIO\<close>), \<open>linux_start\<close> and \<open>linux_wait\<close>, \<open>sandbox_start\<close> and \<open>sandbox_wait\<close>
    with the scratch directory and the status pipe, and \<open>handle_Terminate\<close>, the loop of both \<open>Terminate\<close>
    methods. The locale \<open>process_backend\<close> is interpreted by both. Theorem: what is acquired is given back.
  \<^item> ProcessMgr (agent/processmgr.go): a tracked process is the record \<open>process_record\<close>; its copy goroutines,
    the goroutine that waits, and the two seconds it gives the copies after the exit are the
    relation \<open>proc_step\<close>; \<open>mgr_Start\<close>, \<open>mgr_Get\<close>, \<open>mgr_List\<close>, \<open>mgr_gc_tick\<close>, \<open>mgr_TerminateAll\<close> are the Manager's
    operations. Theorems: an exit code implies complete output, for every interleaving; an exit
    is always reported, in a bounded number of steps; the garbage collector forgets exactly what expired.
  \<^item> Commands (agent/handlers_command.go): \<open>command.exec\<close> and \<open>command.read\<close>, each cut at its blocking wait
    into \<open>_start\<close>, \<open>_result\<close> and \<open>after_wait\<close>, and the background goroutine that completes the history.
  \<^item> Processes (agent/handlers_process.go, handlers_execution.go): the process and execution handlers
    over both Managers.
  \<^item> AgentRuntime: all handlers, process steps, garbage collections and completions interleaved, as
    the relation of one Agent; its invariants link history rows to processes and Managers to records.
  \<^item> Paths: path/filepath's \<open>Clean\<close>, \<open>Join\<close>, \<open>Abs\<close>, \<open>Base\<close>, \<open>Dir\<close>; ReadQuery (agent/read_query.go): validation,
    command templates, the run of a command with bounded output, GitHub requests; Files (agent/handlers_fs.go): the seven
    file handlers, with base64 written out.
  \<^item> AgentServer (agent/config.go, dispatch.go, connection.go, sandbox_probe.go): settings, dispatcher,
    serving a frame, reconnecting; AgentLoop (agent/connection.go): \<open>Run\<close>, \<open>runOnce\<close>, the goroutines of
    requests and the pings, as a relation over all connections of an Agent's life.
  \<^item> AgentMain (agent/cmd/main.go): the modes of the binary, the Landlock child, start and shutdown; AgentLife
    composes start, connection, handlers, processes and shutdown into \<open>life_step\<close>, and shows that no
    process is left; SelfUpdate (internal/selfupdate, internal/version): a check from the release to the re-exec.
  \<^item> AgentConn (gateway/agentconn.go): concurrent calls, the read loop and their table of channels as
    the relation \<open>conn_step\<close>; Registry (gateway/registry.go, wsserver.go, config.go): connects,
    reconnects, disconnects and a shutdown as \<open>gateway_step\<close>; GatewayMain (gateway/cmd/main.go): the
    process with its two servers and its shutdown; Tools (gateway/mcptools.go,
    read_query_tools.go): every tool with its input, method, parameters, annotation and answer.
  \<^item> ToolWire: a tool's call down to the bytes, with each method's parameters and results as JSON in the
    frames. Theorem: a tool answers what the handler of its method returned. FileTools: the file handlers as
    agent/cmd/main.go registers them, called by tools. Theorem: what \<open>file_write\<close> stored, \<open>file_read\<close> gives back.
  \<^item> This theory: the composition of AgentLoop and AgentConn over one connection and its JSON frames, which
    discharges the Gateway's assumption that the Agent answers a request at most once: a call gets the
    answer to its own request; and of AgentMain, Wire, Registry and Commands: an Agent that starts comes
    online with its capabilities.

  \<^bold>\<open>Interfaces.\<close> The locales \<open>keyed_table\<close> (the Manager's table and the Gateway's registry), \<open>output_log\<close> (the
  ring buffer), \<open>process_backend\<close> (both backends), \<open>sqlite\<close> (an engine) and \<open>execution_log\<close> (the history
  store over any such engine), and \<open>json_struct\<close> (the struct of every message) are each interpreted on the definitions of the component that provides
  them, and the properties use the facts of these interpretations.

  \<^bold>\<open>Fuel and bounds.\<close> Only the JSON parser uses fuel, the length of its input and one more; every step
  consumes a character, and \<open>json_parse_fuel\<close> shows that no other amount finds anything else. The other loops are structural recursions over what the environment
  delivers (ticks and deadline of a termination, lines, archive entries, attempts), or runs of step
  relations of any length. What must end is proved so: a termination ends for every sequence of ticks
  that reaches its deadline; after an exit at most six steps of the process's goroutines remain; a record's end is
  tried at most four times; each check of the updater is a total function.

  \<^bold>\<open>Not modelled.\<close> Pure I/O: dials, HTTP servers and their routing, the JSON of
  tool inputs (which the MCP library decodes), the error texts of encoding/json, log output (but for the
  Agent's history log, whose messages count); the MCP schema of the tools; what the kernel does with
  namespaces and Landlock rules once it accepted them; the memory model below the granularity of the
  locks the code takes. The closing of the database on exit and the \<open>pong\<close> bookkeeping of the
  WebSocket library have no state here. Processes of a device that outlive a crash of the Agent are
  the operating system's.
\<close>

section \<open>The two ends of a connection\<close>

text \<open>The requests among \<open>xs\<close> that came from connection \<open>k\<close>.\<close>

definition requests_on :: "nat \<Rightarrow> (nat \<times> 'raw request) list \<Rightarrow> 'raw request list" where
  "requests_on k xs = map snd (filter (\<lambda>x. fst x = k) xs)"

lemma requests_on_distinct:
  "distinct (map f (requests_on k xs)) \<Longrightarrow> i < j \<Longrightarrow> j < length xs \<Longrightarrow> xs ! i = (k, r) \<Longrightarrow> xs ! j = (k, r') \<Longrightarrow> f r \<noteq> f r'"
proof (induction xs arbitrary: i j)
  case (Cons x xs)
  have mem: "n < length xs \<Longrightarrow> xs ! n = (k, q) \<Longrightarrow> q \<in> set (requests_on k xs)" for n q
    by (force simp: requests_on_def in_set_conv_nth image_iff)
  show ?case
  proof (cases i)
    case 0
    then have "f r \<notin> f ` set (requests_on k xs)" using Cons.prems by (auto simp: requests_on_def)
    moreover have "r' \<in> set (requests_on k xs)" using mem [of "j - 1" r'] Cons.prems 0 by (auto simp: nth_Cons')
    ultimately show ?thesis by auto
  next
    case (Suc m)
    then show ?thesis using Cons.IH [of m "j - 1"] Cons.prems by (auto simp: requests_on_def nth_Cons' split: if_splits)
  qed
qed simp

lemma subseq_distinct: "subseq xs ys \<Longrightarrow> distinct ys \<Longrightarrow> distinct xs"
  by (auto simp: subseq_conv_nths)

lemma subseq_set: "subseq xs ys \<Longrightarrow> x \<in> set xs \<Longrightarrow> x \<in> set ys"
  by (auto simp: subseq_conv_nths dest: in_set_nthsD)

text \<open>
  The ids of the responses the Agent wrote on a connection are distinct when those of the requests
  are, and each is the dispatcher's response to one of them. \<open>decode\<close> is what the Gateway makes of a
  message; it has to keep the id.
\<close>

definition answer_to :: "('raw, 'v) loop_env \<Rightarrow> (bytes \<Rightarrow> 'raw response) \<Rightarrow> 'raw request \<Rightarrow> bytes \<Rightarrow> bool" where
  "answer_to env decode req out \<longleftrightarrow>
     (\<exists>res resp. dispatched env req res = Some resp \<and> le_response env resp = Inr out) \<and>
     rs_RequestID (decode out) = rq_RequestID req"

lemma reply_of:
  assumes "loop_run env es new_loop = Some a" and "k < length (al_socks a)" and "x \<in> set (tl (sk_sent (al_socks a ! k)))"
  shows "\<exists>i req res resp. fst x = Some i \<and> i < length (accepted env es) \<and> accepted env es ! i = (k, req) \<and>
    dispatched env req res = Some resp \<and> rs_RequestID resp = rq_RequestID req \<and> le_response env resp = Inr (snd x)"
proof (cases "sk_sent (al_socks a ! k)")
  case (Cons m ms)
  then show ?thesis using replies_on_own_connection [OF assms(1,2)] assms(3) by (cases m; cases x; fastforce)
qed (use assms(3) in simp)

lemma replies_distinct:
  assumes run: "loop_run env es new_loop = Some a" and k: "k < length (al_socks a)"
    and ids: "distinct (map rq_RequestID (requests_on k (accepted env es)))"
    and dec: "\<And>req res resp out. req \<in> set (requests_on k (accepted env es)) \<Longrightarrow>
      dispatched env req res = Some resp \<Longrightarrow> le_response env resp = Inr out \<Longrightarrow>
      rs_RequestID (decode out) = rs_RequestID resp"
  shows "distinct (map (\<lambda>m. rs_RequestID (decode (snd m))) (tl (sk_sent (al_socks a ! k)))) \<and>
    (\<forall>m \<in> set (tl (sk_sent (al_socks a ! k))). \<exists>req. req \<in> set (requests_on k (accepted env es)) \<and> answer_to env decode req (snd m))"
proof (cases "sk_sent (al_socks a ! k)")
  case (Cons m ms)
  let ?acc = "accepted env es"
  have mem: "req \<in> set (requests_on k ?acc)" if "i < length ?acc" "?acc ! i = (k, req)" for i req
    using that by (force simp: requests_on_def in_set_conv_nth image_iff)
  have d: "distinct (map fst ms)" and reply: "\<exists>i req. fst x = Some i \<and> i < length ?acc \<and> ?acc ! i = (k, req) \<and>
      answer_to env decode req (snd x)"
    if x: "x \<in> set ms" for x
  proof -
    show "distinct (map fst ms)" using replies_on_own_connection [OF run k] Cons by (cases m) simp
    obtain i req res resp where r: "fst x = Some i" "i < length ?acc" "?acc ! i = (k, req)"
      "dispatched env req res = Some resp" "rs_RequestID resp = rq_RequestID req" "le_response env resp = Inr (snd x)"
      using reply_of [OF run k, of x] Cons x by auto
    then have "answer_to env decode req (snd x)" using dec [OF mem [OF r(2,3)] r(4,6)] by (auto simp: answer_to_def)
    then show "\<exists>i req. fst x = Some i \<and> i < length ?acc \<and> ?acc ! i = (k, req) \<and> answer_to env decode req (snd x)"
      using r by blast
  qed
  have "inj_on (\<lambda>x. rs_RequestID (decode (snd x))) (set ms)"
  proof (rule inj_onI)
    fix x y assume x: "x \<in> set ms" and y: "y \<in> set ms"
      and eq: "rs_RequestID (decode (snd x)) = rs_RequestID (decode (snd y))"
    obtain i r where i: "fst x = Some i" "i < length ?acc" "?acc ! i = (k, r)" "rs_RequestID (decode (snd x)) = rq_RequestID r"
      using reply [OF x] by (auto simp: answer_to_def)
    obtain j r' where j: "fst y = Some j" "j < length ?acc" "?acc ! j = (k, r')" "rs_RequestID (decode (snd y)) = rq_RequestID r'"
      using reply [OF y] by (auto simp: answer_to_def)
    have "i = j"
      using requests_on_distinct [OF ids, of i j] requests_on_distinct [OF ids, of j i] i j eq
      by (metis linorder_neqE_nat)
    then have "fst x = fst y" using i j by simp
    then show "x = y" using d [OF x] x y by (meson inj_onD distinct_map)
  qed
  moreover have "distinct ms" using d by (cases ms) (auto simp: distinct_map)
  ultimately have "distinct (map (\<lambda>m. rs_RequestID (decode (snd m))) ms)" by (simp add: distinct_map)
  moreover have "\<forall>m \<in> set ms. \<exists>req. req \<in> set (requests_on k ?acc) \<and> answer_to env decode req (snd m)"
    using reply mem by blast
  ultimately show ?thesis by (simp add: Cons)
qed simp

lemma responses_held:
  assumes "responses_inv rs c" and "cn_reader c = Delivering ch resp \<or> holds c ch resp"
  shows "ch < length (cn_calls c) \<and> rs_RequestID resp = dec_digits (Suc ch) \<and> resp \<in> set rs"
proof -
  obtain old where old: "\<forall>i resp. holds c i resp \<longrightarrow> resp \<in> set old \<and> rs_RequestID resp = dec_digits (Suc i)"
    and rd: "case cn_reader c of
      Delivering ch resp \<Rightarrow> ch < length (cn_calls c) \<and> rs_RequestID resp = dec_digits (Suc ch) \<and> rs = old @ [resp]
    | _ \<Rightarrow> rs = old"
    using assms(1) by (auto simp: responses_inv_def)
  from assms(2) show ?thesis
  proof
    assume "cn_reader c = Delivering ch resp"
    then show ?thesis using rd by simp
  next
    assume h: "holds c ch resp"
    then have "ch < length (cn_calls c)" by (simp add: holds_def)
    moreover have "set old \<subseteq> set rs" using rd by (cases "cn_reader c") auto
    ultimately show ?thesis using old h by blast
  qed
qed

text \<open>The two ends over any codec that keeps ids; methods arrive as \<open>M\<close> makes them.\<close>

lemma ends_fit:
  assumes agent: "loop_run env es new_loop = Some a" "k < length (al_socks a)"
    and gateway: "conn_run new_conn evs c" "length (cn_calls c) < 2 ^ 64"
    and up: "subseq (map (\<lambda>req. (rq_RequestID req, rq_Method req)) (requests_on k (accepted env es)))
      (map (\<lambda>i. (cl_id (cn_calls c ! i), M (cl_method (cn_calls c ! i)))) (written_calls evs))"
    and down: "subseq (responses evs) (map (decode \<circ> snd) (tl (sk_sent (al_socks a ! k))))"
    and codec: "\<And>req res resp out. req \<in> set (requests_on k (accepted env es)) \<Longrightarrow>
      dispatched env req res = Some resp \<Longrightarrow> le_response env resp = Inr out \<Longrightarrow>
      rs_RequestID (decode out) = rs_RequestID resp"
    and at: "cn_reader c = Delivering ch resp \<or> holds c ch resp"
  shows "(cn_reader c = Delivering ch resp \<longrightarrow> (\<exists>c'. conn_step c Deliver c')) \<and> ch < length (cn_calls c) \<and>
    (\<exists>req out. req \<in> set (requests_on k (accepted env es)) \<and> rq_RequestID req = cl_id (cn_calls c ! ch) \<and>
       rq_Method req = M (cl_method (cn_calls c ! ch)) \<and> answer_to env decode req out \<and> resp = decode out)"
proof -
  have inv: "ids_inv c" "responses_inv (responses evs) c" using conn_run_inv [OF gateway(1) refl gateway(2)] by auto
  have w: "distinct (written_calls evs)" "\<forall>i \<in> set (written_calls evs). i < length (cn_calls c)"
    using written_once [OF gateway(1) refl] by auto
  have ids: "cl_id (cn_calls c ! i) = cl_id (cn_calls c ! j) \<Longrightarrow> i = j" if "i < length (cn_calls c)" "j < length (cn_calls c)" for i j
    using that inv(1) by (auto simp: ids_inv_def dest: dec_digits_inj)
  have "subseq (map rq_RequestID (requests_on k (accepted env es))) (map (\<lambda>i. cl_id (cn_calls c ! i)) (written_calls evs))"
    using subseq_map [OF up, of fst] by (simp add: comp_def)
  moreover have "inj_on (\<lambda>i. cl_id (cn_calls c ! i)) (set (written_calls evs))"
    using w(2) ids by (auto intro!: inj_onI)
  ultimately have "distinct (map rq_RequestID (requests_on k (accepted env es)))"
    using subseq_distinct w(1) by (metis distinct_map)
  then have sent: "distinct (map (\<lambda>m. rs_RequestID (decode (snd m))) (tl (sk_sent (al_socks a ! k)))) \<and>
      (\<forall>m \<in> set (tl (sk_sent (al_socks a ! k))). \<exists>req. req \<in> set (requests_on k (accepted env es)) \<and> answer_to env decode req (snd m))"
    by (rule replies_distinct [OF agent]) (rule codec)
  have "distinct (map rs_RequestID (responses evs))"
    using subseq_distinct [OF subseq_map [OF down, of rs_RequestID]] sent by (simp add: comp_def)
  then have step: "cn_reader c = Delivering ch resp \<longrightarrow> (\<exists>c'. conn_step c Deliver c')"
    using read_loop_never_blocks [OF gateway] by blast
  have ch: "ch < length (cn_calls c)" "rs_RequestID resp = dec_digits (Suc ch)" "resp \<in> set (responses evs)"
    using responses_held [OF inv(2) at] by simp_all
  obtain m where m: "m \<in> set (tl (sk_sent (al_socks a ! k)))" "resp = decode (snd m)"
    using subseq_set [OF down ch(3)] by auto
  then obtain req where req: "req \<in> set (requests_on k (accepted env es))" "answer_to env decode req (snd m)"
    using sent by blast
  have "(rq_RequestID req, rq_Method req) \<in> set (map (\<lambda>i. (cl_id (cn_calls c ! i), M (cl_method (cn_calls c ! i)))) (written_calls evs))"
    using subseq_set [OF up] req(1) by auto
  then obtain j where j: "j < length (cn_calls c)" "rq_RequestID req = cl_id (cn_calls c ! j)" "rq_Method req = M (cl_method (cn_calls c ! j))"
    using w(2) by auto
  have id: "rq_RequestID req = cl_id (cn_calls c ! ch)"
    using ch inv(1) req(2) m(2) by (simp add: ids_inv_def answer_to_def)
  have "j = ch" by (rule ids [OF j(1) ch(1)]) (simp only: j(2) [symmetric] id)
  then have "rq_Method req = M (cl_method (cn_calls c ! ch))" using j(3) by simp
  then show ?thesis using step ch(1) req id m(2) by blast
qed

section \<open>The connection in JSON\<close>

text \<open>The frames the Agent was given on connection \<open>k\<close>.\<close>

fun frames_on :: "nat \<Rightarrow> 'v loop_event list \<Rightarrow> bytes list" where
  "frames_on k [] = []"
| "frames_on k (Frame c data # es) = (if c = k then [data] else []) @ frames_on k es"
| "frames_on k (_ # es) = frames_on k es"

text \<open>The Agent with its messages in JSON; \<open>value_json\<close> is the value a handler's result is marshalled to.\<close>

definition wire_env :: "hello \<Rightarrow> ('v \<Rightarrow> json) \<Rightarrow> (raw, 'v) loop_env" where
  "wire_env h value_json =
     \<lparr>le_parse = decode_request, le_value = (\<lambda>v. Inr (Some (value_json v))),
      le_response = (\<lambda>resp. Inr (encode_response resp)), le_hello = Inr (encode_hello h)\<rparr>"

text \<open>The frames the Gateway writes for its calls, with parameters \<open>P\<close>; what it reads, garbage skipped.\<close>

definition call_request :: "(nat \<Rightarrow> raw) \<Rightarrow> raw conn \<Rightarrow> nat \<Rightarrow> raw request" where
  "call_request P c i =
     \<lparr>rq_Type = TypeRequest, rq_RequestID = cl_id (cn_calls c ! i), rq_Method = cl_method (cn_calls c ! i), rq_Params = P i\<rparr>"

definition written_frames :: "(nat \<Rightarrow> raw) \<Rightarrow> raw conn \<Rightarrow> raw conn_event list \<Rightarrow> bytes list" where
  "written_frames P c evs = map (\<lambda>i. encode_request (call_request P c i)) (written_calls evs)"

definition decoded :: "bytes list \<Rightarrow> raw response list" where
  "decoded ms = concat (map (\<lambda>m. case decode_response m of Inl err \<Rightarrow> [] | Inr resp \<Rightarrow> [resp]) ms)"

lemma requests_of_frames:
  "requests_on k (accepted env es) =
     concat (map (\<lambda>d. case le_parse env d of Inl err \<Rightarrow> [] | Inr req \<Rightarrow> [req]) (frames_on k es))"
  by (induction k es rule: frames_on.induct) (auto simp: requests_on_def split: sum.split)

lemma subseq_map_image: "subseq xs (map f ys) \<Longrightarrow> \<exists>zs. subseq zs ys \<and> xs = map f zs"
  by (auto simp: subseq_conv_nths nths_map)

lemma dec_digits_clean [simp]: "clean (dec_digits n) = dec_digits n"
proof -
  have "list_all (in_range 0 0x7F) (dec_digits n)"
    using dec_digits_is_digit [of _ n] by (auto simp: list_all_iff in_range_def is_digit_def dest!: dec_digits_is_digit)
  then show ?thesis by (simp add: clean_valid valid_ascii)
qed

lemma dispatched_ok:
  assumes "dispatched (wire_env h value_json) req res = Some resp" and "\<And>v. embeddable (value_json v)"
  shows "result_ok resp"
  using assms by (auto simp: dispatched_def disp_Dispatch_def agent_dispatcher_get Let_def wire_env_def result_ok_def
      split: option.splits sum.splits if_splits)

lemma wire_answer:
  assumes "dispatched (wire_env h value_json) req res = Some resp" and "le_response (wire_env h value_json) resp = Inr out"
    and V: "\<And>v. embeddable (value_json v)"
  shows "decode_response out = Inr (clean_response resp)"
proof -
  have "result_ok resp" by (rule dispatched_ok [OF assms(1)]) (rule V)
  moreover have "out = encode_response resp" using assms(2) by (simp add: wire_env_def)
  ultimately show ?thesis by (simp add: decode_encode_response)
qed

text \<open>Requests the Agent reads are calls' requests, cleaned; ids are digits and stay.\<close>

lemma call_request_pair:
  assumes "ids_inv c" "i < length (cn_calls c)"
  shows "rq_RequestID (clean_request (call_request P c i)) = cl_id (cn_calls c ! i)"
    "rq_Method (clean_request (call_request P c i)) = clean (cl_method (cn_calls c ! i))"
  using assms by (simp_all add: clean_request_def call_request_def ids_inv_def)

lemma wire_requests:
  assumes run: "conn_run new_conn evs c" "length (cn_calls c) < 2 ^ 64"
    and up: "subseq (frames_on k es) (written_frames P c evs)" and P: "\<And>i. embeddable (raw_json (P i))"
  shows "subseq (map (\<lambda>req. (rq_RequestID req, rq_Method req)) (requests_on k (accepted (wire_env h value_json) es)))
      (map (\<lambda>i. (cl_id (cn_calls c ! i), clean (cl_method (cn_calls c ! i)))) (written_calls evs))"
    and "req \<in> set (requests_on k (accepted (wire_env h value_json) es)) \<Longrightarrow>
      \<exists>i < length (cn_calls c). req = clean_request (call_request P c i)"
proof -
  let ?reqs = "requests_on k (accepted (wire_env h value_json) es)"
  have inv: "ids_inv c" using conn_run_inv [OF run(1) refl run(2)] by simp
  obtain zs where zs: "subseq zs (written_calls evs)" "frames_on k es = map (\<lambda>i. encode_request (call_request P c i)) zs"
    using subseq_map_image [OF up [unfolded written_frames_def]] by auto
  have d: "decode_request (encode_request (call_request P c i)) = Inr (clean_request (call_request P c i))" for i
    using P by (simp add: decode_encode_request call_request_def)
  have reqs: "?reqs = map (\<lambda>i. clean_request (call_request P c i)) zs"
    unfolding requests_of_frames zs(2) by (induction zs) (simp_all add: wire_env_def d)
  have calls: "i < length (cn_calls c)" if "i \<in> set zs" for i
    using written_once [OF run(1) refl] subseq_set [OF zs(1) that] by simp
  then have "map (\<lambda>req. (rq_RequestID req, rq_Method req)) ?reqs =
      map (\<lambda>i. (cl_id (cn_calls c ! i), clean (cl_method (cn_calls c ! i)))) zs"
    by (simp add: reqs call_request_pair [OF inv])
  then show "subseq (map (\<lambda>req. (rq_RequestID req, rq_Method req)) ?reqs)
      (map (\<lambda>i. (cl_id (cn_calls c ! i), clean (cl_method (cn_calls c ! i)))) (written_calls evs))"
    using subseq_map [OF zs(1)] by simp
  show "req \<in> set ?reqs \<Longrightarrow> \<exists>i < length (cn_calls c). req = clean_request (call_request P c i)"
    using calls by (auto simp: reqs)
qed

text \<open>Everything the Agent writes after its hello decodes.\<close>

lemma wire_replies:
  assumes run: "loop_run (wire_env h value_json) es new_loop = Some a" "k < length (al_socks a)"
    and V: "\<And>v. embeddable (value_json v)"
  shows "decoded (map snd (tl (sk_sent (al_socks a ! k)))) =
    map ((\<lambda>out. projr (decode_response out)) \<circ> snd) (tl (sk_sent (al_socks a ! k)))"
proof -
  have parses: "\<exists>resp. decode_response (snd m) = Inr resp" if m: "m \<in> set (tl (sk_sent (al_socks a ! k)))" for m
  proof -
    obtain req res resp where r: "dispatched (wire_env h value_json) req res = Some resp"
      "le_response (wire_env h value_json) resp = Inr (snd m)"
      using reply_of [OF run m] by blast
    have "decode_response (snd m) = Inr (clean_response resp)" by (rule wire_answer [OF r V])
    then show ?thesis by blast
  qed
  have "\<forall>m \<in> set ms. \<exists>resp. decode_response (snd m) = Inr resp \<Longrightarrow> decoded (map snd ms) =
      map ((\<lambda>out. projr (decode_response out)) \<circ> snd) ms" for ms :: "(nat option \<times> bytes) list"
    by (induction ms) (auto simp: decoded_def)
  then show ?thesis using parses by blast
qed


subsection \<open>Witness\<close>

text \<open>A device.ping over one connection.\<close>

definition ping_request :: "raw request" where
  "ping_request = \<lparr>rq_Type = TypeRequest, rq_RequestID = ''1'', rq_Method = MethodDevicePing, rq_Params = Some (JObj [])\<rparr>"

definition pong :: "raw response" where
  "pong = \<lparr>rs_Type = TypeResponse, rs_RequestID = ''1'', rs_Result = Some (Some (JObj [(''status'', JStr ''pong'')])), rs_Error = None\<rparr>"

definition laptop_hello :: hello where
  "laptop_hello = \<lparr>he_Type = TypeHello, he_DeviceID = ''laptop'', he_DeviceSecret = ''secret'', he_AgentVersion = ''v1'',
     he_OS = ''linux'', he_Arch = ''amd64'', he_Capabilities = no_capabilities\<rparr>"

definition wire_ping_env :: "(raw, ping_result) loop_env" where
  "wire_ping_env = wire_env laptop_hello (\<lambda>v. JObj [(''status'', JStr (pg_Status v))])"

definition wire_ping_events :: "ping_result loop_event list" where
  "wire_ping_events =
     [CheckCtx, Dialed True, Frame 0 (encode_request ping_request), Handled 0 (Some (Inr \<lparr>pg_Status = ''pong''\<rparr>)), Lock 0,
      Written 0 WriteOk]"

lemma clean_ping: "clean_request ping_request = ping_request" "clean_response pong = pong"
  by (simp_all add: clean_request_def clean_response_def ping_request_def pong_def raw_json_def clean_valid valid_ascii
      in_range_def TypeRequest_def TypeResponse_def MethodDevicePing_def)

lemma ping_decodes: "decode_request (encode_request ping_request) = Inr ping_request" "decode_response (encode_response pong) = Inr pong"
  using decode_encode_request [of ping_request] decode_encode_response [of pong]
  by (simp_all add: clean_ping) (simp_all add: ping_request_def pong_def raw_json_def result_ok_def embeddable_def)

lemma wire_ping_env_simps:
  "le_parse wire_ping_env (encode_request ping_request) = Inr ping_request" "le_hello wire_ping_env = Inr (encode_hello laptop_hello)"
  "after_handler wire_ping_env ping_request (Some (Inr \<lparr>pg_Status = ''pong''\<rparr>)) = Ready (encode_response pong)"
proof -
  show "le_parse wire_ping_env (encode_request ping_request) = Inr ping_request" "le_hello wire_ping_env = Inr (encode_hello laptop_hello)"
    by (simp_all add: wire_ping_env_def wire_env_def ping_decodes)
  have "dispatched wire_ping_env ping_request (Some (Inr \<lparr>pg_Status = ''pong''\<rparr>)) = Some pong"
    by (simp add: dispatched_def disp_Dispatch_def agent_dispatcher_get wire_ping_env_def wire_env_def pong_def ping_request_def
        agent_methods_def)
  then show "after_handler wire_ping_env ping_request (Some (Inr \<lparr>pg_Status = ''pong''\<rparr>)) = Ready (encode_response pong)"
    by (simp add: after_handler_def wire_ping_env_def wire_env_def)
qed

lemma wire_ping_run:
  obtains a where "loop_run wire_ping_env wire_ping_events new_loop = Some a"
    "map sk_sent (al_socks a) = [[(None, encode_hello laptop_hello), (Some 0, encode_response pong)]]"
proof -
  have "case loop_run wire_ping_env wire_ping_events new_loop of None \<Rightarrow> False
    | Some a \<Rightarrow> map sk_sent (al_socks a) = [[(None, encode_hello laptop_hello), (Some 0, encode_response pong)]]"
    by (simp add: wire_ping_events_def new_loop_def loop_next_def task_in_def set_task_def map_sock_def
        wire_ping_env_simps Let_def)
  then show ?thesis using that by (cases "loop_run wire_ping_env wire_ping_events new_loop") auto
qed


section \<open>From an Agent's start to the Gateway's registry\<close>

text \<open>
  C23. An Agent comes online with what it can do. The hello that the Agent \<open>main\<close> started sends as JSON
  is accepted by a Gateway in any state exactly when the Gateway has a secret and the Agent's equals
  it; a refused one changes nothing. Accepted, the device's name leads to the new connection, the
  other devices to theirs, and the connection carries the Agent's capabilities: where it does not
  offer command.read, the Agent has no sandbox for the whole of its life and answers every such request
  with unsupported, running nothing.
\<close>

theorem agent_comes_online:
  assumes startup: "agent_startup getenv cfg open_db executable probe = Inr sa"
    and g: "g = gateway_run (LoadGatewayConfig gatewayenv) decode_hello evs"
    and g': "g' = gateway_step (LoadGatewayConfig gatewayenv) decode_hello
      (Connect True (Inr (encode_hello (connection_hello cfg os arch (sa_capabilities sa))))) g"
  shows "if gatewayenv ''AGENT_SHARED_SECRET'' \<noteq> [] \<and> clean (cf_DeviceSecret cfg) = gatewayenv ''AGENT_SHARED_SECRET''
    then reg_Get g' (clean (cf_DeviceID cfg)) = Some (length (gw_conns g)) \<and>
      (\<forall>d. d \<noteq> clean (cf_DeviceID cfg) \<longrightarrow> reg_Get g' d = reg_Get g d) \<and>
      ac_capabilities (gw_conns g' ! length (gw_conns g)) = sa_capabilities sa \<and>
      (\<not> cap_CommandRead (ac_capabilities (gw_conns g' ! length (gw_conns g))) \<longrightarrow>
        (\<forall>wevs w parsed v. world_run eng (sa_commands sa) (started_world sa) wevs w \<longrightarrow>
          (\<exists>msg. Read_start eng (sa_commands sa) parsed v (wd_agent w) = (Inl (RPCErr ErrUnsupported msg), wd_agent w))))
    else g' = g"
proof -
  let ?h = "clean_hello (connection_hello cfg os arch (sa_capabilities sa))" and ?c = "length (gw_conns g)"
  let ?ok = "gatewayenv ''AGENT_SHARED_SECRET'' \<noteq> [] \<and> clean (cf_DeviceSecret cfg) = gatewayenv ''AGENT_SHARED_SECRET''"
  have parts: "he_Type ?h = TypeHello" "he_DeviceSecret ?h = clean (cf_DeviceSecret cfg)" "he_DeviceID ?h = clean (cf_DeviceID cfg)"
    "he_Capabilities ?h = sa_capabilities sa"
    by (simp_all add: clean_hello_def connection_hello_def TypeHello_def clean_valid valid_ascii in_range_def)
  have shake: "ws_handshake (verify_secret (LoadGatewayConfig gatewayenv)) True
      (Inr (encode_hello (connection_hello cfg os arch (sa_capabilities sa)))) decode_hello =
      (if ?ok then Inr ?h else Inl (Some (StatusPolicyViolation, ''invalid device credential'')))"
    by (auto simp: ws_handshake_def verify_secret_def ConstantTimeCompare_iff decode_encode_hello parts LoadGatewayConfig_def)
  show ?thesis
  proof (cases ?ok)
    case False
    then show ?thesis using g' shake by (simp only: gateway_step.simps) simp
  next
    case True
    have ok: "gm_ok (gw_registry g)" using tracked_run g by (simp add: tracked_def)
    have conns: "gw_conns g' ! ?c = newAgentConn ?h MaxRPCMessageBytes"
      using True g' shake by (simp add: Let_def)
    have get: "reg_Get g' d = (if d = clean (cf_DeviceID cfg) then Some ?c else reg_Get g d)" for d
      using True g' shake ok by (simp add: Let_def reg_Get_def newAgentConn_def parts)
    have caps: "ac_capabilities (gw_conns g' ! ?c) = sa_capabilities sa"
      by (simp add: conns newAgentConn_def parts)
    have refused: "\<exists>msg. Read_start eng (sa_commands sa) parsed v (wd_agent w) = (Inl (RPCErr ErrUnsupported msg), wd_agent w)"
      if "\<not> cap_CommandRead (sa_capabilities sa)" "world_run eng (sa_commands sa) (started_world sa) wevs w" for wevs w parsed v
    proof -
      have "ag_sandboxMgr (wd_agent w) = None"
        using sandbox_kept [OF that(2)] startup_capability [OF startup] that(1) by (simp add: started_world_def)
      then show ?thesis
        using command_read_only_sandboxed [of eng "sa_commands sa" parsed v "wd_agent w"]
        by (cases "Read_start eng (sa_commands sa) parsed v (wd_agent w)") auto
    qed
    then show ?thesis using True get caps by simp
  qed
qed

text \<open>Without Landlock, as \<open>laptop\<close>.\<close>

theorem agent_comes_online_witness:
  "\<exists>sa g'. agent_startup (\<lambda>k. ''x'') sample_config (\<lambda>path. Inr sample_db) (Inr ''agent'') (\<lambda>bin shell. False) = Inr sa \<and>
     g' = gateway_step (LoadGatewayConfig (\<lambda>k. ''s'')) decode_hello
       (Connect True (Inr (encode_hello (connection_hello sample_config ''linux'' ''amd64'' (sa_capabilities sa))))) new_gateway \<and>
     reg_Get g' ''dev'' = Some 0 \<and> \<not> cap_CommandRead (ac_capabilities (gw_conns g' ! 0))"
proof (rule sample_startup)
  fix sa
  assume sa: "agent_startup (\<lambda>k. ''x'') sample_config (\<lambda>path. Inr sample_db) (Inr ''agent'') (\<lambda>bin shell. False) = Inr sa"
    "started_world sa = sample_world"
  let ?g = "gateway_step (LoadGatewayConfig (\<lambda>k. ''s'')) decode_hello
       (Connect True (Inr (encode_hello (connection_hello sample_config ''linux'' ''amd64'' (sa_capabilities sa))))) new_gateway"
  have new: "new_gateway = gateway_run (LoadGatewayConfig (\<lambda>k. ''s'')) decode_hello []" by (simp add: gateway_run_def)
  have names: "clean (cf_DeviceSecret sample_config) = ''s''" "clean (cf_DeviceID sample_config) = ''dev''"
    by (simp_all add: sample_config_def clean_valid valid_ascii in_range_def)
  have "reg_Get ?g ''dev'' = Some 0 \<and> ac_capabilities (gw_conns ?g ! 0) = sa_capabilities sa"
    using agent_comes_online [OF sa(1) new refl, of "''linux''" "''amd64''"] by (simp add: names new_gateway_def)
  moreover have "\<not> cap_CommandRead (sa_capabilities sa)"
    using startup_capability [OF sa(1)] sa(2) by (simp add: started_world_def initial_world_def)
  ultimately show ?thesis using sa(1) by auto
qed

end
